theory Spec2Isabelle
  imports Complex_Main "HOL-Library.AList" "HOL-Library.Monad_Syntax"
begin

section \<open>Numbers\<close>

text \<open>
  The program computes with JavaScript numbers.  The embedding keeps the values outside
  the reals that the program can produce without rounding or overflow: \<open>NaN\<close> and the two
  infinities, which arise from a division by zero.  A finite number is a real; rounding,
  overflow and the sign of zero are not modelled: a zero divisor counts as a positive
  zero, so a finite non-zero number divided by zero has the sign of the dividend.
\<close>

datatype num = Num real | NaN | PInf | NInf

fun nneg :: "num \<Rightarrow> num" where
  "nneg (Num a) = Num (- a)"
| "nneg NaN = NaN"
| "nneg PInf = NInf"
| "nneg NInf = PInf"

fun nadd :: "num \<Rightarrow> num \<Rightarrow> num" where
  "nadd (Num a) (Num b) = Num (a + b)"
| "nadd NaN _ = NaN"
| "nadd _ NaN = NaN"
| "nadd PInf NInf = NaN"
| "nadd NInf PInf = NaN"
| "nadd PInf _ = PInf"
| "nadd _ PInf = PInf"
| "nadd NInf _ = NInf"
| "nadd _ NInf = NInf"

definition nsub :: "num \<Rightarrow> num \<Rightarrow> num" where
  "nsub a b = nadd a (nneg b)"

fun nmul :: "num \<Rightarrow> num \<Rightarrow> num" where
  "nmul (Num a) (Num b) = Num (a * b)"
| "nmul NaN _ = NaN"
| "nmul _ NaN = NaN"
| "nmul PInf (Num b) = (if b = 0 then NaN else if 0 < b then PInf else NInf)"
| "nmul NInf (Num b) = (if b = 0 then NaN else if 0 < b then NInf else PInf)"
| "nmul (Num a) PInf = (if a = 0 then NaN else if 0 < a then PInf else NInf)"
| "nmul (Num a) NInf = (if a = 0 then NaN else if 0 < a then NInf else PInf)"
| "nmul PInf PInf = PInf"
| "nmul NInf NInf = PInf"
| "nmul PInf NInf = NInf"
| "nmul NInf PInf = NInf"

fun ndiv :: "num \<Rightarrow> num \<Rightarrow> num" where
  "ndiv (Num a) (Num b) =
     (if b = 0 then (if a = 0 then NaN else if 0 < a then PInf else NInf)
      else Num (a / b))"
| "ndiv NaN _ = NaN"
| "ndiv _ NaN = NaN"
| "ndiv (Num a) PInf = Num 0"
| "ndiv (Num a) NInf = Num 0"
| "ndiv PInf (Num b) = (if 0 \<le> b then PInf else NInf)"
| "ndiv NInf (Num b) = (if 0 \<le> b then NInf else PInf)"
| "ndiv PInf PInf = NaN"
| "ndiv PInf NInf = NaN"
| "ndiv NInf PInf = NaN"
| "ndiv NInf NInf = NaN"

fun nsqrt :: "num \<Rightarrow> num" where
  "nsqrt (Num a) = (if a < 0 then NaN else Num (sqrt a))"
| "nsqrt NaN = NaN"
| "nsqrt PInf = PInf"
| "nsqrt NInf = NaN"

fun nabs :: "num \<Rightarrow> num" where
  "nabs (Num a) = Num \<bar>a\<bar>"
| "nabs NaN = NaN"
| "nabs PInf = PInf"
| "nabs NInf = PInf"

text \<open>Every comparison with \<open>NaN\<close> is false.\<close>

fun nlt :: "num \<Rightarrow> num \<Rightarrow> bool" where
  "nlt (Num a) (Num b) = (a < b)"
| "nlt NaN _ = False"
| "nlt _ NaN = False"
| "nlt _ NInf = False"
| "nlt PInf _ = False"
| "nlt NInf _ = True"
| "nlt _ PInf = True"

fun nle :: "num \<Rightarrow> num \<Rightarrow> bool" where
  "nle (Num a) (Num b) = (a \<le> b)"
| "nle NaN _ = False"
| "nle _ NaN = False"
| "nle NInf _ = True"
| "nle _ PInf = True"
| "nle _ NInf = False"
| "nle PInf _ = False"

definition ngt :: "num \<Rightarrow> num \<Rightarrow> bool" where
  "ngt a b = nlt b a"

definition nge :: "num \<Rightarrow> num \<Rightarrow> bool" where
  "nge a b = nle b a"

text \<open>\<open>Math.min\<close> and \<open>Math.max\<close>: \<open>NaN\<close> when an argument is.\<close>

fun nmin :: "num \<Rightarrow> num \<Rightarrow> num" where
  "nmin NaN _ = NaN"
| "nmin _ NaN = NaN"
| "nmin a b = (if nlt b a then b else a)"

fun nmax :: "num \<Rightarrow> num \<Rightarrow> num" where
  "nmax NaN _ = NaN"
| "nmax _ NaN = NaN"
| "nmax a b = (if nlt a b then b else a)"

text \<open>\<open>Math.ceil\<close>, \<open>Math.cos\<close> and \<open>Math.sin\<close>.\<close>

fun nceil :: "num \<Rightarrow> num" where
  "nceil (Num a) = Num (of_int \<lceil>a\<rceil>)"
| "nceil NaN = NaN"
| "nceil PInf = PInf"
| "nceil NInf = NInf"

fun ncos :: "num \<Rightarrow> num" where
  "ncos (Num a) = Num (cos a)"
| "ncos _ = NaN"

fun nsin :: "num \<Rightarrow> num" where
  "nsin (Num a) = Num (sin a)"
| "nsin _ = NaN"

text \<open>
  \<open>Math.atan2\<close>: on finite numbers the angle of the point \<open>(x, y)\<close>, in \<open>(-\<pi>, \<pi>]\<close>, and \<open>0\<close>
  at the origin; at infinite arguments the limits of that angle.
\<close>

definition atan2 :: "real \<Rightarrow> real \<Rightarrow> real" where
  "atan2 y x =
     (if 0 < x then arctan (y / x)
      else if x < 0 then (if 0 \<le> y then arctan (y / x) + pi else arctan (y / x) - pi)
      else if 0 < y then pi / 2
      else if y < 0 then - (pi / 2)
      else 0)"

fun natan2 :: "num \<Rightarrow> num \<Rightarrow> num" where
  "natan2 (Num y) (Num x) = Num (atan2 y x)"
| "natan2 NaN _ = NaN"
| "natan2 _ NaN = NaN"
| "natan2 (Num y) PInf = Num 0"
| "natan2 (Num y) NInf = (if 0 \<le> y then Num pi else Num (- pi))"
| "natan2 PInf (Num x) = Num (pi / 2)"
| "natan2 NInf (Num x) = Num (- (pi / 2))"
| "natan2 PInf PInf = Num (pi / 4)"
| "natan2 PInf NInf = Num (3 * pi / 4)"
| "natan2 NInf PInf = Num (- (pi / 4))"
| "natan2 NInf NInf = Num (- (3 * pi / 4))"

section \<open>Geometry kernel\<close>

text \<open>\<open>Point\<close> and \<open>Vector\<close> have the same shape; \<open>'n\<close> is the type of their numbers.\<close>

record 'n vec =
  px :: 'n
  py :: 'n

definition distance :: "num vec \<Rightarrow> num vec \<Rightarrow> num" where
  "distance p1 p2 =
     (let dx = nsub (px p2) (px p1);
          dy = nsub (py p2) (py p1)
      in nsqrt (nadd (nmul dx dx) (nmul dy dy)))"

definition angle :: "num vec \<Rightarrow> num vec \<Rightarrow> num" where
  "angle from to = natan2 (nsub (py to) (py from)) (nsub (px to) (px from))"

text \<open>
  The two loops of \<open>normalizeAngle\<close>.  Neither loop ends on an infinite angle, which it
  leaves as it is; both end at once on \<open>NaN\<close>.  A call that does not return has the value
  \<open>None\<close>.
\<close>

partial_function (option) normalizeUp :: "num \<Rightarrow> num option" where
  "normalizeUp a = (if nlt a (Num 0) then normalizeUp (nadd a (Num (2 * pi))) else Some a)"

partial_function (option) normalizeDown :: "num \<Rightarrow> num option" where
  "normalizeDown a =
     (if nge a (Num (2 * pi)) then normalizeDown (nsub a (Num (2 * pi))) else Some a)"

definition normalizeAngle :: "num \<Rightarrow> num option" where
  "normalizeAngle a = normalizeUp a \<bind> normalizeDown"

text \<open>\<open>lineIntersection\<close> is modelled on finite coordinates: its numbers are reals.\<close>

record 'n line =
  lstart :: "'n vec"
  lend :: "'n vec"

definition lineIntersection :: "real line \<Rightarrow> real line \<Rightarrow> real vec option" where
  "lineIntersection line1 line2 =
     (let x1 = px (lstart line1); y1 = py (lstart line1);
          x2 = px (lend line1); y2 = py (lend line1);
          x3 = px (lstart line2); y3 = py (lstart line2);
          x4 = px (lend line2); y4 = py (lend line2);
          denom = (x1 - x2) * (y3 - y4) - (y1 - y2) * (x3 - x4)
      in if \<bar>denom\<bar> < 1 / 10 ^ 10 then None
         else
           let t = ((x1 - x3) * (y3 - y4) - (y1 - y3) * (x3 - x4)) / denom;
               u = - ((x1 - x2) * (y1 - y3) - (y1 - y2) * (x1 - x3)) / denom
           in if 0 \<le> t \<and> t \<le> 1 \<and> 0 \<le> u \<and> u \<le> 1
              then Some \<lparr>px = x1 + t * (x2 - x1), py = y1 + t * (y2 - y1)\<rparr>
              else None)"

section \<open>Physics engine\<close>

record 'n PhysicsBody =
  bid :: string
  position :: "'n vec"
  velocity :: "'n vec"
  radius :: 'n
  mass :: 'n
  friction :: 'n
  restitution :: 'n
  isStatic :: bool

type_synonym body = "num PhysicsBody"

text \<open>
  \<open>Partial<PhysicsBody>\<close>: the fields an update carries.
\<close>

record BodyUpdates =
  u_id :: "string option"
  u_position :: "num vec option"
  u_velocity :: "num vec option"
  u_radius :: "num option"
  u_mass :: "num option"
  u_friction :: "num option"
  u_restitution :: "num option"
  u_isStatic :: "bool option"

text \<open>
  A collision holds references to its two bodies.  A reference to a body of the array that
  \<open>step\<close> scans is modelled by the body's index in that array.
\<close>

record CollisionResult =
  bodyA :: nat
  bodyB :: nat
  normal :: "num vec"
  penetration :: num
  point :: "num vec"

text \<open>
  The registry is a JavaScript \<open>Map\<close>: it is iterated in the order in which its keys were
  first set, and setting a key that it holds replaces the value in place.  It is modelled
  by an association list.  Bodies are values: the model has no two bodies sharing one
  position or velocity object.
\<close>

record PhysicsEngine =
  bodies :: "(string \<times> body) list"
  boardWidth :: num
  boardHeight :: num

definition margin :: num where
  "margin = Num 20"

definition gravity :: "num vec" where
  "gravity = \<lparr>px = Num 0, py = Num 0\<rparr>"

definition airResistance :: num where
  "airResistance = Num 0.999"

definition newPhysicsEngine :: "num \<Rightarrow> num \<Rightarrow> PhysicsEngine" where
  "newPhysicsEngine w h = \<lparr>bodies = [], boardWidth = w, boardHeight = h\<rparr>"

definition addBody :: "PhysicsEngine \<Rightarrow> body \<Rightarrow> PhysicsEngine" where
  "addBody e b = e\<lparr>bodies := AList.update (bid b) b (bodies e)\<rparr>"

definition removeBody :: "PhysicsEngine \<Rightarrow> string \<Rightarrow> PhysicsEngine" where
  "removeBody e k = e\<lparr>bodies := AList.delete k (bodies e)\<rparr>"

definition getBody :: "PhysicsEngine \<Rightarrow> string \<Rightarrow> body option" where
  "getBody e k = map_of (bodies e) k"

definition getAllBodies :: "PhysicsEngine \<Rightarrow> body list" where
  "getAllBodies e = map snd (bodies e)"

definition assign :: "body \<Rightarrow> BodyUpdates \<Rightarrow> body" where
  "assign b u =
     b\<lparr>bid := (case u_id u of None \<Rightarrow> bid b | Some v \<Rightarrow> v),
       position := (case u_position u of None \<Rightarrow> position b | Some v \<Rightarrow> v),
       velocity := (case u_velocity u of None \<Rightarrow> velocity b | Some v \<Rightarrow> v),
       radius := (case u_radius u of None \<Rightarrow> radius b | Some v \<Rightarrow> v),
       mass := (case u_mass u of None \<Rightarrow> mass b | Some v \<Rightarrow> v),
       friction := (case u_friction u of None \<Rightarrow> friction b | Some v \<Rightarrow> v),
       restitution := (case u_restitution u of None \<Rightarrow> restitution b | Some v \<Rightarrow> v),
       isStatic := (case u_isStatic u of None \<Rightarrow> isStatic b | Some v \<Rightarrow> v)\<rparr>"

definition updateBody :: "PhysicsEngine \<Rightarrow> string \<Rightarrow> BodyUpdates \<Rightarrow> PhysicsEngine" where
  "updateBody e k u =
     (case map_of (bodies e) k of
        None \<Rightarrow> e
      | Some b \<Rightarrow> e\<lparr>bodies := AList.update k (assign b u) (bodies e)\<rparr>)"

definition stopBody :: "body \<Rightarrow> body" where
  "stopBody b = b\<lparr>velocity := (velocity b)\<lparr>px := Num 0, py := Num 0\<rparr>\<rparr>"

definition stopAllBodies :: "PhysicsEngine \<Rightarrow> PhysicsEngine" where
  "stopAllBodies e = e\<lparr>bodies := map (\<lambda>(k, b). (k, stopBody b)) (bodies e)\<rparr>"

definition speedOf :: "body \<Rightarrow> num" where
  "speedOf b =
     nsqrt (nadd (nmul (px (velocity b)) (px (velocity b)))
                 (nmul (py (velocity b)) (py (velocity b))))"

definition hasMovingBodies :: "PhysicsEngine \<Rightarrow> bool" where
  "hasMovingBodies e =
     list_ex (\<lambda>b. \<not> isStatic b \<and> ngt (speedOf b) (Num 0.1)) (map snd (bodies e))"

subsection \<open>The step\<close>

text \<open>
  The first loop of \<open>step\<close>, for one body: gravity, air resistance, friction, and the
  move by the new velocity.  A static body is skipped.
\<close>

definition integrateBody :: "num \<Rightarrow> body \<Rightarrow> body" where
  "integrateBody deltaTime b =
     (if isStatic b then b
      else
        let gx = nadd (px (velocity b)) (nmul (px gravity) deltaTime);
            gy = nadd (py (velocity b)) (nmul (py gravity) deltaTime);
            ax = nmul gx airResistance;
            ay = nmul gy airResistance;
            speed = nsqrt (nadd (nmul ax ax) (nmul ay ay));
            frictionForce = nmul (friction b) deltaTime;
            frictionX = nmul (ndiv ax speed) frictionForce;
            frictionY = nmul (ndiv ay speed) frictionForce;
            vx = (if ngt speed (Num 0.1)
                  then (if ngt (nabs ax) (nabs frictionX) then nsub ax frictionX else Num 0)
                  else Num 0);
            vy = (if ngt speed (Num 0.1)
                  then (if ngt (nabs ay) (nabs frictionY) then nsub ay frictionY else Num 0)
                  else Num 0)
        in b\<lparr>velocity := \<lparr>px = vx, py = vy\<rparr>,
             position := \<lparr>px = nadd (px (position b)) (nmul vx deltaTime),
                          py = nadd (py (position b)) (nmul vy deltaTime)\<rparr>\<rparr>)"

text \<open>The four walls, tested one after the other on the body as the earlier tests left it.\<close>

definition leftWall :: "body \<Rightarrow> body" where
  "leftWall b =
     (if nle (nsub (px (position b)) (radius b)) margin
      then b\<lparr>position := (position b)\<lparr>px := nadd margin (radius b)\<rparr>,
             velocity := (velocity b)\<lparr>px := nmul (nneg (px (velocity b))) (restitution b)\<rparr>\<rparr>
      else b)"

definition rightWall :: "num \<Rightarrow> body \<Rightarrow> body" where
  "rightWall w b =
     (if nge (nadd (px (position b)) (radius b)) (nsub w margin)
      then b\<lparr>position := (position b)\<lparr>px := nsub (nsub w margin) (radius b)\<rparr>,
             velocity := (velocity b)\<lparr>px := nmul (nneg (px (velocity b))) (restitution b)\<rparr>\<rparr>
      else b)"

definition topWall :: "body \<Rightarrow> body" where
  "topWall b =
     (if nle (nsub (py (position b)) (radius b)) margin
      then b\<lparr>position := (position b)\<lparr>py := nadd margin (radius b)\<rparr>,
             velocity := (velocity b)\<lparr>py := nmul (nneg (py (velocity b))) (restitution b)\<rparr>\<rparr>
      else b)"

definition bottomWall :: "num \<Rightarrow> body \<Rightarrow> body" where
  "bottomWall h b =
     (if nge (nadd (py (position b)) (radius b)) (nsub h margin)
      then b\<lparr>position := (position b)\<lparr>py := nsub (nsub h margin) (radius b)\<rparr>,
             velocity := (velocity b)\<lparr>py := nmul (nneg (py (velocity b))) (restitution b)\<rparr>\<rparr>
      else b)"

definition handleWallCollisions :: "num \<Rightarrow> num \<Rightarrow> body \<Rightarrow> body" where
  "handleWallCollisions w h b = bottomWall h (topWall (rightWall w (leftWall b)))"

text \<open>
  \<open>checkCollision\<close> and \<open>resolveCollision\<close> read and write the bodies of the array through
  their references: the array is the store, the indices are the references.
\<close>

definition checkCollision :: "body list \<Rightarrow> nat \<Rightarrow> nat \<Rightarrow> CollisionResult option" where
  "checkCollision bs i j =
     (let a = bs ! i;
          b = bs ! j;
          dist = distance (position a) (position b);
          minDistance = nadd (radius a) (radius b)
      in if nlt dist minDistance
         then
           let n = \<lparr>px = ndiv (nsub (px (position b)) (px (position a))) dist,
                    py = ndiv (nsub (py (position b)) (py (position a))) dist\<rparr>
           in Some \<lparr>bodyA = i, bodyB = j, normal = n,
                     penetration = nsub minDistance dist,
                     point = \<lparr>px = nadd (px (position a)) (nmul (px n) (radius a)),
                              py = nadd (py (position a)) (nmul (py n) (radius a))\<rparr>\<rparr>
         else None)"

text \<open>The first half of \<open>resolveCollision\<close>: the two bodies are moved apart.\<close>

definition separate :: "body list \<Rightarrow> CollisionResult \<Rightarrow> body list" where
  "separate bs c =
     (let a = bs ! bodyA c;
          b = bs ! bodyB c;
          n = normal c;
          totalMass = nadd (mass a) (mass b);
          separationA = nmul (nmul (ndiv (mass b) totalMass) (penetration c)) (Num 0.5);
          separationB = nmul (nmul (ndiv (mass a) totalMass) (penetration c)) (Num 0.5);
          a' = (if \<not> isStatic a
                then a\<lparr>position := \<lparr>px = nsub (px (position a)) (nmul (px n) separationA),
                                    py = nsub (py (position a)) (nmul (py n) separationA)\<rparr>\<rparr>
                else a);
          b' = (if \<not> isStatic b
                then b\<lparr>position := \<lparr>px = nadd (px (position b)) (nmul (px n) separationB),
                                    py = nadd (py (position b)) (nmul (py n) separationB)\<rparr>\<rparr>
                else b)
      in bs[bodyA c := a', bodyB c := b'])"

text \<open>The second half: the impulse along the normal, unless the bodies are separating.\<close>

definition applyImpulse :: "body list \<Rightarrow> CollisionResult \<Rightarrow> body list" where
  "applyImpulse bs c =
     (let a = bs ! bodyA c;
          b = bs ! bodyB c;
          n = normal c;
          rx = nsub (px (velocity b)) (px (velocity a));
          ry = nsub (py (velocity b)) (py (velocity a));
          velocityAlongNormal = nadd (nmul rx (px n)) (nmul ry (py n))
      in if ngt velocityAlongNormal (Num 0) then bs
         else
           let e = nmin (restitution a) (restitution b);
               impulse = ndiv (nmul (nneg (nadd (Num 1) e)) velocityAlongNormal)
                              (nadd (ndiv (Num 1) (mass a)) (ndiv (Num 1) (mass b)));
               ix = nmul impulse (px n);
               iy = nmul impulse (py n);
               a' = (if \<not> isStatic a
                     then a\<lparr>velocity := \<lparr>px = nsub (px (velocity a)) (ndiv ix (mass a)),
                                         py = nsub (py (velocity a)) (ndiv iy (mass a))\<rparr>\<rparr>
                     else a);
               b' = (if \<not> isStatic b
                     then b\<lparr>velocity := \<lparr>px = nadd (px (velocity b)) (ndiv ix (mass b)),
                                         py = nadd (py (velocity b)) (ndiv iy (mass b))\<rparr>\<rparr>
                     else b)
           in bs[bodyA c := a', bodyB c := b'])"

definition resolveCollision :: "body list \<Rightarrow> CollisionResult \<Rightarrow> body list" where
  "resolveCollision bs c = applyImpulse (separate bs c) c"

text \<open>
  The scan of the pairs \<open>i < j\<close>, in the order of the array; each pair is tested on the
  bodies as the pairs before it left them.
\<close>

fun collideInner ::
  "nat \<Rightarrow> nat list \<Rightarrow> body list \<times> CollisionResult list \<Rightarrow> body list \<times> CollisionResult list" where
  "collideInner i [] s = s"
| "collideInner i (j # js) (bs, cs) =
     (case checkCollision bs i j of
        None \<Rightarrow> collideInner i js (bs, cs)
      | Some c \<Rightarrow> collideInner i js (resolveCollision bs c, cs @ [c]))"

fun collideOuter ::
  "nat list \<Rightarrow> nat \<Rightarrow> body list \<times> CollisionResult list \<Rightarrow> body list \<times> CollisionResult list" where
  "collideOuter [] n s = s"
| "collideOuter (i # is) n s = collideOuter is n (collideInner i [Suc i..<n] s)"

definition collidePairs :: "body list \<Rightarrow> body list \<times> CollisionResult list" where
  "collidePairs bs = collideOuter [0..<length bs] (length bs) (bs, [])"

definition wallPhase :: "num \<Rightarrow> num \<Rightarrow> body \<Rightarrow> body" where
  "wallPhase w h b = (if isStatic b then b else handleWallCollisions w h b)"

definition step :: "PhysicsEngine \<Rightarrow> num \<Rightarrow> PhysicsEngine \<times> CollisionResult list" where
  "step e deltaTime =
     (let moved = map (integrateBody deltaTime) (map snd (bodies e));
          walled = map (wallPhase (boardWidth e) (boardHeight e)) moved;
          (bs, collisions) = collidePairs walled
      in (e\<lparr>bodies := zip (map fst (bodies e)) bs\<rparr>, collisions))"

subsection \<open>The trajectory predictor\<close>

text \<open>
  One pass through the body of the loop of \<open>simulateTrajectory\<close>, after the position was
  recorded: the new position and velocity, and whether the loop goes on (it does not after
  a \<open>break\<close>).
\<close>

definition simIteration ::
  "PhysicsEngine \<Rightarrow> num \<Rightarrow> num \<Rightarrow> num vec \<times> num vec \<Rightarrow> (num vec \<times> num vec) \<times> bool" where
  "simIteration e r timeStep s =
     (let pos = fst s;
          vel = snd s;
          ax = nmul (px vel) airResistance;
          ay = nmul (py vel) airResistance;
          speed = nsqrt (nadd (nmul ax ax) (nmul ay ay))
      in if \<not> ngt speed (Num 0.1) then ((pos, \<lparr>px = ax, py = ay\<rparr>), False)
         else
           let fr = nmul (Num 0.02) timeStep;
               frictionX = nmul (ndiv ax speed) fr;
               frictionY = nmul (ndiv ay speed) fr;
               vx = (if ngt (nabs ax) (nabs frictionX) then nsub ax frictionX else Num 0);
               vy = (if ngt (nabs ay) (nabs frictionY) then nsub ay frictionY else Num 0);
               x = nadd (px pos) (nmul vx timeStep);
               y = nadd (py pos) (nmul vy timeStep);
               hitX = (nle (nsub x r) margin \<or> nge (nadd x r) (nsub (boardWidth e) margin));
               vx' = (if hitX then nmul (nneg vx) (Num 0.8) else vx);
               x' = (if hitX
                     then (if nle (nsub x r) margin then nadd margin r
                           else nsub (nsub (boardWidth e) margin) r)
                     else x);
               hitY = (nle (nsub y r) margin \<or> nge (nadd y r) (nsub (boardHeight e) margin));
               vy' = (if hitY then nmul (nneg vy) (Num 0.8) else vy);
               y' = (if hitY
                     then (if nle (nsub y r) margin then nadd margin r
                           else nsub (nsub (boardHeight e) margin) r)
                     else y)
           in ((\<lparr>px = x', py = y'\<rparr>, \<lparr>px = vx', py = vy'\<rparr>),
               \<not> (nlt (nabs vx') (Num 0.5) \<and> nlt (nabs vy') (Num 0.5))))"

fun simLoop :: "PhysicsEngine \<Rightarrow> num \<Rightarrow> num \<Rightarrow> nat \<Rightarrow> num vec \<times> num vec \<Rightarrow> num vec list" where
  "simLoop e r timeStep 0 s = []"
| "simLoop e r timeStep (Suc n) s =
     fst s # (case simIteration e r timeStep s of
                (s', True) \<Rightarrow> simLoop e r timeStep n s'
              | (s', False) \<Rightarrow> [])"

text \<open>The step budget is a count of iterations.\<close>

definition simulateTrajectory ::
  "PhysicsEngine \<Rightarrow> num vec \<Rightarrow> num vec \<Rightarrow> num \<Rightarrow> nat \<Rightarrow> num \<Rightarrow> num vec list" where
  "simulateTrajectory e startPos vel r steps timeStep = simLoop e r timeStep steps (startPos, vel)"


subsection \<open>The path query\<close>

text \<open>
  The test that \<open>isPathClear\<close> makes at the sample \<open>i\<close>: a body that is not excluded lies
  within its radius plus the buffer of the sample.
\<close>

definition pathBlocked ::
  "PhysicsEngine \<Rightarrow> num vec \<Rightarrow> num vec \<Rightarrow> string list \<Rightarrow> num \<Rightarrow> num \<Rightarrow> nat \<Rightarrow> bool" where
  "pathBlocked e start end excludeIds buffer steps i =
     (let t = ndiv (Num (real i)) steps;
          checkPoint = \<lparr>px = nadd (px start) (nmul (nsub (px end) (px start)) t),
                        py = nadd (py start) (nmul (nsub (py end) (py start)) t)\<rparr>
      in list_ex
           (\<lambda>b. bid b \<notin> set excludeIds \<and>
                nle (distance checkPoint (position b)) (nadd (radius b) buffer))
           (map snd (bodies e)))"

text \<open>
  The loop over the samples \<open>i = 0, 1, ...\<close> while \<open>i \<le> steps\<close>.  It is not entered when
  \<open>steps\<close> is \<open>NaN\<close>, and when \<open>steps\<close> is infinite it ends only at a blocked sample.  A call
  that does not return has the value \<open>None\<close>.
\<close>

partial_function (option) pathLoop :: "(nat \<Rightarrow> bool) \<Rightarrow> num \<Rightarrow> nat \<Rightarrow> bool option" where
  "pathLoop blocked steps i =
     (if nle (Num (real i)) steps
      then (if blocked i then Some False else pathLoop blocked steps (Suc i))
      else Some True)"

definition isPathClear ::
  "PhysicsEngine \<Rightarrow> num vec \<Rightarrow> num vec \<Rightarrow> string list \<Rightarrow> num \<Rightarrow> bool option" where
  "isPathClear e start end excludeIds buffer =
     (let pathLength = distance start end;
          stepSize = Num 2;
          steps = nceil (ndiv pathLength stepSize)
      in pathLoop (pathBlocked e start end excludeIds buffer steps) steps 0)"
section \<open>Shot planner\<close>

subsection \<open>Shots and snapshots\<close>

record CarromPocket =
  pocketPosition :: "num vec"
  pocketRadius :: num

datatype ShotType = Direct | Bank | Carom | Combination

datatype Risk = Low | Medium | High

text \<open>
  The id of a shot is a string made of its kind, ids and coordinates; the model keeps the
  parts.
\<close>

datatype ShotId =
  DirectId string num num
| BankId string num num num
| CaromId string string num

record ShotOption =
  shotId :: ShotId
  shotType :: ShotType
  targetCoin :: string
  targetPocket :: CarromPocket
  strikerPosition :: "num vec"
  shotAngle :: num
  shotPower :: num
  successProbability :: num
  trajectory :: "num vec list"
  bankPoints :: "num vec list option"
  intermediateCoins :: "string list option"
  description :: string
  risk :: Risk

datatype Player = PlayerSide | OpponentSide

datatype GamePhase = Initial | Playing | Endgame

record GameState =
  playerCoins :: "body list"
  opponentCoins :: "body list"
  striker :: body
  queen :: "body option"
  pockets :: "CarromPocket list"
  currentPlayer :: Player
  gamePhase :: GamePhase

datatype Difficulty = Easy | Moderate | Hard | Expert

record CarromAI =
  physicsEngine :: PhysicsEngine
  aiBoardWidth :: num
  aiBoardHeight :: num
  aiPockets :: "CarromPocket list"
  accuracyMultiplier :: num

record Wall =
  wallName :: string
  wallStart :: "num vec"
  wallEnd :: "num vec"

definition newCarromAI :: "PhysicsEngine \<Rightarrow> num \<Rightarrow> num \<Rightarrow> Difficulty \<Rightarrow> CarromAI" where
  "newCarromAI engine w h difficulty =
     (let pocketRadius = Num 25;
          m = Num 30
      in \<lparr>physicsEngine = engine, aiBoardWidth = w, aiBoardHeight = h,
          aiPockets =
            [\<lparr>pocketPosition = \<lparr>px = m, py = m\<rparr>, pocketRadius = pocketRadius\<rparr>,
             \<lparr>pocketPosition = \<lparr>px = nsub w m, py = m\<rparr>, pocketRadius = pocketRadius\<rparr>,
             \<lparr>pocketPosition = \<lparr>px = m, py = nsub h m\<rparr>, pocketRadius = pocketRadius\<rparr>,
             \<lparr>pocketPosition = \<lparr>px = nsub w m, py = nsub h m\<rparr>, pocketRadius = pocketRadius\<rparr>],
          accuracyMultiplier =
            (case difficulty of
               Easy \<Rightarrow> Num 0.7 | Moderate \<Rightarrow> Num 0.85 | Hard \<Rightarrow> Num 0.95 | Expert \<Rightarrow> Num 1.0)\<rparr>)"

subsection \<open>Helpers of the planner\<close>

text \<open>
  A loop that pushes the results of its body, in order, onto one array.  The loop returns
  when its body returns at every element.
\<close>

fun collect :: "('a \<Rightarrow> 'b list option) \<Rightarrow> 'a list \<Rightarrow> 'b list option" where
  "collect f [] = Some []"
| "collect f (x # xs) = do { ys \<leftarrow> f x; zs \<leftarrow> collect f xs; Some (ys @ zs) }"

text \<open>
  The loop of \<open>getStrikerStartArea\<close>: \<open>x\<close> from \<open>centerX - range\<close> in steps of 10 while
  \<open>x \<le> centerX + range\<close>.  It is not entered when the bounds are \<open>NaN\<close> and does not end
  when they are infinite; a call that does not return has the value \<open>None\<close>.  The steps of
  10 are exact: the rounding that stops the program's loop from advancing on a board
  \<open>2 ^ 58\<close> wide is not modelled, and the properties below keep the width within \<open>2 ^ 53\<close>.
\<close>

partial_function (option) strikerXs :: "num \<Rightarrow> num \<Rightarrow> num list option" where
  "strikerXs x hi =
     (if nle x hi then strikerXs (nadd x (Num 10)) hi \<bind> (\<lambda>xs. Some (x # xs)) else Some [])"

definition getStrikerStartArea :: "CarromAI \<Rightarrow> num vec list option" where
  "getStrikerStartArea ai =
     (let centerX = ndiv (aiBoardWidth ai) (Num 2);
          startY = nsub (aiBoardHeight ai) (Num 40);
          range = Num 60
      in map_option (map (\<lambda>x. \<lparr>px = x, py = startY\<rparr>))
           (strikerXs (nsub centerX range) (nadd centerX range)))"

definition getBoardWalls :: "CarromAI \<Rightarrow> Wall list" where
  "getBoardWalls ai =
     [\<lparr>wallName = ''top'', wallStart = \<lparr>px = Num 0, py = Num 0\<rparr>,
       wallEnd = \<lparr>px = aiBoardWidth ai, py = Num 0\<rparr>\<rparr>,
      \<lparr>wallName = ''right'', wallStart = \<lparr>px = aiBoardWidth ai, py = Num 0\<rparr>,
       wallEnd = \<lparr>px = aiBoardWidth ai, py = aiBoardHeight ai\<rparr>\<rparr>,
      \<lparr>wallName = ''bottom'', wallStart = \<lparr>px = aiBoardWidth ai, py = aiBoardHeight ai\<rparr>,
       wallEnd = \<lparr>px = Num 0, py = aiBoardHeight ai\<rparr>\<rparr>,
      \<lparr>wallName = ''left'', wallStart = \<lparr>px = Num 0, py = aiBoardHeight ai\<rparr>,
       wallEnd = \<lparr>px = Num 0, py = Num 0\<rparr>\<rparr>]"

text \<open>\<open>calculateBankPoint\<close> returns a point, or \<open>null\<close> for a wall of no known name.\<close>

definition calculateBankPoint :: "CarromAI \<Rightarrow> num vec \<Rightarrow> num vec \<Rightarrow> Wall \<Rightarrow> num vec option" where
  "calculateBankPoint ai coinPos pocketPos wall =
     (let midX = ndiv (nadd (px coinPos) (px pocketPos)) (Num 2);
          midY = ndiv (nadd (py coinPos) (py pocketPos)) (Num 2)
      in if wallName wall = ''top'' then Some \<lparr>px = midX, py = Num 20\<rparr>
         else if wallName wall = ''bottom''
         then Some \<lparr>px = midX, py = nsub (aiBoardHeight ai) (Num 20)\<rparr>
         else if wallName wall = ''left'' then Some \<lparr>px = Num 20, py = midY\<rparr>
         else if wallName wall = ''right''
         then Some \<lparr>px = nsub (aiBoardWidth ai) (Num 20), py = midY\<rparr>
         else None)"

definition calculateRequiredPower :: "num \<Rightarrow> num \<Rightarrow> num" where
  "calculateRequiredPower shotDistance pocketDistance =
     nmin (Num 100)
       (nmax (Num 20) (nadd (nmul shotDistance (Num 0.3)) (nmul pocketDistance (Num 0.1))))"

definition powerToVelocity :: "num \<Rightarrow> num \<Rightarrow> num vec" where
  "powerToVelocity p a =
     (let speed = nmul p (Num 0.5) in \<lparr>px = nmul (ncos a) speed, py = nmul (nsin a) speed\<rparr>)"

definition getPocketName :: "CarromAI \<Rightarrow> CarromPocket \<Rightarrow> string" where
  "getPocketName ai pocket =
     (let x = px (pocketPosition pocket);
          y = py (pocketPosition pocket);
          halfWidth = ndiv (aiBoardWidth ai) (Num 2);
          halfHeight = ndiv (aiBoardHeight ai) (Num 2)
      in if nlt x halfWidth \<and> nlt y halfHeight then ''top-left''
         else if nge x halfWidth \<and> nlt y halfHeight then ''top-right''
         else if nlt x halfWidth \<and> nge y halfHeight then ''bottom-left''
         else ''bottom-right'')"

definition isCoinPocketed :: "CarromAI \<Rightarrow> body \<Rightarrow> bool" where
  "isCoinPocketed ai coin =
     list_ex (\<lambda>pocket. nle (distance (position coin) (pocketPosition pocket)) (pocketRadius pocket))
       (aiPockets ai)"

definition getTargetCoins :: "CarromAI \<Rightarrow> GameState \<Rightarrow> body list" where
  "getTargetCoins ai gameState =
     (if currentPlayer gameState = PlayerSide
      then filter (\<lambda>coin. \<not> isCoinPocketed ai coin) (playerCoins gameState)
      else filter (\<lambda>coin. \<not> isCoinPocketed ai coin) (opponentCoins gameState))"

subsection \<open>Scoring\<close>

definition calculateShotProbability ::
  "CarromAI \<Rightarrow> num vec \<Rightarrow> num vec \<Rightarrow> num vec \<Rightarrow> ShotType \<Rightarrow> GameState \<Rightarrow> num option" where
  "calculateShotProbability ai strikerPos targetPos pocketPos shotKind gameState =
     do {
       let base0 = Num 0.8;
       let shotDistance = distance strikerPos targetPos;
       let distanceFactor = nmax (Num 0.1) (nsub (Num 1) (ndiv shotDistance (Num 400)));
       let base1 = nmul base0 distanceFactor;
       let optimalAngle = angle targetPos pocketPos;
       let aim = angle strikerPos targetPos;
       n1 \<leftarrow> normalizeAngle (nadd optimalAngle (Num pi));
       n2 \<leftarrow> normalizeAngle aim;
       let angleDiff = nabs (nsub n1 n2);
       let angleFactor = nmax (Num 0.1) (nsub (Num 1) (ndiv angleDiff (Num pi)));
       let base2 = nmul base1 angleFactor;
       let base3 = (case shotKind of
                      Direct \<Rightarrow> nmul base2 (Num 1.0)
                    | Bank \<Rightarrow> nmul base2 (Num 0.7)
                    | Carom \<Rightarrow> nmul base2 (Num 0.5)
                    | Combination \<Rightarrow> base2);
       pathClear \<leftarrow> isPathClear (physicsEngine ai) strikerPos targetPos [] (Num 2);
       let base4 = (if \<not> pathClear then nmul base3 (Num 0.6) else base3);
       let base5 = nmul base4 (accuracyMultiplier ai);
       Some (nmax (Num 0.05) (nmin (Num 0.95) base5))
     }"

subsection \<open>Candidates\<close>

text \<open>
  The planner simulates every trajectory with the predictor's defaults: radius 10, 100
  steps, a time step of \<open>1 / 60\<close>.
\<close>

definition predictedTrajectory :: "CarromAI \<Rightarrow> num vec \<Rightarrow> num vec \<Rightarrow> num vec list" where
  "predictedTrajectory ai strikerPos vel =
     simulateTrajectory (physicsEngine ai) strikerPos vel (Num 10) 100 (Num (1 / 60))"

definition directShotAt ::
  "CarromAI \<Rightarrow> body \<Rightarrow> CarromPocket \<Rightarrow> GameState \<Rightarrow> num vec \<Rightarrow> ShotOption list option" where
  "directShotAt ai target pocket gameState strikerPos =
     do {
       let strikerToCoin = angle strikerPos (position target);
       let coinToPocket = angle (position target) (pocketPosition pocket);
       n1 \<leftarrow> normalizeAngle strikerToCoin;
       n2 \<leftarrow> normalizeAngle (nadd coinToPocket (Num pi));
       let angleDiff = nabs (nsub n1 n2);
       let maxAngleError = Num (pi / 6);
       if nle angleDiff maxAngleError \<or> nle (nsub (Num (2 * pi)) angleDiff) maxAngleError
       then do {
         let shotDistance = distance strikerPos (position target);
         let pocketDistance = distance (position target) (pocketPosition pocket);
         let p = calculateRequiredPower shotDistance pocketDistance;
         probability \<leftarrow> calculateShotProbability ai strikerPos (position target)
                          (pocketPosition pocket) Direct gameState;
         let vel = powerToVelocity p strikerToCoin;
         Some [\<lparr>shotId = DirectId (bid target) (px (pocketPosition pocket))
                          (py (pocketPosition pocket)),
                shotType = Direct, targetCoin = bid target, targetPocket = pocket,
                strikerPosition = strikerPos, shotAngle = strikerToCoin, shotPower = p,
                successProbability = probability,
                trajectory = predictedTrajectory ai strikerPos vel,
                bankPoints = None, intermediateCoins = None,
                description = ''Direct shot to '' @ getPocketName ai pocket,
                risk = (if ngt probability (Num 0.7) then Low
                        else if ngt probability (Num 0.4) then Medium else High)\<rparr>]
       }
       else Some []
     }"

definition calculateDirectShots ::
  "CarromAI \<Rightarrow> body \<Rightarrow> CarromPocket \<Rightarrow> num vec list \<Rightarrow> GameState \<Rightarrow> ShotOption list option" where
  "calculateDirectShots ai target pocket strikerArea gameState =
     collect (directShotAt ai target pocket gameState) strikerArea"

definition bankShotAt ::
  "CarromAI \<Rightarrow> body \<Rightarrow> CarromPocket \<Rightarrow> GameState \<Rightarrow> num vec \<Rightarrow> Wall \<Rightarrow> ShotOption list option" where
  "bankShotAt ai target pocket gameState strikerPos wall =
     (case calculateBankPoint ai (position target) (pocketPosition pocket) wall of
        None \<Rightarrow> Some []
      | Some bankPoint \<Rightarrow> do {
          let strikerToBank = angle strikerPos bankPoint;
          let shotDistance = nadd (distance strikerPos bankPoint)
                               (distance bankPoint (position target));
          let p = calculateRequiredPower shotDistance
                    (distance (position target) (pocketPosition pocket));
          probability \<leftarrow> calculateShotProbability ai strikerPos (position target)
                           (pocketPosition pocket) Bank gameState;
          let vel = powerToVelocity p strikerToBank;
          Some [\<lparr>shotId = BankId (bid target) (px (pocketPosition pocket))
                           (py (pocketPosition pocket)) (px bankPoint),
                 shotType = Bank, targetCoin = bid target, targetPocket = pocket,
                 strikerPosition = strikerPos, shotAngle = strikerToBank, shotPower = p,
                 successProbability = nmul probability (Num 0.8),
                 trajectory = predictedTrajectory ai strikerPos vel,
                 bankPoints = Some [bankPoint], intermediateCoins = None,
                 description = ''Bank shot off '' @ wallName wall @ '' to '' @
                               getPocketName ai pocket,
                 risk = (if ngt probability (Num 0.6) then Medium else High)\<rparr>]
        })"

definition calculateBankShots ::
  "CarromAI \<Rightarrow> body \<Rightarrow> CarromPocket \<Rightarrow> num vec list \<Rightarrow> GameState \<Rightarrow> ShotOption list option" where
  "calculateBankShots ai target pocket strikerArea gameState =
     collect (\<lambda>strikerPos. collect (bankShotAt ai target pocket gameState strikerPos)
                             (getBoardWalls ai))
       strikerArea"

definition caromShotAt ::
  "CarromAI \<Rightarrow> body \<Rightarrow> CarromPocket \<Rightarrow> GameState \<Rightarrow> num vec \<Rightarrow> body \<Rightarrow> ShotOption list option" where
  "caromShotAt ai target pocket gameState strikerPos intermediateCoin =
     do {
       let strikerToIntermediate = angle strikerPos (position intermediateCoin);
       let intermediateToTarget = angle (position intermediateCoin) (position target);
       let targetToPocket = angle (position target) (pocketPosition pocket);
       n1 \<leftarrow> normalizeAngle intermediateToTarget;
       n2 \<leftarrow> normalizeAngle (nadd targetToPocket (Num pi));
       let angleDiff = nabs (nsub n1 n2);
       let maxAngleError = Num (pi / 4);
       if nle angleDiff maxAngleError \<or> nle (nsub (Num (2 * pi)) angleDiff) maxAngleError
       then do {
         let totalDistance = nadd (distance strikerPos (position intermediateCoin))
                               (distance (position intermediateCoin) (position target));
         let p = calculateRequiredPower totalDistance
                   (distance (position target) (pocketPosition pocket));
         probability \<leftarrow> calculateShotProbability ai strikerPos (position target)
                          (pocketPosition pocket) Carom gameState;
         let vel = powerToVelocity p strikerToIntermediate;
         Some [\<lparr>shotId = CaromId (bid target) (bid intermediateCoin)
                          (px (pocketPosition pocket)),
                shotType = Carom, targetCoin = bid target, targetPocket = pocket,
                strikerPosition = strikerPos, shotAngle = strikerToIntermediate,
                shotPower = p,
                successProbability = nmul probability (Num 0.6),
                trajectory = predictedTrajectory ai strikerPos vel,
                bankPoints = None, intermediateCoins = Some [bid intermediateCoin],
                description = ''Carom shot via '' @ bid intermediateCoin @ '' to '' @
                              getPocketName ai pocket,
                risk = High\<rparr>]
       }
       else Some []
     }"

definition calculateCaromShots ::
  "CarromAI \<Rightarrow> body \<Rightarrow> CarromPocket \<Rightarrow> num vec list \<Rightarrow> GameState \<Rightarrow> ShotOption list option" where
  "calculateCaromShots ai target pocket strikerArea gameState =
     (let allCoins = playerCoins gameState @ opponentCoins gameState;
          others = filter (\<lambda>coin. bid coin \<noteq> bid target \<and> \<not> isCoinPocketed ai coin) allCoins
      in collect (\<lambda>strikerPos. collect (caromShotAt ai target pocket gameState strikerPos) others)
           strikerArea)"

subsection \<open>Ranking\<close>

definition calculatePositionalValue :: "ShotOption \<Rightarrow> num" where
  "calculatePositionalValue shot =
     (if ngt (successProbability shot) (Num 0.5) then Num 5 else Num 0)"

definition calculateStrategicValue :: "ShotOption \<Rightarrow> GameState \<Rightarrow> num" where
  "calculateStrategicValue shot gameState =
     (let v0 = nmul (successProbability shot) (Num 100);
          v1 = (if currentPlayer gameState = PlayerSide \<and>
                   list_ex (\<lambda>coin. bid coin = targetCoin shot) (playerCoins gameState)
                then nadd v0 (Num 20) else v0);
          v2 = (if risk shot = High then nsub v1 (Num 10) else v1)
      in nadd v2 (calculatePositionalValue shot))"

definition compareShots :: "GameState \<Rightarrow> ShotOption \<Rightarrow> ShotOption \<Rightarrow> num" where
  "compareShots gameState a b =
     (let probDiff = nsub (successProbability b) (successProbability a)
      in if ngt (nabs probDiff) (Num 0.1) then probDiff
         else nsub (calculateStrategicValue b gameState) (calculateStrategicValue a gameState))"

text \<open>
  \<open>Array.prototype.sort\<close> with a comparison function, as a stable insertion sort: an element
  stays before a later one unless the comparison of the two is positive; a comparison that
  is \<open>NaN\<close> counts as zero.  The comparison of \<open>rankShots\<close> is not transitive, and for such a
  comparison the order of the result depends on the sorting algorithm of the engine that
  runs the program; the result is a rearrangement of the array for every algorithm.  The
  properties below use no more.
\<close>

fun insertBy :: "('a \<Rightarrow> 'a \<Rightarrow> num) \<Rightarrow> 'a \<Rightarrow> 'a list \<Rightarrow> 'a list" where
  "insertBy cmp x [] = [x]"
| "insertBy cmp x (y # ys) =
     (if ngt (cmp x y) (Num 0) then y # insertBy cmp x ys else x # y # ys)"

definition sortBy :: "('a \<Rightarrow> 'a \<Rightarrow> num) \<Rightarrow> 'a list \<Rightarrow> 'a list" where
  "sortBy cmp xs = foldr (insertBy cmp) xs []"

definition rankShots :: "ShotOption list \<Rightarrow> GameState \<Rightarrow> ShotOption list" where
  "rankShots shots gameState = take 10 (sortBy (compareShots gameState) shots)"

subsection \<open>The planner's surface\<close>

definition shotsFor ::
  "CarromAI \<Rightarrow> GameState \<Rightarrow> num vec list \<Rightarrow> body \<Rightarrow> CarromPocket \<Rightarrow> ShotOption list option" where
  "shotsFor ai gameState strikerStartArea target pocket =
     do {
       directShots \<leftarrow> calculateDirectShots ai target pocket strikerStartArea gameState;
       bankShots \<leftarrow> calculateBankShots ai target pocket strikerStartArea gameState;
       caromShots \<leftarrow> calculateCaromShots ai target pocket strikerStartArea gameState;
       Some (directShots @ bankShots @ caromShots)
     }"

definition generateShots :: "CarromAI \<Rightarrow> GameState \<Rightarrow> num vec list \<Rightarrow> ShotOption list option" where
  "generateShots ai gameState strikerStartArea =
     collect (\<lambda>target. collect (shotsFor ai gameState strikerStartArea target) (aiPockets ai))
       (getTargetCoins ai gameState)"

definition analyzeShot :: "CarromAI \<Rightarrow> GameState \<Rightarrow> ShotOption list option" where
  "analyzeShot ai gameState =
     do {
       strikerStartArea \<leftarrow> getStrikerStartArea ai;
       shots \<leftarrow> generateShots ai gameState strikerStartArea;
       Some (rankShots shots gameState)
     }"

text \<open>\<open>getBestShot\<close> returns a shot or \<open>null\<close>, when it returns.\<close>

definition getBestShot :: "CarromAI \<Rightarrow> GameState \<Rightarrow> ShotOption option option" where
  "getBestShot ai gameState =
     map_option (\<lambda>shots. case shots of [] \<Rightarrow> None | shot # _ \<Rightarrow> Some shot)
       (analyzeShot ai gameState)"

text \<open>
  \<open>slice(0, count)\<close>: the count is truncated to an integer, \<open>NaN\<close> counts as \<open>0\<close>, and a
  negative count is taken from the end of the array.
\<close>

definition sliceTo :: "num \<Rightarrow> 'a list \<Rightarrow> 'a list" where
  "sliceTo count xs =
     (case count of
        Num r \<Rightarrow>
          (let k = (if r < 0 then \<lceil>r\<rceil> else \<lfloor>r\<rfloor>)
           in if k < 0 then take (nat (int (length xs) + k)) xs else take (nat k) xs)
      | NaN \<Rightarrow> []
      | PInf \<Rightarrow> xs
      | NInf \<Rightarrow> [])"

definition getShotOptions :: "CarromAI \<Rightarrow> GameState \<Rightarrow> num \<Rightarrow> ShotOption list option" where
  "getShotOptions ai gameState count = map_option (sliceTo count) (analyzeShot ai gameState)"
section \<open>Notions used in the properties\<close>

fun isFinite :: "num \<Rightarrow> bool" where
  "isFinite (Num a) = True"
| "isFinite _ = False"

definition finiteVec :: "num vec \<Rightarrow> bool" where
  "finiteVec v = (isFinite (px v) \<and> isFinite (py v))"

definition finiteBody :: "body \<Rightarrow> bool" where
  "finiteBody b =
     (finiteVec (position b) \<and> finiteVec (velocity b) \<and> isFinite (radius b) \<and>
      isFinite (mass b) \<and> isFinite (friction b) \<and> isFinite (restitution b))"

text \<open>The total momentum of two bodies, \<open>massA * velocityA + massB * velocityB\<close>.\<close>

definition momentum :: "body \<Rightarrow> body \<Rightarrow> num vec" where
  "momentum a b =
     \<lparr>px = nadd (nmul (mass a) (px (velocity a))) (nmul (mass b) (px (velocity b))),
      py = nadd (nmul (mass a) (py (velocity a))) (nmul (mass b) (py (velocity b)))\<rparr>"

text \<open>
  The body lies within the board minus the margin:
  \<open>margin + radius \<le> x \<le> boardWidth - margin - radius\<close>, and the same for \<open>y\<close>.
\<close>

definition inBounds :: "num \<Rightarrow> num \<Rightarrow> body \<Rightarrow> bool" where
  "inBounds w h b =
     (nle (nadd margin (radius b)) (px (position b)) \<and>
      nle (px (position b)) (nsub (nsub w margin) (radius b)) \<and>
      nle (nadd margin (radius b)) (py (position b)) \<and>
      nle (py (position b)) (nsub (nsub h margin) (radius b)))"

text \<open>
  The words of the claim about \<open>lineIntersection\<close>: the determinant of the two segments, the
  parameters \<open>t\<close> and \<open>u\<close> solved from it, the point of a segment at a parameter, and the
  range \<open>[0, 1]\<close>.
\<close>

definition determinant :: "real line \<Rightarrow> real line \<Rightarrow> real" where
  "determinant l1 l2 =
     (px (lstart l1) - px (lend l1)) * (py (lstart l2) - py (lend l2)) -
     (py (lstart l1) - py (lend l1)) * (px (lstart l2) - px (lend l2))"

definition pointAt :: "real line \<Rightarrow> real \<Rightarrow> real vec" where
  "pointAt l t =
     \<lparr>px = px (lstart l) + t * (px (lend l) - px (lstart l)),
      py = py (lstart l) + t * (py (lend l) - py (lstart l))\<rparr>"

definition paramT :: "real line \<Rightarrow> real line \<Rightarrow> real" where
  "paramT l1 l2 =
     ((px (lstart l1) - px (lstart l2)) * (py (lstart l2) - py (lend l2)) -
      (py (lstart l1) - py (lstart l2)) * (px (lstart l2) - px (lend l2))) / determinant l1 l2"

definition paramU :: "real line \<Rightarrow> real line \<Rightarrow> real" where
  "paramU l1 l2 =
     - ((px (lstart l1) - px (lend l1)) * (py (lstart l1) - py (lstart l2)) -
        (py (lstart l1) - py (lend l1)) * (px (lstart l1) - px (lstart l2))) / determinant l1 l2"

definition inUnit :: "real \<Rightarrow> bool" where
  "inUnit t = (0 \<le> t \<and> t \<le> 1)"

text \<open>
  The friction and wall updates of \<open>step\<close> and of \<open>simulateTrajectory\<close> on finite numbers, one
  coordinate at a time: the velocity component after friction, the wall tests of
  \<open>handleWallCollisions\<close> (left or top, then right or bottom) and the single test of
  \<open>simulateTrajectory\<close>.
\<close>

definition slowed :: "real \<Rightarrow> real \<Rightarrow> real \<Rightarrow> real" where
  "slowed a speed fr = (if \<bar>a / speed * fr\<bar> < \<bar>a\<bar> then a - a / speed * fr else 0)"

definition stepAxis :: "real \<Rightarrow> real \<Rightarrow> real \<Rightarrow> real \<times> real \<Rightarrow> real \<times> real" where
  "stepAxis w r rest s =
     (let s1 = (if fst s - r \<le> 20 then (20 + r, - snd s * rest) else s)
      in if w - 20 \<le> fst s1 + r then (w - 20 - r, - snd s1 * rest) else s1)"

definition simAxis :: "real \<Rightarrow> real \<Rightarrow> real \<times> real \<Rightarrow> real \<times> real" where
  "simAxis w r s =
     (if fst s - r \<le> 20 \<or> w - 20 \<le> fst s + r
      then (if fst s - r \<le> 20 then 20 + r else w - 20 - r, - snd s * (8 / 10))
      else s)"

subsection \<open>The planner on finite numbers\<close>

text \<open>
  What \<open>distance\<close>, \<open>angle\<close>, \<open>normalizeAngle\<close> and the loop of \<open>getStrikerStartArea\<close>
  compute when their arguments are finite, as functions on the reals.
\<close>

definition toNum :: "real vec \<Rightarrow> num vec" where
  "toNum p = \<lparr>px = Num (px p), py = Num (py p)\<rparr>"

definition distanceR :: "real vec \<Rightarrow> real vec \<Rightarrow> real" where
  "distanceR p1 p2 =
     sqrt ((px p2 - px p1) * (px p2 - px p1) + (py p2 - py p1) * (py p2 - py p1))"

definition angleR :: "real vec \<Rightarrow> real vec \<Rightarrow> real" where
  "angleR from to = atan2 (py to - py from) (px to - px from)"

function normalizeUpR :: "real \<Rightarrow> real" where
  "normalizeUpR a = (if a < 0 then normalizeUpR (a + 2 * pi) else a)"
  by pat_completeness auto
termination
proof (relation "measure (\<lambda>a. nat \<lceil>- a / (2 * pi)\<rceil>)")
  show "wf (measure (\<lambda>a. nat \<lceil>- a / (2 * pi)\<rceil>))" by simp
next
  fix a :: real
  assume neg: "a < 0"
  define x where "x = - a / (2 * pi)"
  have e: "- (a + 2 * pi) / (2 * pi) = x - 1"
    unfolding x_def by (simp add: field_simps)
  have "0 < x"
    unfolding x_def using neg by (intro divide_pos_pos) simp_all
  then have "0 < \<lceil>x\<rceil>" by (simp only: zero_less_ceiling)
  then have "nat \<lceil>x - 1\<rceil> < nat \<lceil>x\<rceil>" by (simp only: ceiling_diff_one)
  then show "(a + 2 * pi, a) \<in> measure (\<lambda>a. nat \<lceil>- a / (2 * pi)\<rceil>)"
    unfolding in_measure e x_def [symmetric] .
qed

function normalizeDownR :: "real \<Rightarrow> real" where
  "normalizeDownR a = (if 2 * pi \<le> a then normalizeDownR (a - 2 * pi) else a)"
  by pat_completeness auto
termination
proof (relation "measure (\<lambda>a. nat \<lfloor>a / (2 * pi)\<rfloor>)")
  show "wf (measure (\<lambda>a. nat \<lfloor>a / (2 * pi)\<rfloor>))" by simp
next
  fix a :: real
  assume big: "2 * pi \<le> a"
  define x where "x = a / (2 * pi)"
  have e: "(a - 2 * pi) / (2 * pi) = x - 1"
    unfolding x_def by (simp add: field_simps)
  have "1 \<le> x"
    unfolding x_def using big by (simp add: field_simps)
  then have "1 \<le> \<lfloor>x\<rfloor>" by simp
  then have "nat \<lfloor>x - 1\<rfloor> < nat \<lfloor>x\<rfloor>" by (simp only: floor_diff_one)
  then show "(a - 2 * pi, a) \<in> measure (\<lambda>a. nat \<lfloor>a / (2 * pi)\<rfloor>)"
    unfolding in_measure e x_def [symmetric] .
qed

declare normalizeUpR.simps [simp del] normalizeDownR.simps [simp del]

definition normalizeAngleR :: "real \<Rightarrow> real" where
  "normalizeAngleR a = normalizeDownR (normalizeUpR a)"

function strikerXsR :: "real \<Rightarrow> real \<Rightarrow> real list" where
  "strikerXsR x hi = (if x \<le> hi then x # strikerXsR (x + 10) hi else [])"
  by pat_completeness auto
termination
proof (relation "measure (\<lambda>(x, hi). nat \<lceil>(hi - x) / 10 + 1\<rceil>)")
  show "wf (measure (\<lambda>(x, hi). nat \<lceil>(hi - x) / 10 + 1\<rceil>))" by simp
next
  fix x hi :: real
  assume le: "x \<le> hi"
  define z where "z = (hi - x) / 10 + 1"
  have e: "(hi - (x + 10)) / 10 + 1 = z - 1"
    unfolding z_def by (simp add: field_simps)
  have "0 < z"
    unfolding z_def using le by (simp add: add_nonneg_pos)
  then have "0 < \<lceil>z\<rceil>" by (simp only: zero_less_ceiling)
  then have "nat \<lceil>z - 1\<rceil> < nat \<lceil>z\<rceil>" by (simp only: ceiling_diff_one)
  then show "((x + 10, hi), (x, hi)) \<in> measure (\<lambda>(x, hi). nat \<lceil>(hi - x) / 10 + 1\<rceil>)"
    unfolding in_measure prod.case e z_def [symmetric] .
qed

declare strikerXsR.simps [simp del]

text \<open>A number that is finite or \<open>NaN\<close>, and a point with two such coordinates.\<close>

fun notInfinite :: "num \<Rightarrow> bool" where
  "notInfinite PInf = False"
| "notInfinite NInf = False"
| "notInfinite _ = True"

definition notInfiniteVec :: "num vec \<Rightarrow> bool" where
  "notInfiniteVec v = (notInfinite (px v) \<and> notInfinite (py v))"

text \<open>
  A planner whose board, pockets and accuracy are finite, and a snapshot whose coins are at
  finite positions.
\<close>

definition finitePlanner :: "CarromAI \<Rightarrow> bool" where
  "finitePlanner ai =
     (isFinite (aiBoardWidth ai) \<and> isFinite (aiBoardHeight ai) \<and>
      isFinite (accuracyMultiplier ai) \<and>
      list_all (\<lambda>p. finiteVec (pocketPosition p)) (aiPockets ai))"

definition finiteCoins :: "GameState \<Rightarrow> bool" where
  "finiteCoins gs =
     list_all (\<lambda>c. finiteVec (position c)) (playerCoins gs @ opponentCoins gs)"

text \<open>
  The range of the success probability of a candidate, by its kind: a direct candidate
  carries the clamped probability, a bank candidate \<open>0.8\<close> times it and a carom candidate
  \<open>0.6\<close> times it.
\<close>

definition probabilityInRange :: "ShotOption \<Rightarrow> bool" where
  "probabilityInRange s =
     (case successProbability s of
        Num r \<Rightarrow>
          (case shotType s of
             Direct \<Rightarrow> 0.05 \<le> r \<and> r \<le> 0.95
           | Bank \<Rightarrow> 0.04 \<le> r \<and> r \<le> 0.76
           | Carom \<Rightarrow> 0.03 \<le> r \<and> r \<le> 0.57
           | Combination \<Rightarrow> False)
      | _ \<Rightarrow> False)"

text \<open>
  Two directions \<open>u\<close> and \<open>v\<close> at which the tolerance test of a direct shot fails: the angle
  between \<open>u\<close> and \<open>- v\<close> is more than 30 degrees, stated on the coordinates.
\<close>

definition farApart :: "real vec \<Rightarrow> real vec \<Rightarrow> bool" where
  "farApart u v =
     (let uu = px u * px u + py u * py u;
          vv = px v * px v + py v * py v;
          uv = px u * px v + py u * py v
      in 0 < uu * vv \<and> (0 \<le> uv \<or> 4 * (uv * uv) < 3 * (uu * vv)))"

text \<open>
  The tolerance test of a direct or carom shot on the two angles that it compares, with the
  tolerance \<open>tol\<close>.
\<close>

definition clearsTolerance :: "num \<Rightarrow> num \<Rightarrow> num \<Rightarrow> bool" where
  "clearsTolerance tol a b =
     (case normalizeAngle a of
        None \<Rightarrow> False
      | Some n1 \<Rightarrow>
          (case normalizeAngle b of
             None \<Rightarrow> False
           | Some n2 \<Rightarrow>
               nle (nabs (nsub n1 n2)) tol \<or> nle (nsub (Num (2 * pi)) (nabs (nsub n1 n2))) tol))"



section \<open>Scenarios\<close>

text \<open>
  Two discs of radius 10 at rest, at \<open>(100, 100)\<close> and \<open>(115, 100)\<close>, on the board of
  800 by 600 that the application creates; mass, friction and restitution are those of the
  application's coins.
\<close>

definition discA :: body where
  "discA = \<lparr>bid = ''A'', position = \<lparr>px = Num 100, py = Num 100\<rparr>,
            velocity = \<lparr>px = Num 0, py = Num 0\<rparr>, radius = Num 10, mass = Num 1,
            friction = Num 0.02, restitution = Num 0.8, isStatic = False\<rparr>"

definition discB :: body where
  "discB = \<lparr>bid = ''B'', position = \<lparr>px = Num 115, py = Num 100\<rparr>,
            velocity = \<lparr>px = Num 0, py = Num 0\<rparr>, radius = Num 10, mass = Num 1,
            friction = Num 0.02, restitution = Num 0.8, isStatic = False\<rparr>"

definition overlapScenario :: PhysicsEngine where
  "overlapScenario = addBody (addBody (newPhysicsEngine (Num 800) (Num 600)) discA) discB"

text \<open>A second disc at the very place of \<open>discA\<close>.\<close>

definition discC :: body where
  "discC = discA\<lparr>bid := ''C''\<rparr>"

definition coincidentScenario :: PhysicsEngine where
  "coincidentScenario = addBody (addBody (newPhysicsEngine (Num 800) (Num 600)) discA) discC"

text \<open>\<open>discA\<close> in motion, a static body with a velocity, and a body no caller should register.\<close>

definition movingA :: body where
  "movingA = discA\<lparr>velocity := \<lparr>px = Num 30, py = Num (- 40)\<rparr>\<rparr>"

definition staticS :: body where
  "staticS = \<lparr>bid = ''S'', position = \<lparr>px = Num 400, py = Num 300\<rparr>,
              velocity = \<lparr>px = Num 3, py = Num 4\<rparr>, radius = Num 10, mass = Num 1,
              friction = Num 0.02, restitution = Num 0.8, isStatic = True\<rparr>"

definition malformedA :: body where
  "malformedA = \<lparr>bid = ''A'', position = \<lparr>px = Num 300, py = Num 300\<rparr>,
                 velocity = \<lparr>px = Num 0, py = Num 0\<rparr>, radius = Num (- 5), mass = Num 0,
                 friction = Num 0.02, restitution = Num 0.8, isStatic = False\<rparr>"

definition malformedUpdate :: BodyUpdates where
  "malformedUpdate =
     \<lparr>u_id = None, u_position = None, u_velocity = None, u_radius = Some (Num 0),
      u_mass = Some (Num (- 1)), u_friction = None, u_restitution = None, u_isStatic = None\<rparr>"

text \<open>The collisions that \<open>step\<close> reports in the two scenarios.\<close>

definition overlapCollision :: CollisionResult where
  "overlapCollision =
     \<lparr>bodyA = 0, bodyB = Suc 0, normal = \<lparr>px = Num 1, py = Num 0\<rparr>, penetration = Num 5,
      point = \<lparr>px = Num 110, py = Num 100\<rparr>\<rparr>"

definition coincidentCollision :: CollisionResult where
  "coincidentCollision =
     \<lparr>bodyA = 0, bodyB = Suc 0, normal = \<lparr>px = NaN, py = NaN\<rparr>, penetration = Num 20,
      point = \<lparr>px = NaN, py = NaN\<rparr>\<rparr>"

text \<open>
  A disc at rest that reaches over the left wall line, and the two discs of the first
  scenario moved to the left wall: \<open>discE\<close> touches the wall line and overlaps \<open>discF\<close>.
\<close>

definition discD :: body where
  "discD = discA\<lparr>bid := ''D'', position := \<lparr>px = Num 25, py = Num 100\<rparr>\<rparr>"

definition discE :: body where
  "discE = discA\<lparr>bid := ''E'', position := \<lparr>px = Num 30, py = Num 100\<rparr>\<rparr>"

definition discF :: body where
  "discF = discA\<lparr>bid := ''F'', position := \<lparr>px = Num 45, py = Num 100\<rparr>\<rparr>"

definition threeScenario :: PhysicsEngine where
  "threeScenario =
     addBody (addBody (addBody (newPhysicsEngine (Num 800) (Num 600)) discD) discA) discB"

definition wallScenario :: PhysicsEngine where
  "wallScenario = addBody (addBody (newPhysicsEngine (Num 800) (Num 600)) discE) discF"

text \<open>
  A board of 800 by 600 with one body; a body with the striker's radius, mass, friction and
  restitution, and one with a coin's, both moving to the right at the centre of the board.
\<close>

definition strikerBody :: body where
  "strikerBody = \<lparr>bid = ''striker'', position = \<lparr>px = Num 400, py = Num 300\<rparr>,
                  velocity = \<lparr>px = Num 100, py = Num 0\<rparr>, radius = Num 12, mass = Num 2,
                  friction = Num 0.025, restitution = Num 0.9, isStatic = False\<rparr>"

definition coinBody :: body where
  "coinBody = \<lparr>bid = ''coin'', position = \<lparr>px = Num 400, py = Num 300\<rparr>,
                velocity = \<lparr>px = Num 100, py = Num 0\<rparr>, radius = Num 8, mass = Num 1,
                friction = Num 0.02, restitution = Num 0.8, isStatic = False\<rparr>"

definition single :: "body \<Rightarrow> PhysicsEngine" where
  "single b = addBody (newPhysicsEngine (Num 800) (Num 600)) b"

text \<open>Two segments that cross at \<open>(1, 1)\<close>.\<close>

definition diagonalUp :: "real line" where
  "diagonalUp = \<lparr>lstart = \<lparr>px = 0, py = 0\<rparr>, lend = \<lparr>px = 2, py = 2\<rparr>\<rparr>"

definition diagonalDown :: "real line" where
  "diagonalDown = \<lparr>lstart = \<lparr>px = 0, py = 2\<rparr>, lend = \<lparr>px = 2, py = 0\<rparr>\<rparr>"

text \<open>
  A snapshot in the endgame: one coin of the player's is left, at \<open>(400, 200)\<close>, and the
  striker is at its base; both are registered in the engine of the planner.
\<close>

definition farCoin :: body where
  "farCoin = \<lparr>bid = ''white-0'', position = \<lparr>px = Num 400, py = Num 200\<rparr>,
              velocity = \<lparr>px = Num 0, py = Num 0\<rparr>, radius = Num 8, mass = Num 1,
              friction = Num 0.02, restitution = Num 0.8, isStatic = False\<rparr>"

definition strikerAtBase :: body where
  "strikerAtBase = \<lparr>bid = ''striker'', position = \<lparr>px = Num 400, py = Num 560\<rparr>,
                    velocity = \<lparr>px = Num 0, py = Num 0\<rparr>, radius = Num 12, mass = Num 2,
                    friction = Num 0.025, restitution = Num 0.9, isStatic = False\<rparr>"

definition endgamePlanner :: CarromAI where
  "endgamePlanner =
     newCarromAI
       (addBody (addBody (newPhysicsEngine (Num 800) (Num 600)) farCoin) strikerAtBase)
       (Num 800) (Num 600) Moderate"

definition endgameSnapshot :: GameState where
  "endgameSnapshot =
     \<lparr>playerCoins = [farCoin], opponentCoins = [], striker = strikerAtBase, queen = None,
      pockets = aiPockets endgamePlanner, currentPlayer = PlayerSide, gamePhase = Endgame\<rparr>"

text \<open>The start positions of the striker on the board of 800 by 600.\<close>

definition endgameArea :: "real vec list" where
  "endgameArea =
     map (\<lambda>x. \<lparr>px = x, py = 560\<rparr>)
       [340, 350, 360, 370, 380, 390, 400, 410, 420, 430, 440, 450, 460]"

text \<open>
  The two coincident discs as \<open>step\<close> leaves them, at no place, in a snapshot for the planner
  of that engine: one is the player's, the other the opponent's.
\<close>

definition lostCoin :: body where
  "lostCoin = discA\<lparr>position := \<lparr>px = NaN, py = NaN\<rparr>, velocity := \<lparr>px = NaN, py = NaN\<rparr>\<rparr>"

definition lostPlanner :: CarromAI where
  "lostPlanner =
     newCarromAI (fst (step coincidentScenario (Num (1 / 60)))) (Num 800) (Num 600) Moderate"

definition lostSnapshot :: GameState where
  "lostSnapshot =
     \<lparr>playerCoins = [lostCoin],
      opponentCoins = [discC\<lparr>position := \<lparr>px = NaN, py = NaN\<rparr>, velocity := \<lparr>px = NaN, py = NaN\<rparr>\<rparr>],
      striker = strikerAtBase, queen = None, pockets = aiPockets lostPlanner,
      currentPlayer = PlayerSide, gamePhase = Playing\<rparr>"
section \<open>Properties of the physics engine\<close>

subsection \<open>Numbers\<close>

lemma isFinite_iff: "isFinite a \<longleftrightarrow> (\<exists>r. a = Num r)"
  by (cases a) auto

lemma finiteVec_iff: "finiteVec v \<longleftrightarrow> (\<exists>a b. v = \<lparr>px = Num a, py = Num b\<rparr>)"
  by (cases v) (auto simp add: finiteVec_def isFinite_iff)

lemma nmin_Num [simp]: "nmin (Num a) (Num b) = Num (min a b)"
  by (simp add: min_def)

subsection \<open>The registry\<close>

lemma bodies_overlapScenario: "bodies overlapScenario = [(''A'', discA), (''B'', discB)]"
  by (simp add: overlapScenario_def addBody_def newPhysicsEngine_def discA_def discB_def)

lemma bodies_coincidentScenario: "bodies coincidentScenario = [(''A'', discA), (''C'', discC)]"
  by (simp add: coincidentScenario_def addBody_def newPhysicsEngine_def discA_def discC_def)

lemma getBody_addBody: "getBody (addBody e b) k = (if k = bid b then Some b else getBody e k)"
  by (simp add: getBody_def addBody_def update_conv')

lemma keys_addBody:
  "map fst (bodies (addBody e b)) =
     (if bid b \<in> fst ` set (bodies e) then map fst (bodies e) else map fst (bodies e) @ [bid b])"
  by (simp add: addBody_def update_keys)

lemma getBody_updateBody:
  "getBody (updateBody e k u) k' =
     (case getBody e k of
        None \<Rightarrow> getBody e k'
      | Some b \<Rightarrow> if k' = k then Some (assign b u) else getBody e k')"
  by (simp add: getBody_def updateBody_def update_conv' split: option.splits)

lemma keys_updateBody: "map fst (bodies (updateBody e k u)) = map fst (bodies e)"
  by (auto simp add: updateBody_def update_keys map_of_eq_None_iff split: option.splits)

text \<open>
  C5.  The claim: \<open>addBody\<close> with an id already registered, and \<open>addBody\<close> or \<open>updateBody\<close>
  with a non-positive radius or mass, signal an error and leave the registry unchanged.
  The engine has no such check.  \<open>addBody\<close> over a registered id replaces the body, and a
  radius of \<open>-5\<close>, a mass of \<open>0\<close> or \<open>-1\<close> are stored as they come.
\<close>

theorem malformed_input_accepted:
  "getBody overlapScenario ''A'' = Some discA \<and>
   getBody (addBody overlapScenario malformedA) ''A'' = Some malformedA \<and>
   bodies (addBody overlapScenario malformedA) \<noteq> bodies overlapScenario \<and>
   radius malformedA = Num (- 5) \<and> mass malformedA = Num 0 \<and>
   getBody (updateBody overlapScenario ''B'' malformedUpdate) ''B'' =
     Some (discB\<lparr>radius := Num 0, mass := Num (- 1)\<rparr>) \<and>
   bodies (updateBody overlapScenario ''B'' malformedUpdate) \<noteq> bodies overlapScenario"
  by (simp add: getBody_def addBody_def updateBody_def bodies_overlapScenario malformedA_def
      malformedUpdate_def assign_def discA_def discB_def)

text \<open>
  C5, as the code has it.  No mutating call validates its input or signals an error.
  \<open>addBody\<close> stores the body under its id, whatever its radius and mass: over a registered id
  it replaces the body and keeps the registry's order, otherwise it appends the id.
  \<open>updateBody\<close> on a registered key overwrites the given fields, unchecked, and keeps the
  keys; on a key that is not registered it changes nothing.
\<close>

theorem mutators_unchecked:
  "getBody (addBody e b) k = (if k = bid b then Some b else getBody e k) \<and>
   map fst (bodies (addBody e b)) =
     (if bid b \<in> fst ` set (bodies e) then map fst (bodies e) else map fst (bodies e) @ [bid b]) \<and>
   getBody (updateBody e k u) k' =
     (case getBody e k of
        None \<Rightarrow> getBody e k'
      | Some b0 \<Rightarrow> if k' = k then Some (assign b0 u) else getBody e k') \<and>
   map fst (bodies (updateBody e k u)) = map fst (bodies e)"
  by (simp only: getBody_addBody keys_addBody getBody_updateBody keys_updateBody simp_thms)

theorem mutators_unchecked_witness:
  "getBody (addBody overlapScenario malformedA) ''A'' = Some malformedA \<and>
   map fst (bodies (addBody overlapScenario malformedA)) = [''A'', ''B''] \<and>
   getBody (updateBody overlapScenario ''B'' malformedUpdate) ''B'' =
     Some (assign discB malformedUpdate) \<and>
   map fst (bodies (updateBody overlapScenario ''B'' malformedUpdate)) = [''A'', ''B'']"
  using mutators_unchecked [of overlapScenario malformedA "''A''" malformedUpdate "''A''"]
    mutators_unchecked [of overlapScenario malformedA "''B''" malformedUpdate "''B''"]
  by (simp add: bodies_overlapScenario malformedA_def getBody_def discB_def)

subsection \<open>Stopping\<close>

lemma stopBody_eq: "stopBody b = b\<lparr>velocity := \<lparr>px = Num 0, py = Num 0\<rparr>\<rparr>"
  by (simp add: stopBody_def)

lemma speedOf_stopBody: "speedOf (stopBody b) = Num 0"
  by (simp add: speedOf_def stopBody_def)

lemma hasMovingBodies_stopAllBodies: "\<not> hasMovingBodies (stopAllBodies e)"
  by (simp add: hasMovingBodies_def stopAllBodies_def list_ex_iff speedOf_stopBody ngt_def
      split_beta)

text \<open>
  C10.  \<open>stopAllBodies\<close> sets the velocity of every registered body, static or not, to
  \<open>(0, 0)\<close>.  The keys and their order, every other field of every body and the board are
  unchanged, and \<open>hasMovingBodies\<close> is false afterwards.
\<close>

theorem stopAllBodies_frame:
  "map fst (bodies (stopAllBodies e)) = map fst (bodies e) \<and>
   map snd (bodies (stopAllBodies e)) =
     map (\<lambda>b. b\<lparr>velocity := \<lparr>px = Num 0, py = Num 0\<rparr>\<rparr>) (map snd (bodies e)) \<and>
   boardWidth (stopAllBodies e) = boardWidth e \<and>
   boardHeight (stopAllBodies e) = boardHeight e \<and>
   \<not> hasMovingBodies (stopAllBodies e)"
  by (simp add: hasMovingBodies_stopAllBodies)
     (simp add: stopAllBodies_def split_beta stopBody_eq comp_def)

theorem stopAllBodies_frame_witness:
  "hasMovingBodies (addBody (addBody overlapScenario movingA) staticS) \<and>
   bodies (stopAllBodies (addBody (addBody overlapScenario movingA) staticS)) =
     [(''A'', discA), (''B'', discB),
      (''S'', staticS\<lparr>velocity := \<lparr>px = Num 0, py = Num 0\<rparr>\<rparr>)] \<and>
   \<not> hasMovingBodies (stopAllBodies (addBody (addBody overlapScenario movingA) staticS))"
proof -
  let ?e = "addBody (addBody overlapScenario movingA) staticS"
  have b: "bodies ?e = [(''A'', movingA), (''B'', discB), (''S'', staticS)]"
    by (simp add: addBody_def bodies_overlapScenario movingA_def staticS_def discA_def discB_def)
  have m: "hasMovingBodies ?e"
    unfolding hasMovingBodies_def b by (simp add: movingA_def speedOf_def ngt_def discA_def)
  have s: "bodies (stopAllBodies ?e) =
      [(''A'', discA), (''B'', discB), (''S'', staticS\<lparr>velocity := \<lparr>px = Num 0, py = Num 0\<rparr>\<rparr>)]"
    unfolding stopAllBodies_def b by (simp add: stopBody_def movingA_def discA_def discB_def)
  from stopAllBodies_frame [of ?e] m s show ?thesis by simp
qed


subsection \<open>The two scenarios, step by step\<close>

lemma integrate_discA: "integrateBody (Num dt) discA = discA"
  by (simp add: integrateBody_def discA_def gravity_def airResistance_def ngt_def nsub_def Let_def)

lemma integrate_discB: "integrateBody (Num dt) discB = discB"
  by (simp add: integrateBody_def discB_def gravity_def airResistance_def ngt_def nsub_def Let_def)

lemma integrate_discC: "integrateBody (Num dt) discC = discC"
  by (simp add: integrateBody_def discC_def discA_def gravity_def airResistance_def ngt_def nsub_def Let_def)

lemma wallPhase_discA: "wallPhase (Num 800) (Num 600) discA = discA"
  by (simp add: wallPhase_def handleWallCollisions_def leftWall_def rightWall_def topWall_def
      bottomWall_def discA_def margin_def nge_def nsub_def)

lemma wallPhase_discB: "wallPhase (Num 800) (Num 600) discB = discB"
  by (simp add: wallPhase_def handleWallCollisions_def leftWall_def rightWall_def topWall_def
      bottomWall_def discB_def margin_def nge_def nsub_def)

lemma wallPhase_discC: "wallPhase (Num 800) (Num 600) discC = discC"
  by (simp add: wallPhase_def handleWallCollisions_def leftWall_def rightWall_def topWall_def
      bottomWall_def discC_def discA_def margin_def nge_def nsub_def)

lemma check_overlap: "checkCollision [discA, discB] 0 (Suc 0) = Some overlapCollision"
  by (simp add: checkCollision_def distance_def discA_def discB_def nsub_def Let_def
      overlapCollision_def)

lemma check_coincident: "checkCollision [discA, discC] 0 (Suc 0) = Some coincidentCollision"
  by (simp add: checkCollision_def distance_def discA_def discC_def nsub_def Let_def
      coincidentCollision_def)

lemma resolve_overlap:
  "resolveCollision [discA, discB] overlapCollision =
     [discA\<lparr>position := \<lparr>px = Num 98.75, py = Num 100\<rparr>\<rparr>,
      discB\<lparr>position := \<lparr>px = Num 116.25, py = Num 100\<rparr>\<rparr>]"
  by (simp add: resolveCollision_def separate_def applyImpulse_def discA_def discB_def nsub_def
      ngt_def Let_def overlapCollision_def)

lemma resolve_coincident:
  "resolveCollision [discA, discC] coincidentCollision =
     [discA\<lparr>position := \<lparr>px = NaN, py = NaN\<rparr>, velocity := \<lparr>px = NaN, py = NaN\<rparr>\<rparr>,
      discC\<lparr>position := \<lparr>px = NaN, py = NaN\<rparr>, velocity := \<lparr>px = NaN, py = NaN\<rparr>\<rparr>]"
  by (simp add: resolveCollision_def separate_def applyImpulse_def discA_def discC_def nsub_def
      ngt_def Let_def coincidentCollision_def)

lemma step_overlapScenario:
  "step overlapScenario (Num dt) =
     (overlapScenario
        \<lparr>bodies := [(''A'', discA\<lparr>position := \<lparr>px = Num 98.75, py = Num 100\<rparr>\<rparr>),
                    (''B'', discB\<lparr>position := \<lparr>px = Num 116.25, py = Num 100\<rparr>\<rparr>)]\<rparr>,
      [overlapCollision])"
  unfolding step_def bodies_overlapScenario
  by (simp add: integrate_discA integrate_discB wallPhase_discA wallPhase_discB collidePairs_def
      check_overlap resolve_overlap overlapScenario_def addBody_def newPhysicsEngine_def Let_def)

lemma step_coincidentScenario:
  "step coincidentScenario (Num dt) =
     (coincidentScenario
        \<lparr>bodies := [(''A'', discA\<lparr>position := \<lparr>px = NaN, py = NaN\<rparr>, velocity := \<lparr>px = NaN, py = NaN\<rparr>\<rparr>),
                    (''C'', discC\<lparr>position := \<lparr>px = NaN, py = NaN\<rparr>, velocity := \<lparr>px = NaN, py = NaN\<rparr>\<rparr>)]\<rparr>,
      [coincidentCollision])"
  unfolding step_def bodies_coincidentScenario
  by (simp add: integrate_discA integrate_discC wallPhase_discA wallPhase_discC collidePairs_def
      check_coincident resolve_coincident coincidentScenario_def addBody_def newPhysicsEngine_def Let_def)

text \<open>
  C1.  The claim: after one \<open>step\<close> the discs at \<open>(100, 100)\<close> and \<open>(115, 100)\<close>, of radius 10
  and at rest, no longer overlap.  \<open>resolveCollision\<close> moves each body by its mass share of
  half the penetration, so one step closes half of the overlap: the centres end
  \<open>17.5\<close> apart, less than the \<open>20\<close> of the two radii.
\<close>

theorem overlap_remains_after_step:
  "getBody (fst (step overlapScenario (Num (1 / 60)))) ''A'' =
     Some (discA\<lparr>position := \<lparr>px = Num 98.75, py = Num 100\<rparr>\<rparr>) \<and>
   getBody (fst (step overlapScenario (Num (1 / 60)))) ''B'' =
     Some (discB\<lparr>position := \<lparr>px = Num 116.25, py = Num 100\<rparr>\<rparr>) \<and>
   distance \<lparr>px = Num 98.75, py = Num 100\<rparr> \<lparr>px = Num 116.25, py = Num 100\<rparr> = Num 17.5 \<and>
   nadd (radius discA) (radius discB) = Num 20 \<and>
   nlt (Num 17.5) (Num 20)"
proof -
  have "sqrt (1225 / 4) = 35 / 2"
    by (rule real_sqrt_unique) (simp_all add: power2_eq_square)
  then show ?thesis
    by (simp add: step_overlapScenario getBody_def distance_def nsub_def discA_def discB_def)
qed

text \<open>
  C6.  The claim: every collision that \<open>step\<close> returns has a unit normal, also when the two
  centres coincide.  There the distance is \<open>0\<close>, \<open>checkCollision\<close> divides \<open>0\<close> by it, and the
  normal of the collision returned is \<open>(NaN, NaN)\<close>.
\<close>

theorem coincident_centres_normal_is_NaN:
  "snd (step coincidentScenario (Num (1 / 60))) = [coincidentCollision] \<and>
   normal coincidentCollision = \<lparr>px = NaN, py = NaN\<rparr> \<and>
   nadd (nmul (px (normal coincidentCollision)) (px (normal coincidentCollision)))
        (nmul (py (normal coincidentCollision)) (py (normal coincidentCollision))) \<noteq> Num 1"
  by (simp add: step_coincidentScenario coincidentCollision_def)

subsection \<open>Collisions of bodies at different places\<close>

text \<open>
  When the centres of two finite bodies differ, the normal of their collision is a unit
  vector and the penetration is positive.
\<close>

lemma checkCollision_unit_normal:
  assumes "position (bs ! i) = \<lparr>px = Num ax, py = Num ay\<rparr>"
    and "position (bs ! j) = \<lparr>px = Num bx, py = Num bv\<rparr>"
    and "radius (bs ! i) = Num ra" "radius (bs ! j) = Num rb"
    and "(ax, ay) \<noteq> (bx, bv)"
    and "checkCollision bs i j = Some c"
  shows "\<exists>nx ny p. normal c = \<lparr>px = Num nx, py = Num ny\<rparr> \<and> nx * nx + ny * ny = 1 \<and>
           penetration c = Num p \<and> 0 < p"
proof -
  define dx where "dx = bx - ax"
  define dy where "dy = bv - ay"
  define d where "d = sqrt (dx * dx + dy * dy)"
  have "dx \<noteq> 0 \<or> dy \<noteq> 0" using assms(5) by (auto simp add: dx_def dy_def)
  then have "0 < dx * dx + dy * dy"
    by (simp only: sum_squares_gt_zero_iff)
  then have dpos: "0 < d" unfolding d_def by simp
  have dd: "d * d = dx * dx + dy * dy"
    unfolding d_def by simp
  have dist: "distance \<lparr>px = Num ax, py = Num ay\<rparr> \<lparr>px = Num bx, py = Num bv\<rparr> = Num d"
    by (simp add: distance_def nsub_def Let_def d_def dx_def dy_def not_less)
  have sub: "nsub (Num bx) (Num ax) = Num dx" "nsub (Num bv) (Num ay) = Num dy"
    by (simp_all add: nsub_def dx_def dy_def)
  have quot: "ndiv (Num dx) (Num d) = Num (dx / d)" "ndiv (Num dy) (Num d) = Num (dy / d)"
    using dpos by simp_all
  have chk: "checkCollision bs i j =
      (if d < ra + rb
       then Some \<lparr>bodyA = i, bodyB = j, normal = \<lparr>px = Num (dx / d), py = Num (dy / d)\<rparr>,
                  penetration = Num (ra + rb - d),
                  point = \<lparr>px = Num (ax + dx / d * ra), py = Num (ay + dy / d * ra)\<rparr>\<rparr>
       else None)"
    unfolding checkCollision_def Let_def assms(1-4) vec.select_convs sub dist quot
    by (simp add: nsub_def)
  from assms(6) have lt: "d < ra + rb"
    unfolding chk by (simp split: if_splits)
  with assms(6) have c: "normal c = \<lparr>px = Num (dx / d), py = Num (dy / d)\<rparr>"
    "penetration c = Num (ra + rb - d)"
    unfolding chk by auto
  have "dx / d * (dx / d) + dy / d * (dy / d) = (dx * dx + dy * dy) / (d * d)"
    by (simp add: add_divide_distrib)
  also have "\<dots> = 1" unfolding dd [symmetric] using dpos by simp
  finally show ?thesis using lt by (simp add: c)
qed

text \<open>
  Whatever the two positive masses, the separation widens the offset between the centres
  by half of the penetration along the normal.
\<close>

lemma separate_half_penetration:
  assumes "bodyA c < length bs" "bodyB c < length bs" "bodyA c \<noteq> bodyB c"
    and "\<not> isStatic (bs ! bodyA c)" "\<not> isStatic (bs ! bodyB c)"
    and "position (bs ! bodyA c) = \<lparr>px = Num ax, py = Num ay\<rparr>"
    and "position (bs ! bodyB c) = \<lparr>px = Num bx, py = Num bv\<rparr>"
    and "mass (bs ! bodyA c) = Num ma" "0 < ma" "mass (bs ! bodyB c) = Num mb" "0 < mb"
    and "normal c = \<lparr>px = Num nx, py = Num ny\<rparr>" "penetration c = Num p"
  shows "\<exists>ax' ay' bx' bv'.
           position (separate bs c ! bodyA c) = \<lparr>px = Num ax', py = Num ay'\<rparr> \<and>
           position (separate bs c ! bodyB c) = \<lparr>px = Num bx', py = Num bv'\<rparr> \<and>
           bx' - ax' = bx - ax + nx * (p / 2) \<and> bv' - ay' = bv - ay + ny * (p / 2)"
proof -
  have nz: "ma + mb \<noteq> 0" using assms(9,11) by simp
  have share: "mb / (ma + mb) + ma / (ma + mb) = 1"
    using nz by (simp add: add_divide_distrib [symmetric])
  define sa where "sa = mb / (ma + mb) * p * (1 / 2)"
  define sb where "sb = ma / (ma + mb) * p * (1 / 2)"
  have "sa + sb = (mb / (ma + mb) + ma / (ma + mb)) * p * (1 / 2)"
    unfolding sa_def sb_def by (simp only: distrib_right)
  then have sum: "sa + sb = p / 2"
    unfolding share by simp
  have a: "position (separate bs c ! bodyA c) = \<lparr>px = Num (ax - nx * sa), py = Num (ay - ny * sa)\<rparr>"
    and b: "position (separate bs c ! bodyB c) = \<lparr>px = Num (bx + nx * sb), py = Num (bv + ny * sb)\<rparr>"
    using assms(1-8,10,12,13) nz by (simp_all add: separate_def Let_def nsub_def sa_def sb_def)
  have "bx + nx * sb - (ax - nx * sa) = bx - ax + nx * (sa + sb)"
    "bv + ny * sb - (ay - ny * sa) = bv - ay + ny * (sa + sb)"
    by (simp_all add: algebra_simps)
  then show ?thesis unfolding sum using a b by blast
qed

subsection \<open>Momentum\<close>

lemma separate_momentum:
  "momentum (separate bs c ! bodyA c) (separate bs c ! bodyB c) = momentum (bs ! bodyA c) (bs ! bodyB c)" 
  if "bodyA c < length bs" "bodyB c < length bs" "bodyA c \<noteq> bodyB c"
  using that by (simp add: separate_def momentum_def Let_def)

lemma separate_fields:
  assumes "bodyA c < length bs" "bodyB c < length bs" "bodyA c \<noteq> bodyB c"
  shows "velocity (separate bs c ! bodyA c) = velocity (bs ! bodyA c)"
    "velocity (separate bs c ! bodyB c) = velocity (bs ! bodyB c)"
    "mass (separate bs c ! bodyA c) = mass (bs ! bodyA c)"
    "mass (separate bs c ! bodyB c) = mass (bs ! bodyB c)"
    "restitution (separate bs c ! bodyA c) = restitution (bs ! bodyA c)"
    "restitution (separate bs c ! bodyB c) = restitution (bs ! bodyB c)"
    "isStatic (separate bs c ! bodyA c) = isStatic (bs ! bodyA c)"
    "isStatic (separate bs c ! bodyB c) = isStatic (bs ! bodyB c)"
    "length (separate bs c) = length bs"
  using assms by (simp_all add: separate_def Let_def)

lemma impulse_algebra:
  fixes ma mb :: real
  assumes "ma \<noteq> 0" "mb \<noteq> 0"
  shows "ma * (va - X / (D * ma)) + mb * (vb + X / (D * mb)) = ma * va + mb * vb"
  using assms by (cases "D = 0") (simp_all add: field_simps)

lemma applyImpulse_momentum:
  assumes "bodyA c < length bs" "bodyB c < length bs" "bodyA c \<noteq> bodyB c"
    and "velocity (bs ! bodyA c) = \<lparr>px = Num ax, py = Num ay\<rparr>"
    and "velocity (bs ! bodyB c) = \<lparr>px = Num bx, py = Num bv\<rparr>"
    and "mass (bs ! bodyA c) = Num ma" "0 < ma" "mass (bs ! bodyB c) = Num mb" "0 < mb"
    and "restitution (bs ! bodyA c) = Num ra" "restitution (bs ! bodyB c) = Num rb"
    and "normal c = \<lparr>px = Num nx, py = Num ny\<rparr>"
    and "\<not> isStatic (bs ! bodyA c)" "\<not> isStatic (bs ! bodyB c)"
  shows "momentum (applyImpulse bs c ! bodyA c) (applyImpulse bs c ! bodyB c) = momentum (bs ! bodyA c) (bs ! bodyB c)"
proof -
  have nz: "1 / ma + 1 / mb \<noteq> 0" "ma \<noteq> 0" "mb \<noteq> 0"
    using assms(7,9) by (simp_all add: add_pos_pos less_imp_neq[THEN not_sym])
  show ?thesis
    using assms nz
    by (simp add: applyImpulse_def momentum_def Let_def nsub_def ngt_def impulse_algebra del: divide_eq_0_iff)
qed

text \<open>
  \<open>resolveCollision\<close> on two distinct non-static bodies of positive mass, with finite
  velocities and restitutions and a finite normal, leaves the total momentum as it was.
  Over the reals the two sides are equal, which is within every tolerance.
\<close>

lemma resolveCollision_momentum:
  assumes "bodyA c < length bs" "bodyB c < length bs" "bodyA c \<noteq> bodyB c"
    and "\<not> isStatic (bs ! bodyA c)" "\<not> isStatic (bs ! bodyB c)"
    and "finiteVec (velocity (bs ! bodyA c))" "finiteVec (velocity (bs ! bodyB c))"
    and "mass (bs ! bodyA c) = Num ma" "0 < ma" "mass (bs ! bodyB c) = Num mb" "0 < mb"
    and "isFinite (restitution (bs ! bodyA c))" "isFinite (restitution (bs ! bodyB c))"
    and "finiteVec (normal c)"
  shows "momentum (resolveCollision bs c ! bodyA c) (resolveCollision bs c ! bodyB c) =
         momentum (bs ! bodyA c) (bs ! bodyB c)
       \<and> finiteVec (momentum (bs ! bodyA c) (bs ! bodyB c))"
proof -
  let ?s = "separate bs c"
  obtain ax ay where va: "velocity (bs ! bodyA c) = \<lparr>px = Num ax, py = Num ay\<rparr>"
    using assms(6) by (auto simp add: finiteVec_iff)
  obtain bx bv where vb: "velocity (bs ! bodyB c) = \<lparr>px = Num bx, py = Num bv\<rparr>"
    using assms(7) by (auto simp add: finiteVec_iff)
  obtain ra rb where r: "restitution (bs ! bodyA c) = Num ra" "restitution (bs ! bodyB c) = Num rb"
    using assms(12,13) by (auto simp add: isFinite_iff)
  obtain nx ny where n: "normal c = \<lparr>px = Num nx, py = Num ny\<rparr>"
    using assms(14) by (auto simp add: finiteVec_iff)
  note sf = separate_fields[OF assms(1-3)]
  have "momentum (applyImpulse ?s c ! bodyA c) (applyImpulse ?s c ! bodyB c) =
        momentum (?s ! bodyA c) (?s ! bodyB c)"
    by (rule applyImpulse_momentum[where ax=ax and ay=ay and bx=bx and bv=bv and ma=ma and mb=mb and ra=ra and rb=rb and nx=nx and ny=ny])
       (simp_all add: sf assms va vb r n)
  moreover have "momentum (?s ! bodyA c) (?s ! bodyB c) = momentum (bs ! bodyA c) (bs ! bodyB c)"
    by (rule separate_momentum[OF assms(1-3)])
  moreover have "finiteVec (momentum (bs ! bodyA c) (bs ! bodyB c))"
    by (simp add: momentum_def finiteVec_def va vb assms)
  ultimately show ?thesis by (simp add: resolveCollision_def)
qed

lemma resolveCollision_momentum_example:
  "velocity (resolveCollision [movingA, discB] overlapCollision ! 0) =
     \<lparr>px = Num 3, py = Num (- 40)\<rparr> \<and>
   velocity (resolveCollision [movingA, discB] overlapCollision ! Suc 0) =
     \<lparr>px = Num 27, py = Num 0\<rparr> \<and>
   momentum (resolveCollision [movingA, discB] overlapCollision ! 0)
            (resolveCollision [movingA, discB] overlapCollision ! Suc 0) =
     \<lparr>px = Num 30, py = Num (- 40)\<rparr>"
proof -
  have v: "velocity (resolveCollision [movingA, discB] overlapCollision ! 0) =
      \<lparr>px = Num 3, py = Num (- 40)\<rparr>"
    "velocity (resolveCollision [movingA, discB] overlapCollision ! Suc 0) =
      \<lparr>px = Num 27, py = Num 0\<rparr>"
    by (simp_all add: resolveCollision_def separate_def applyImpulse_def overlapCollision_def
        movingA_def discA_def discB_def Let_def nsub_def ngt_def)
  have m: "momentum ([movingA, discB] ! 0) ([movingA, discB] ! Suc 0) =
      \<lparr>px = Num 30, py = Num (- 40)\<rparr>"
    by (simp add: momentum_def movingA_def discA_def discB_def)
  from resolveCollision_momentum [of overlapCollision "[movingA, discB]" 1 1] v m
  show ?thesis
    by (simp add: overlapCollision_def movingA_def discA_def discB_def finiteVec_def)
qed

text \<open>
  The normal is finite for the collision that \<open>checkCollision\<close> reports for two finite
  bodies whose centres differ: resolving it leaves the total momentum as it was.
\<close>

lemma checked_collision_momentum:
  assumes "i < length bs" "j < length bs" "i \<noteq> j"
    and "\<not> isStatic (bs ! i)" "\<not> isStatic (bs ! j)"
    and "finiteBody (bs ! i)" "finiteBody (bs ! j)"
    and "mass (bs ! i) = Num ma" "0 < ma" "mass (bs ! j) = Num mb" "0 < mb"
    and "position (bs ! i) \<noteq> position (bs ! j)"
    and "checkCollision bs i j = Some c"
  shows "momentum (resolveCollision bs c ! i) (resolveCollision bs c ! j) =
         momentum (bs ! i) (bs ! j)"
proof -
  obtain ax ay where pa: "position (bs ! i) = \<lparr>px = Num ax, py = Num ay\<rparr>"
    using assms(6) by (auto simp add: finiteBody_def finiteVec_iff)
  obtain bx bv where pb: "position (bs ! j) = \<lparr>px = Num bx, py = Num bv\<rparr>"
    using assms(7) by (auto simp add: finiteBody_def finiteVec_iff)
  obtain ra rb where r: "radius (bs ! i) = Num ra" "radius (bs ! j) = Num rb"
    using assms(6,7) by (auto simp add: finiteBody_def isFinite_iff)
  have ne: "(ax, ay) \<noteq> (bx, bv)"
    using assms(12) unfolding pa pb by auto
  from checkCollision_unit_normal [OF pa pb r ne assms(13)]
  have n: "finiteVec (normal c)" by (auto simp add: finiteVec_iff)
  have ij: "bodyA c = i" "bodyB c = j"
    using assms(13) by (auto simp add: checkCollision_def Let_def split: if_splits)
  from resolveCollision_momentum [of c bs ma mb] assms n show ?thesis
    unfolding ij by (simp add: finiteBody_def)
qed

text \<open>
  C7.  The claim: resolving a collision of two non-static bodies away from the walls leaves
  the total momentum as it was.  For two discs at rest at one place, well inside the board,
  \<open>step\<close> resolves the collision whose normal is \<open>(NaN, NaN)\<close>, and the impulse along that
  normal turns the total momentum from \<open>(0, 0)\<close> into \<open>(NaN, NaN)\<close>.
\<close>

theorem coincident_collision_momentum_is_NaN:
  "checkCollision [discA, discC] 0 (Suc 0) = Some coincidentCollision \<and>
   snd (step coincidentScenario (Num (1 / 60))) = [coincidentCollision] \<and>
   map snd (bodies (fst (step coincidentScenario (Num (1 / 60))))) =
     resolveCollision [discA, discC] coincidentCollision \<and>
   momentum discA discC = \<lparr>px = Num 0, py = Num 0\<rparr> \<and>
   momentum (resolveCollision [discA, discC] coincidentCollision ! 0)
            (resolveCollision [discA, discC] coincidentCollision ! Suc 0) =
     \<lparr>px = NaN, py = NaN\<rparr>"
proof -
  have "momentum discA discC = \<lparr>px = Num 0, py = Num 0\<rparr>"
    by (simp add: momentum_def discA_def discC_def)
  moreover have "momentum (resolveCollision [discA, discC] coincidentCollision ! 0)
            (resolveCollision [discA, discC] coincidentCollision ! Suc 0) =
     \<lparr>px = NaN, py = NaN\<rparr>"
    unfolding resolve_coincident by (simp add: momentum_def discA_def discC_def)
  ultimately show ?thesis
    by (simp add: check_coincident step_coincidentScenario resolve_coincident)
qed

subsection \<open>Frames of the pair scan\<close>

lemma checkCollision_refs:
  "checkCollision bs i j = Some c \<Longrightarrow> bodyA c = i \<and> bodyB c = j"
  by (auto simp add: checkCollision_def Let_def split: if_splits)

lemma length_separate [simp]: "length (separate bs c) = length bs"
  by (simp add: separate_def Let_def)

lemma length_applyImpulse [simp]: "length (applyImpulse bs c) = length bs"
  by (simp add: applyImpulse_def Let_def)

lemma length_resolveCollision [simp]: "length (resolveCollision bs c) = length bs"
  by (simp add: resolveCollision_def)

lemma separate_other: "k \<noteq> bodyA c \<Longrightarrow> k \<noteq> bodyB c \<Longrightarrow> separate bs c ! k = bs ! k"
  by (simp add: separate_def Let_def)

lemma applyImpulse_other: "k \<noteq> bodyA c \<Longrightarrow> k \<noteq> bodyB c \<Longrightarrow> applyImpulse bs c ! k = bs ! k"
  by (simp add: applyImpulse_def Let_def)

lemma resolveCollision_other:
  "k \<noteq> bodyA c \<Longrightarrow> k \<noteq> bodyB c \<Longrightarrow> resolveCollision bs c ! k = bs ! k"
  by (simp add: resolveCollision_def separate_other applyImpulse_other)

lemma collideInner_frame:
  "collideInner i js (bs, cs) = (bs', cs') \<Longrightarrow>
   length bs' = length bs \<and>
   (\<exists>ds. cs' = cs @ ds \<and> ((\<forall>c \<in> set ds. bodyA c \<noteq> k \<and> bodyB c \<noteq> k) \<longrightarrow> bs' ! k = bs ! k))"
proof (induction js arbitrary: bs cs)
  case Nil
  then show ?case by simp
next
  case (Cons j js)
  show ?case
  proof (cases "checkCollision bs i j")
    case None
    with Cons show ?thesis by simp
  next
    case (Some c)
    with Cons.prems have "collideInner i js (resolveCollision bs c, cs @ [c]) = (bs', cs')"
      by simp
    from Cons.IH [OF this] obtain ds where
      l: "length bs' = length bs" and ds: "cs' = (cs @ [c]) @ ds"
      and fr: "(\<forall>c \<in> set ds. bodyA c \<noteq> k \<and> bodyB c \<noteq> k) \<longrightarrow> bs' ! k = resolveCollision bs c ! k"
      by auto
    have "cs' = cs @ (c # ds)" using ds by simp
    moreover have "(\<forall>c \<in> set (c # ds). bodyA c \<noteq> k \<and> bodyB c \<noteq> k) \<longrightarrow> bs' ! k = bs ! k"
      using fr by (auto simp add: resolveCollision_other)
    ultimately show ?thesis using l by blast
  qed
qed

lemma collideOuter_frame:
  "collideOuter is n (bs, cs) = (bs', cs') \<Longrightarrow>
   length bs' = length bs \<and>
   (\<exists>ds. cs' = cs @ ds \<and> ((\<forall>c \<in> set ds. bodyA c \<noteq> k \<and> bodyB c \<noteq> k) \<longrightarrow> bs' ! k = bs ! k))"
proof (induction "is" arbitrary: bs cs)
  case Nil
  then show ?case by simp
next
  case (Cons i "is")
  obtain bs1 cs1 where in1: "collideInner i [Suc i..<n] (bs, cs) = (bs1, cs1)"
    by (cases "collideInner i [Suc i..<n] (bs, cs)")
  with Cons.prems have "collideOuter is n (bs1, cs1) = (bs', cs')" by simp
  from Cons.IH [OF this] obtain ds where
    l: "length bs' = length bs1" and ds: "cs' = cs1 @ ds"
    and fr: "(\<forall>c \<in> set ds. bodyA c \<noteq> k \<and> bodyB c \<noteq> k) \<longrightarrow> bs' ! k = bs1 ! k"
    by auto
  from collideInner_frame [OF in1, of k] obtain ds1 where
    l1: "length bs1 = length bs" and ds1: "cs1 = cs @ ds1"
    and fr1: "(\<forall>c \<in> set ds1. bodyA c \<noteq> k \<and> bodyB c \<noteq> k) \<longrightarrow> bs1 ! k = bs ! k"
    by auto
  have "cs' = cs @ (ds1 @ ds)" using ds ds1 by simp
  moreover have "(\<forall>c \<in> set (ds1 @ ds). bodyA c \<noteq> k \<and> bodyB c \<noteq> k) \<longrightarrow> bs' ! k = bs ! k"
    using fr fr1 by auto
  ultimately show ?case using l l1 by (metis)
qed

lemma collidePairs_frame:
  assumes "collidePairs bs = (bs', cs)"
  shows "length bs' = length bs"
    and "\<forall>c \<in> set cs. bodyA c \<noteq> k \<and> bodyB c \<noteq> k \<Longrightarrow> bs' ! k = bs ! k"
  using collideOuter_frame [OF assms [unfolded collidePairs_def], of k] by auto

subsection \<open>The walls\<close>

lemma handleWallCollisions_inBounds:
  assumes "position b = \<lparr>px = Num x, py = Num y\<rparr>" "radius b = Num r"
    and "2 * (20 + r) \<le> w" "2 * (20 + r) \<le> h"
  shows "inBounds (Num w) (Num h) (handleWallCollisions (Num w) (Num h) b)"
  using assms
  by (simp add: handleWallCollisions_def inBounds_def leftWall_def rightWall_def topWall_def
      bottomWall_def margin_def nge_def nsub_def)

lemma integrateBody_finite:
  assumes "finiteVec (position b)" "finiteVec (velocity b)" "isFinite (friction b)"
  shows "finiteVec (position (integrateBody (Num dt) b))"
proof -
  obtain x y where p: "position b = \<lparr>px = Num x, py = Num y\<rparr>"
    using assms(1) by (auto simp add: finiteVec_iff)
  obtain vx vy where v: "velocity b = \<lparr>px = Num vx, py = Num vy\<rparr>"
    using assms(2) by (auto simp add: finiteVec_iff)
  obtain f where f: "friction b = Num f"
    using assms(3) by (auto simp add: isFinite_iff)
  show ?thesis
    by (simp add: integrateBody_def Let_def p v f gravity_def airResistance_def ngt_def nsub_def
        finiteVec_def)
qed

lemma integrateBody_keeps:
  "radius (integrateBody dt b) = radius b" "isStatic (integrateBody dt b) = isStatic b"
  by (simp_all add: integrateBody_def Let_def)


subsection \<open>Bounds after a step\<close>

lemma wallPhase_inBounds:
  assumes "\<not> isStatic b" "finiteVec (position b)" "radius b = Num r"
    and "2 * (20 + r) \<le> w" "2 * (20 + r) \<le> h"
  shows "inBounds (Num w) (Num h) (wallPhase (Num w) (Num h) b)"
proof -
  obtain x y where "position b = \<lparr>px = Num x, py = Num y\<rparr>"
    using assms(2) by (auto simp add: finiteVec_iff)
  from handleWallCollisions_inBounds [OF this assms(3-5)] assms(1)
  show ?thesis by (simp add: wallPhase_def)
qed

text \<open>
  C8, as the code has it.  The walls are handled before the pairs, and nothing clamps a body
  after a collision has moved it.  So: after \<open>step\<close>, a non-static body with finite fields,
  on a board at least \<open>2 * (margin + radius)\<close> wide and high, lies within the bounds when no
  collision of this step refers to it.
\<close>

theorem step_inBounds_unless_collided:
  assumes "step e (Num dt) = (e', cs)"
    and "boardWidth e = Num w" "boardHeight e = Num h"
    and "k < length (bodies e)"
    and "\<not> isStatic (snd (bodies e ! k))" "finiteBody (snd (bodies e ! k))"
    and "radius (snd (bodies e ! k)) = Num r" "2 * (20 + r) \<le> w" "2 * (20 + r) \<le> h"
    and "\<forall>c \<in> set cs. bodyA c \<noteq> k \<and> bodyB c \<noteq> k"
  shows "length (bodies e') = length (bodies e) \<and>
         fst (bodies e' ! k) = fst (bodies e ! k) \<and>
         inBounds (boardWidth e') (boardHeight e') (snd (bodies e' ! k))"
proof -
  let ?b = "snd (bodies e ! k)"
  let ?moved = "map (integrateBody (Num dt)) (map snd (bodies e))"
  let ?walled = "map (wallPhase (Num w) (Num h)) ?moved"
  obtain bs cs' where cp: "collidePairs ?walled = (bs, cs')"
    by (cases "collidePairs ?walled")
  from assms(1) cp have e': "e' = e\<lparr>bodies := zip (map fst (bodies e)) bs\<rparr>" and cs: "cs' = cs"
    by (simp_all add: step_def Let_def assms(2,3))
  have len: "length bs = length (bodies e)"
    using collidePairs_frame(1) [OF cp] by simp
  have "bs ! k = ?walled ! k"
    using collidePairs_frame(2) [OF cp, of k] assms(10) cs by simp
  also have "\<dots> = wallPhase (Num w) (Num h) (integrateBody (Num dt) ?b)"
    using assms(4) by simp
  finally have bk: "bs ! k = wallPhase (Num w) (Num h) (integrateBody (Num dt) ?b)" .
  have "finiteVec (position (integrateBody (Num dt) ?b))"
    using assms(6) by (intro integrateBody_finite) (simp_all add: finiteBody_def)
  then have "inBounds (Num w) (Num h) (wallPhase (Num w) (Num h) (integrateBody (Num dt) ?b))"
    using assms(5,7,8,9) by (intro wallPhase_inBounds) (simp_all add: integrateBody_keeps)
  then show ?thesis
    using len assms(4) by (simp add: e' bk assms(2,3))
qed

lemma atRest_integrate:
  assumes "velocity b = \<lparr>px = Num 0, py = Num 0\<rparr>" "finiteVec (position b)"
  shows "integrateBody (Num dt) b = b"
proof -
  obtain x y where p: "position b = \<lparr>px = Num x, py = Num y\<rparr>"
    using assms(2) by (auto simp add: finiteVec_iff)
  have "b\<lparr>velocity := \<lparr>px = Num 0, py = Num 0\<rparr>, position := \<lparr>px = Num x, py = Num y\<rparr>\<rparr> = b"
    using assms(1) p by (cases b) simp
  then show ?thesis
  by (simp add: integrateBody_def assms p gravity_def airResistance_def ngt_def nsub_def Let_def)
qed

lemma bodies_threeScenario: "bodies threeScenario = [(''D'', discD), (''A'', discA), (''B'', discB)]"
  by (simp add: threeScenario_def addBody_def newPhysicsEngine_def discA_def discB_def discD_def)

lemma bodies_wallScenario: "bodies wallScenario = [(''E'', discE), (''F'', discF)]"
  by (simp add: wallScenario_def addBody_def newPhysicsEngine_def discE_def discF_def discA_def)

lemma step_wallScenario:
  "step wallScenario (Num dt) =
     (wallScenario
        \<lparr>bodies := [(''E'', discE\<lparr>position := \<lparr>px = Num 28.75, py = Num 100\<rparr>\<rparr>),
                    (''F'', discF\<lparr>position := \<lparr>px = Num 46.25, py = Num 100\<rparr>\<rparr>)]\<rparr>,
      [\<lparr>bodyA = 0, bodyB = Suc 0, normal = \<lparr>px = Num 1, py = Num 0\<rparr>, penetration = Num 5,
        point = \<lparr>px = Num 40, py = Num 100\<rparr>\<rparr>])"
proof -
  have i: "integrateBody (Num dt) discE = discE" "integrateBody (Num dt) discF = discF"
    by (rule atRest_integrate; simp add: discE_def discF_def discA_def finiteVec_def)+
  have w: "wallPhase (Num 800) (Num 600) discE = discE" "wallPhase (Num 800) (Num 600) discF = discF"
    by (simp_all add: wallPhase_def handleWallCollisions_def leftWall_def rightWall_def topWall_def
      bottomWall_def discE_def discF_def discA_def margin_def nge_def nsub_def)
  have c: "checkCollision [discE, discF] 0 (Suc 0) =
      Some \<lparr>bodyA = 0, bodyB = Suc 0, normal = \<lparr>px = Num 1, py = Num 0\<rparr>, penetration = Num 5,
        point = \<lparr>px = Num 40, py = Num 100\<rparr>\<rparr>"
    by (simp add: checkCollision_def distance_def discE_def discF_def discA_def nsub_def Let_def)
  have r: "resolveCollision [discE, discF]
       \<lparr>bodyA = 0, bodyB = Suc 0, normal = \<lparr>px = Num 1, py = Num 0\<rparr>, penetration = Num 5,
        point = \<lparr>px = Num 40, py = Num 100\<rparr>\<rparr> =
     [discE\<lparr>position := \<lparr>px = Num 28.75, py = Num 100\<rparr>\<rparr>,
      discF\<lparr>position := \<lparr>px = Num 46.25, py = Num 100\<rparr>\<rparr>]"
    by (simp add: resolveCollision_def separate_def applyImpulse_def discE_def discF_def discA_def
        nsub_def ngt_def Let_def)
  show ?thesis
    unfolding step_def bodies_wallScenario
    by (simp add: i w c r collidePairs_def wallScenario_def addBody_def newPhysicsEngine_def Let_def)
qed

text \<open>
  C8.  The claim: after \<open>step\<close> every non-static body lies within the bounds, also when two
  bodies are separated after the walls were handled.  \<open>discE\<close> touches the left wall line and
  overlaps \<open>discF\<close>; the separation moves it to \<open>x = 28.75\<close>, left of \<open>margin + radius = 30\<close>.
\<close>

theorem separation_leaves_bounds:
  "getBody (fst (step wallScenario (Num (1 / 60)))) ''E'' =
     Some (discE\<lparr>position := \<lparr>px = Num 28.75, py = Num 100\<rparr>\<rparr>) \<and>
   \<not> isStatic (discE\<lparr>position := \<lparr>px = Num 28.75, py = Num 100\<rparr>\<rparr>) \<and>
   nadd margin (radius discE) = Num 30 \<and>
   \<not> inBounds (Num 800) (Num 600) (discE\<lparr>position := \<lparr>px = Num 28.75, py = Num 100\<rparr>\<rparr>)"
  by (simp add: step_wallScenario getBody_def inBounds_def margin_def discE_def discA_def)

lemma step_threeScenario:
  "step threeScenario (Num dt) =
     (threeScenario
        \<lparr>bodies := [(''D'', discD\<lparr>position := \<lparr>px = Num 30, py = Num 100\<rparr>\<rparr>),
                    (''A'', discA\<lparr>position := \<lparr>px = Num 98.75, py = Num 100\<rparr>\<rparr>),
                    (''B'', discB\<lparr>position := \<lparr>px = Num 116.25, py = Num 100\<rparr>\<rparr>)]\<rparr>,
      [\<lparr>bodyA = Suc 0, bodyB = Suc (Suc 0), normal = \<lparr>px = Num 1, py = Num 0\<rparr>, penetration = Num 5,
        point = \<lparr>px = Num 110, py = Num 100\<rparr>\<rparr>])"
proof -
  let ?D = "discD\<lparr>position := \<lparr>px = Num 30, py = Num 100\<rparr>\<rparr>"
  have i: "integrateBody (Num dt) discD = discD" "integrateBody (Num dt) discA = discA"
     "integrateBody (Num dt) discB = discB"
    by (rule atRest_integrate; simp add: discD_def discB_def discA_def finiteVec_def)+
  have w: "wallPhase (Num 800) (Num 600) discD = ?D"
    "wallPhase (Num 800) (Num 600) discA = discA" "wallPhase (Num 800) (Num 600) discB = discB"
    by (simp_all add: wallPhase_def handleWallCollisions_def leftWall_def rightWall_def topWall_def
      bottomWall_def discD_def discB_def discA_def margin_def nge_def nsub_def)
  have c1: "checkCollision [?D, discA, discB] 0 (Suc 0) = None"
    by (simp add: checkCollision_def distance_def discD_def discA_def nsub_def Let_def)
  have c2: "checkCollision [?D, discA, discB] 0 (Suc (Suc 0)) = None"
    by (simp add: checkCollision_def distance_def discD_def discA_def discB_def nsub_def Let_def)
  have c3: "checkCollision [?D, discA, discB] (Suc 0) (Suc (Suc 0)) =
      Some \<lparr>bodyA = Suc 0, bodyB = Suc (Suc 0), normal = \<lparr>px = Num 1, py = Num 0\<rparr>, penetration = Num 5,
        point = \<lparr>px = Num 110, py = Num 100\<rparr>\<rparr>"
    by (simp add: checkCollision_def distance_def discA_def discB_def nsub_def Let_def)
  have r: "resolveCollision [?D, discA, discB]
       \<lparr>bodyA = Suc 0, bodyB = Suc (Suc 0), normal = \<lparr>px = Num 1, py = Num 0\<rparr>, penetration = Num 5,
        point = \<lparr>px = Num 110, py = Num 100\<rparr>\<rparr> =
     [?D, discA\<lparr>position := \<lparr>px = Num 98.75, py = Num 100\<rparr>\<rparr>,
      discB\<lparr>position := \<lparr>px = Num 116.25, py = Num 100\<rparr>\<rparr>]"
    by (simp add: resolveCollision_def separate_def applyImpulse_def discB_def discA_def
        nsub_def ngt_def Let_def)
  have u: "[0..<3] = [0, Suc 0, Suc (Suc 0)]" "[Suc 0..<3] = [Suc 0, Suc (Suc 0)]"
      "[Suc (Suc 0)..<3] = [Suc (Suc 0)]" "[Suc (Suc (Suc 0))..<3] = []"
    by (simp_all add: upt_rec)
  show ?thesis
    unfolding step_def bodies_threeScenario
    by (simp add: i w c1 c2 c3 r u collidePairs_def threeScenario_def addBody_def newPhysicsEngine_def Let_def)
qed

theorem step_inBounds_unless_collided_witness:
  "snd (step threeScenario (Num (1 / 60))) \<noteq> [] \<and>
   snd (bodies (fst (step threeScenario (Num (1 / 60)))) ! 0) =
     discD\<lparr>position := \<lparr>px = Num 30, py = Num 100\<rparr>\<rparr> \<and>
   inBounds (Num 800) (Num 600) (snd (bodies (fst (step threeScenario (Num (1 / 60)))) ! 0))"
proof -
  note st = step_threeScenario [of "1 / 60"]
  have board: "boardWidth threeScenario = Num 800" "boardHeight threeScenario = Num 600"
    by (simp_all add: threeScenario_def addBody_def newPhysicsEngine_def)
  have b0: "snd (bodies threeScenario ! 0) = discD" "0 < length (bodies threeScenario)"
    by (simp_all add: bodies_threeScenario)
  have d: "\<not> isStatic discD" "finiteBody discD" "radius discD = Num 10"
    by (simp_all add: discD_def discA_def finiteBody_def finiteVec_def)
  from step_inBounds_unless_collided [OF st board b0(2), of 10] b0(1) d
  show ?thesis
    unfolding st by (simp add: board)
qed

subsection \<open>The predictor and the step\<close>

text \<open>What \<open>step\<close> does to a body when no other body collides with it.\<close>

lemma step_single:
  assumes "bodies e = [(k, b)]"
  shows "step e dt =
    (e\<lparr>bodies := [(k, wallPhase (boardWidth e) (boardHeight e) (integrateBody dt b))]\<rparr>, [])"
  by (simp add: step_def assms collidePairs_def)

lemma stepAxis_simAxis: "40 + 2 * r < w \<Longrightarrow> stepAxis w r (8 / 10) s = simAxis w r s"
  by (cases s) (auto simp add: stepAxis_def simAxis_def Let_def)

lemma slowed_num:
  "sp \<noteq> 0 \<Longrightarrow>
   (if ngt (nabs (Num a)) (nabs (nmul (ndiv (Num a) (Num sp)) fr))
    then nsub (Num a) (nmul (ndiv (Num a) (Num sp)) fr) else Num 0) =
   (case fr of Num g \<Rightarrow> Num (slowed a sp g) | _ \<Rightarrow> Num 0)"
  by (cases fr) (simp_all add: slowed_def ngt_def nsub_def)

lemma nsqrt_squares: "nsqrt (nadd (nmul (Num a) (Num a)) (nmul (Num b) (Num b))) = Num (sqrt (a * a + b * b))"
  by (simp add: not_less)

lemma integrateBody_moving:
  assumes "\<not> isStatic b" "friction b = Num f"
    and "position b = \<lparr>px = Num x, py = Num y\<rparr>" "velocity b = \<lparr>px = Num vx, py = Num vy\<rparr>"
    and "sp = sqrt (vx * (999 / 1000) * (vx * (999 / 1000)) + vy * (999 / 1000) * (vy * (999 / 1000)))"
    and "1 / 10 < sp"
  shows "integrateBody (Num dt) b =
     b\<lparr>velocity := \<lparr>px = Num (slowed (vx * (999 / 1000)) sp (f * dt)),
                    py = Num (slowed (vy * (999 / 1000)) sp (f * dt))\<rparr>,
       position := \<lparr>px = Num (x + slowed (vx * (999 / 1000)) sp (f * dt) * dt),
                    py = Num (y + slowed (vy * (999 / 1000)) sp (f * dt) * dt)\<rparr>\<rparr>"
proof -
  have nz: "sp \<noteq> 0" using assms(6) by auto
  have a: "nmul (nadd (Num vx) (nmul (px gravity) (Num dt))) airResistance = Num (vx * (999 / 1000))"
    "nmul (nadd (Num vy) (nmul (py gravity) (Num dt))) airResistance = Num (vy * (999 / 1000))"
    by (simp_all add: gravity_def airResistance_def)
  have g: "ngt (Num sp) (Num 0.1) = True"
    using assms(6) by (simp add: ngt_def)
  have fr: "nmul (Num f) (Num dt) = Num (f * dt)" by simp
  show ?thesis
    unfolding integrateBody_def Let_def assms(2,3,4) vec.select_convs a nsqrt_squares
      assms(5) [symmetric] g if_True slowed_num [OF nz] fr num.case
    using assms(1) by simp
qed

lemma wallPhase_finite:
  assumes "\<not> isStatic b" "restitution b = Num rest"
    and "position b = \<lparr>px = Num x, py = Num y\<rparr>" "velocity b = \<lparr>px = Num vx, py = Num vy\<rparr>"
    and "radius b = Num r"
  shows "wallPhase (Num w) (Num h) b =
     b\<lparr>position := \<lparr>px = Num (fst (stepAxis w r rest (x, vx))),
                    py = Num (fst (stepAxis h r rest (y, vy)))\<rparr>,
       velocity := \<lparr>px = Num (snd (stepAxis w r rest (x, vx))),
                    py = Num (snd (stepAxis h r rest (y, vy)))\<rparr>\<rparr>"
  using assms
  by (simp add: wallPhase_def handleWallCollisions_def leftWall_def rightWall_def topWall_def
      bottomWall_def margin_def nge_def nsub_def stepAxis_def Let_def)

lemma simIteration_moving:
  assumes "sp = sqrt (vx * (999 / 1000) * (vx * (999 / 1000)) + vy * (999 / 1000) * (vy * (999 / 1000)))"
    and "1 / 10 < sp" "boardWidth e = Num w" "boardHeight e = Num h"
    and "X = simAxis w r (x + slowed (vx * (999 / 1000)) sp (dt / 50) * dt, slowed (vx * (999 / 1000)) sp (dt / 50))"
    and "Y = simAxis h r (y + slowed (vy * (999 / 1000)) sp (dt / 50) * dt, slowed (vy * (999 / 1000)) sp (dt / 50))"
  shows "fst (simIteration e (Num r) (Num dt) (\<lparr>px = Num x, py = Num y\<rparr>, \<lparr>px = Num vx, py = Num vy\<rparr>)) =
     (\<lparr>px = Num (fst X), py = Num (fst Y)\<rparr>, \<lparr>px = Num (snd X), py = Num (snd Y)\<rparr>)"
proof -
  have nz: "sp \<noteq> 0" using assms(2) by auto
  have a: "nmul (Num vx) airResistance = Num (vx * (999 / 1000))"
    "nmul (Num vy) airResistance = Num (vy * (999 / 1000))"
    by (simp_all add: airResistance_def)
  have g: "ngt (Num sp) (Num 0.1) = True"
    using assms(2) by (simp add: ngt_def)
  have fr: "nmul (Num 0.02) (Num dt) = Num (dt / 50)" by simp
  show ?thesis
    unfolding simIteration_def Let_def fst_conv snd_conv vec.select_convs a nsqrt_squares
      assms(1) [symmetric] g not_True_eq_False if_False slowed_num [OF nz] fr num.case assms(3,4)
    unfolding assms(5,6) simAxis_def
    by (simp add: margin_def nge_def nsub_def)
qed

lemma single_simps:
  "bodies (single b) = [(bid b, b)]" "boardWidth (single b) = Num 800"
  "boardHeight (single b) = Num 600"
  by (simp_all add: single_def addBody_def newPhysicsEngine_def)

text \<open>
  C4, as the code has it.  \<open>simulateTrajectory\<close> has the friction \<open>0.02\<close> and the wall
  restitution \<open>0.8\<close> written into it, and it stops without an update when the speed after
  drag is not above \<open>0.1\<close>.  For a single registered non-static body with that friction and
  restitution, finite position, velocity and radius, a speed after drag above \<open>0.1\<close>, and a
  board wider and higher than \<open>2 * (margin + radius)\<close>, one iteration of the predictor
  gives the position and the velocity that \<open>step\<close> gives the body.
\<close>

theorem simulateTrajectory_agrees_with_step:
  assumes "bodies e = [(k, b)]" "\<not> isStatic b"
    and "friction b = Num 0.02" "restitution b = Num 0.8"
    and "position b = \<lparr>px = Num x, py = Num y\<rparr>" "velocity b = \<lparr>px = Num vx, py = Num vy\<rparr>"
    and "radius b = Num r" "boardWidth e = Num w" "boardHeight e = Num h"
    and "40 + 2 * r < w" "40 + 2 * r < h"
    and "0.1 < sqrt ((0.999 * vx)\<^sup>2 + (0.999 * vy)\<^sup>2)"
  shows "step e (Num dt) =
     (e\<lparr>bodies :=
          [(k, b\<lparr>position := fst (fst (simIteration e (Num r) (Num dt) (position b, velocity b))),
                 velocity := snd (fst (simIteration e (Num r) (Num dt) (position b, velocity b)))\<rparr>)]\<rparr>,
      [])"
proof -
  define sp where
    "sp = sqrt (vx * (999 / 1000) * (vx * (999 / 1000)) + vy * (999 / 1000) * (vy * (999 / 1000)))"
  have fast: "1 / 10 < sp"
    using assms(12) unfolding sp_def by (simp add: power2_eq_square mult.commute)
  define sx where "sx = slowed (vx * (999 / 1000)) sp (dt / 50)"
  define sy where "sy = slowed (vy * (999 / 1000)) sp (dt / 50)"
  have f: "friction b = Num (1 / 50)" "restitution b = Num (4 / 5)"
    using assms(3,4) by simp_all
  let ?m = "integrateBody (Num dt) b"
  have m: "?m = b\<lparr>velocity := \<lparr>px = Num sx, py = Num sy\<rparr>,
                  position := \<lparr>px = Num (x + sx * dt), py = Num (y + sy * dt)\<rparr>\<rparr>"
    using integrateBody_moving [OF assms(2) f(1) assms(5,6) sp_def fast, of dt]
    by (simp add: sx_def sy_def)
  have "wallPhase (Num w) (Num h) ?m =
     ?m\<lparr>position := \<lparr>px = Num (fst (stepAxis w r (4 / 5) (x + sx * dt, sx))),
                    py = Num (fst (stepAxis h r (4 / 5) (y + sy * dt, sy)))\<rparr>,
        velocity := \<lparr>px = Num (snd (stepAxis w r (4 / 5) (x + sx * dt, sx))),
                    py = Num (snd (stepAxis h r (4 / 5) (y + sy * dt, sy)))\<rparr>\<rparr>"
    by (rule wallPhase_finite) (simp_all add: m assms f)
  also have "\<dots> =
     b\<lparr>position := \<lparr>px = Num (fst (simAxis w r (x + sx * dt, sx))),
                    py = Num (fst (simAxis h r (y + sy * dt, sy)))\<rparr>,
        velocity := \<lparr>px = Num (snd (simAxis w r (x + sx * dt, sx))),
                    py = Num (snd (simAxis h r (y + sy * dt, sy)))\<rparr>\<rparr>"
    using stepAxis_simAxis [OF assms(10)] stepAxis_simAxis [OF assms(11)] by (simp add: m)
  also have "\<dots> =
     b\<lparr>position := fst (fst (simIteration e (Num r) (Num dt) (position b, velocity b))),
       velocity := snd (fst (simIteration e (Num r) (Num dt) (position b, velocity b)))\<rparr>"
    unfolding assms(5,6)
    by (simp only: simIteration_moving [OF sp_def fast assms(8,9) refl refl] sx_def sy_def fst_conv snd_conv)
  finally show ?thesis
    by (simp add: step_single [OF assms(1)] assms(8,9))
qed

lemma sqrt_999:
  "sqrt (100 * (999 / 1000) * (100 * (999 / 1000)) + 0 * (999 / 1000) * (0 * (999 / 1000))) = 999 / 10"
  by (rule real_sqrt_unique) (simp_all add: power2_eq_square)

lemma integrate_strikerBody:
  "integrateBody (Num (1 / 60)) strikerBody =
     strikerBody\<lparr>velocity := \<lparr>px = Num (239759 / 2400), py = Num 0\<rparr>,
                 position := \<lparr>px = Num (57839759 / 144000), py = Num 300\<rparr>\<rparr>"
proof -
  have f: "friction strikerBody = Num (1 / 40)" "\<not> isStatic strikerBody"
    "position strikerBody = \<lparr>px = Num 400, py = Num 300\<rparr>"
    "velocity strikerBody = \<lparr>px = Num 100, py = Num 0\<rparr>"
    by (simp_all add: strikerBody_def)
  have s: "slowed (100 * (999 / 1000)) (999 / 10) (1 / 40 * (1 / 60)) = 239759 / 2400"
    "slowed (0 * (999 / 1000)) (999 / 10) (1 / 40 * (1 / 60)) = 0"
    by (simp_all add: slowed_def)
  show ?thesis
    using integrateBody_moving [OF f(2,1,3,4) sqrt_999 [symmetric], of "1 / 60"]
    unfolding s by simp
qed

lemma integrate_coinBody:
  "integrateBody (Num (1 / 60)) coinBody =
     coinBody\<lparr>velocity := \<lparr>px = Num (299699 / 3000), py = Num 0\<rparr>,
               position := \<lparr>px = Num (72299699 / 180000), py = Num 300\<rparr>\<rparr>"
proof -
  have f: "friction coinBody = Num (1 / 50)" "\<not> isStatic coinBody"
    "position coinBody = \<lparr>px = Num 400, py = Num 300\<rparr>"
    "velocity coinBody = \<lparr>px = Num 100, py = Num 0\<rparr>"
    by (simp_all add: coinBody_def)
  have s: "slowed (100 * (999 / 1000)) (999 / 10) (1 / 50 * (1 / 60)) = 299699 / 3000"
    "slowed (0 * (999 / 1000)) (999 / 10) (1 / 50 * (1 / 60)) = 0"
    by (simp_all add: slowed_def)
  show ?thesis
    using integrateBody_moving [OF f(2,1,3,4) sqrt_999 [symmetric], of "1 / 60"]
    unfolding s by simp
qed

lemma step_strikerBody:
  "step (single strikerBody) (Num (1 / 60)) =
     (single strikerBody
        \<lparr>bodies := [(''striker'',
            strikerBody\<lparr>velocity := \<lparr>px = Num (239759 / 2400), py = Num 0\<rparr>,
                        position := \<lparr>px = Num (57839759 / 144000), py = Num 300\<rparr>\<rparr>)]\<rparr>, [])"
  unfolding step_single [OF single_simps(1)] single_simps integrate_strikerBody
  by (simp add: wallPhase_def handleWallCollisions_def leftWall_def rightWall_def topWall_def
      bottomWall_def margin_def nge_def nsub_def strikerBody_def)

lemma sim_strikerBody:
  "fst (simIteration (single b) (Num r) (Num (1 / 60))
      (\<lparr>px = Num 400, py = Num 300\<rparr>, \<lparr>px = Num 100, py = Num 0\<rparr>)) =
   (\<lparr>px = Num (fst (simAxis 800 r (72299699 / 180000, 299699 / 3000))),
     py = Num (fst (simAxis 600 r (300, 0)))\<rparr>,
    \<lparr>px = Num (snd (simAxis 800 r (72299699 / 180000, 299699 / 3000))),
     py = Num (snd (simAxis 600 r (300, 0)))\<rparr>)"
proof -
  have s: "slowed (100 * (999 / 1000)) (999 / 10) (1 / 60 / 50) = 299699 / 3000"
    "slowed (0 * (999 / 1000)) (999 / 10) (1 / 60 / 50) = 0"
    by (simp_all add: slowed_def)
  have fast: "1 / 10 < (999 / 10 :: real)" by simp
  show ?thesis
    unfolding simIteration_moving [OF sqrt_999 [symmetric] fast single_simps(2,3) refl refl] s
    by simp
qed

lemma sim_discD:
  "simIteration (single discD) (Num 10) (Num (1 / 60))
      (\<lparr>px = Num 25, py = Num 100\<rparr>, \<lparr>px = Num 0, py = Num 0\<rparr>) =
   ((\<lparr>px = Num 25, py = Num 100\<rparr>, \<lparr>px = Num 0, py = Num 0\<rparr>), False)"
  by (simp add: simIteration_def airResistance_def ngt_def Let_def)

lemma step_discD:
  "step (single discD) (Num (1 / 60)) =
     (single discD\<lparr>bodies := [(''D'', discD\<lparr>position := \<lparr>px = Num 30, py = Num 100\<rparr>\<rparr>)]\<rparr>, [])"
proof -
  have i: "integrateBody (Num (1 / 60)) discD = discD"
    by (rule atRest_integrate) (simp_all add: discD_def discA_def finiteVec_def)
  show ?thesis
    unfolding step_single [OF single_simps(1)] single_simps i
    by (simp add: wallPhase_def handleWallCollisions_def leftWall_def rightWall_def topWall_def
        bottomWall_def margin_def nge_def nsub_def discD_def discA_def)
qed

text \<open>
  C4.  The claim: one iteration of \<open>simulateTrajectory\<close> applies the update that \<open>step\<close>
  applies to a body.  A disc with the predictor's own friction and restitution, at rest
  and reaching over the left wall line, is clamped to \<open>x = 30\<close> by \<open>step\<close> and left at
  \<open>x = 25\<close> by the predictor, which stops before its wall test.  A body with the striker's
  friction \<open>0.025\<close> leaves \<open>step\<close> with the velocity \<open>239759 / 2400\<close> and the predictor with
  \<open>299699 / 3000\<close>.
\<close>

theorem predictor_differs_from_step:
  "friction discD = Num 0.02 \<and> restitution discD = Num 0.8 \<and>
   getBody (fst (step (single discD) (Num (1 / 60)))) ''D'' =
     Some (discD\<lparr>position := \<lparr>px = Num 30, py = Num 100\<rparr>\<rparr>) \<and>
   simIteration (single discD) (radius discD) (Num (1 / 60)) (position discD, velocity discD) =
     ((\<lparr>px = Num 25, py = Num 100\<rparr>, \<lparr>px = Num 0, py = Num 0\<rparr>), False) \<and>
   getBody (fst (step (single strikerBody) (Num (1 / 60)))) ''striker'' =
     Some (strikerBody\<lparr>velocity := \<lparr>px = Num (239759 / 2400), py = Num 0\<rparr>,
                       position := \<lparr>px = Num (57839759 / 144000), py = Num 300\<rparr>\<rparr>) \<and>
   fst (simIteration (single strikerBody) (radius strikerBody) (Num (1 / 60))
         (position strikerBody, velocity strikerBody)) =
     (\<lparr>px = Num (72299699 / 180000), py = Num 300\<rparr>, \<lparr>px = Num (299699 / 3000), py = Num 0\<rparr>)"
proof -
  have d: "radius discD = Num 10" "position discD = \<lparr>px = Num 25, py = Num 100\<rparr>"
    "velocity discD = \<lparr>px = Num 0, py = Num 0\<rparr>" "friction discD = Num 0.02"
    "restitution discD = Num 0.8"
    by (simp_all add: discD_def discA_def)
  have s: "radius strikerBody = Num 12" "position strikerBody = \<lparr>px = Num 400, py = Num 300\<rparr>"
    "velocity strikerBody = \<lparr>px = Num 100, py = Num 0\<rparr>"
    by (simp_all add: strikerBody_def)
  show ?thesis
    unfolding d s step_discD step_strikerBody sim_discD sim_strikerBody
    by (simp add: getBody_def simAxis_def)
qed

theorem simulateTrajectory_agrees_with_step_witness:
  "step (single coinBody) (Num (1 / 60)) =
     (single coinBody
        \<lparr>bodies := [(''coin'',
            coinBody\<lparr>position := \<lparr>px = Num (72299699 / 180000), py = Num 300\<rparr>,
                      velocity := \<lparr>px = Num (299699 / 3000), py = Num 0\<rparr>\<rparr>)]\<rparr>, []) \<and>
   fst (simIteration (single coinBody) (Num 8) (Num (1 / 60))
         (position coinBody, velocity coinBody)) =
     (\<lparr>px = Num (72299699 / 180000), py = Num 300\<rparr>, \<lparr>px = Num (299699 / 3000), py = Num 0\<rparr>)"
proof -
  have c: "bodies (single coinBody) = [(''coin'', coinBody)]" "\<not> isStatic coinBody"
    "friction coinBody = Num 0.02" "restitution coinBody = Num 0.8"
    "position coinBody = \<lparr>px = Num 400, py = Num 300\<rparr>"
    "velocity coinBody = \<lparr>px = Num 100, py = Num 0\<rparr>" "radius coinBody = Num 8"
    by (simp_all add: single_simps coinBody_def)
  have fast: "0.1 < sqrt ((0.999 * 100)\<^sup>2 + (0.999 * 0)\<^sup>2 :: real)"
    by simp
  have sim: "fst (simIteration (single coinBody) (Num 8) (Num (1 / 60))
         (position coinBody, velocity coinBody)) =
     (\<lparr>px = Num (72299699 / 180000), py = Num 300\<rparr>, \<lparr>px = Num (299699 / 3000), py = Num 0\<rparr>)"
    unfolding c sim_strikerBody by (simp add: simAxis_def)
  from simulateTrajectory_agrees_with_step [OF c single_simps(2,3) _ _ fast, of "1 / 60"] sim
  show ?thesis by simp
qed

section \<open>Properties of the geometry kernel\<close>

lemma solve_t:
  fixes x1 :: real
  assumes "x1 + t * (x2 - x1) = x3 + u * (x4 - x3)" "y1 + t * (y2 - y1) = y3 + u * (y4 - y3)"
  shows "t * ((x1 - x2) * (y3 - y4) - (y1 - y2) * (x3 - x4)) = (x1 - x3) * (y3 - y4) - (y1 - y3) * (x3 - x4)"
proof -
  have a: "t * (x2 - x1) = x3 - x1 + u * (x4 - x3)" "t * (y2 - y1) = y3 - y1 + u * (y4 - y3)"
    using assms by simp_all
  have "t * ((x1 - x2) * (y3 - y4) - (y1 - y2) * (x3 - x4)) =
        (t * (x2 - x1)) * (y4 - y3) - (t * (y2 - y1)) * (x4 - x3)"
    by (simp add: algebra_simps)
  also have "\<dots> = (x1 - x3) * (y3 - y4) - (y1 - y3) * (x3 - x4)"
    unfolding a by (simp add: algebra_simps)
  finally show ?thesis .
qed

lemma solve_u:
  fixes x1 :: real
  assumes "x1 + t * (x2 - x1) = x3 + u * (x4 - x3)" "y1 + t * (y2 - y1) = y3 + u * (y4 - y3)"
  shows "u * ((x1 - x2) * (y3 - y4) - (y1 - y2) * (x3 - x4)) = - ((x1 - x2) * (y1 - y3) - (y1 - y2) * (x1 - x3))"
proof -
  have a: "u * (x4 - x3) = x1 - x3 + t * (x2 - x1)" "u * (y4 - y3) = y1 - y3 + t * (y2 - y1)"
    using assms by simp_all
  have "u * ((x1 - x2) * (y3 - y4) - (y1 - y2) * (x3 - x4)) =
        (u * (y4 - y3)) * (x2 - x1) - (u * (x4 - x3)) * (y2 - y1)"
    by (simp add: algebra_simps)
  also have "\<dots> = - ((x1 - x2) * (y1 - y3) - (y1 - y2) * (x1 - x3))"
    unfolding a by (simp add: algebra_simps)
  finally show ?thesis .
qed

lemma meet_x:
  fixes x1 :: real
  assumes "d = (x1 - x2) * (y3 - y4) - (y1 - y2) * (x3 - x4)" "d \<noteq> 0"
  shows "x1 + ((x1 - x3) * (y3 - y4) - (y1 - y3) * (x3 - x4)) / d * (x2 - x1) =
         x3 + (- ((x1 - x2) * (y1 - y3) - (y1 - y2) * (x1 - x3)) / d) * (x4 - x3)"
  using assms(2) unfolding assms(1) by (simp add: field_simps)


lemma meet_y:
  fixes x1 :: real
  assumes "d = (x1 - x2) * (y3 - y4) - (y1 - y2) * (x3 - x4)" "d \<noteq> 0"
  shows "y1 + ((x1 - x3) * (y3 - y4) - (y1 - y3) * (x3 - x4)) / d * (y2 - y1) =
         y3 + (- ((x1 - x2) * (y1 - y3) - (y1 - y2) * (x1 - x3)) / d) * (y4 - y3)"
  using assms(2) unfolding assms(1) by (simp add: field_simps)

lemma lineIntersection_unfold:
  "lineIntersection l1 l2 =
     (if \<bar>determinant l1 l2\<bar> < 1 / 10 ^ 10 then None
      else if inUnit (paramT l1 l2) \<and> inUnit (paramU l1 l2)
           then Some (pointAt l1 (paramT l1 l2)) else None)"
  unfolding paramT_def paramU_def determinant_def inUnit_def
  by (simp only: lineIntersection_def Let_def pointAt_def conj_assoc)

lemma params_meet:
  assumes "determinant l1 l2 \<noteq> 0"
  shows "pointAt l1 (paramT l1 l2) = pointAt l2 (paramU l1 l2)"
  unfolding pointAt_def paramT_def paramU_def
  using meet_x [OF determinant_def assms] meet_y [OF determinant_def assms]
  by (simp only:)

lemma params_unique:
  assumes nz: "determinant l1 l2 \<noteq> 0" and m: "pointAt l1 t = pointAt l2 u"
  shows "t = paramT l1 l2 \<and> u = paramU l1 l2"
proof -
  from m have e:
    "px (lstart l1) + t * (px (lend l1) - px (lstart l1)) =
     px (lstart l2) + u * (px (lend l2) - px (lstart l2))"
    "py (lstart l1) + t * (py (lend l1) - py (lstart l1)) =
     py (lstart l2) + u * (py (lend l2) - py (lstart l2))"
    by (simp_all add: pointAt_def)
  have c: "n / determinant l1 l2 * determinant l1 l2 = n" for n
    using nz by simp
  have "t * determinant l1 l2 = paramT l1 l2 * determinant l1 l2"
    unfolding paramT_def c unfolding determinant_def by (rule solve_t [OF e])
  moreover have "u * determinant l1 l2 = paramU l1 l2 * determinant l1 l2"
    unfolding paramU_def c unfolding determinant_def by (rule solve_u [OF e])
  ultimately show ?thesis using nz by simp
qed

text \<open>
  C9.  \<open>lineIntersection\<close> returns nothing when the magnitude of the determinant is below
  \<open>1e-10\<close> or when a solved parameter is outside \<open>[0, 1]\<close>; otherwise it returns the point
  of the first segment at \<open>t\<close>.  When the determinant is not zero, \<open>t\<close> and \<open>u\<close> are the one
  solution of \<open>start1 + t * (end1 - start1) = start2 + u * (end2 - start2)\<close>: the point
  returned lies on both segments.
\<close>

theorem lineIntersection_correct:
  "lineIntersection l1 l2 =
     (if \<bar>determinant l1 l2\<bar> < 1 / 10 ^ 10 \<or> \<not> inUnit (paramT l1 l2) \<or> \<not> inUnit (paramU l1 l2)
      then None else Some (pointAt l1 (paramT l1 l2))) \<and>
   (determinant l1 l2 \<noteq> 0 \<longrightarrow>
      pointAt l1 (paramT l1 l2) = pointAt l2 (paramU l1 l2) \<and>
      (\<forall>t u. pointAt l1 t = pointAt l2 u \<longrightarrow> t = paramT l1 l2 \<and> u = paramU l1 l2))"
  using params_meet [of l1 l2] params_unique [of l1 l2]
  by (simp only: lineIntersection_unfold) auto

theorem lineIntersection_correct_witness:
  "determinant diagonalUp diagonalDown = - 8 \<and>
   paramT diagonalUp diagonalDown = 1 / 2 \<and> paramU diagonalUp diagonalDown = 1 / 2 \<and>
   lineIntersection diagonalUp diagonalDown = Some \<lparr>px = 1, py = 1\<rparr> \<and>
   pointAt diagonalDown (1 / 2) = \<lparr>px = 1, py = 1\<rparr> \<and>
   lineIntersection diagonalUp diagonalUp = None"
proof -
  have d: "determinant diagonalUp diagonalDown = - 8" "determinant diagonalUp diagonalUp = 0"
    by (simp_all add: determinant_def diagonalUp_def diagonalDown_def)
  have p: "paramT diagonalUp diagonalDown = 1 / 2" "paramU diagonalUp diagonalDown = 1 / 2"
    unfolding paramT_def paramU_def d by (simp_all add: diagonalUp_def diagonalDown_def)
  from lineIntersection_correct [of diagonalUp diagonalDown]
    lineIntersection_correct [of diagonalUp diagonalUp]
  show ?thesis
    unfolding d p by (simp add: inUnit_def pointAt_def diagonalUp_def diagonalDown_def)
qed

section \<open>Properties of the shot planner\<close>

subsection \<open>The kernel on finite numbers and on \<open>NaN\<close>\<close>

text \<open>
  On finite arguments \<open>distance\<close>, \<open>angle\<close> and \<open>normalizeAngle\<close> compute what their
  counterparts on the reals do.  An angle is never infinite, so \<open>normalizeAngle\<close> returns on
  every angle and on every angle plus \<open>\<pi>\<close>.
\<close>

lemma toNum_sel [simp]: "px (toNum p) = Num (px p)" "py (toNum p) = Num (py p)"
  by (simp_all add: toNum_def)

lemma finiteVec_toNum: "finiteVec v \<longleftrightarrow> (\<exists>p. v = toNum p)"
proof
  assume "finiteVec v"
  then obtain a b where "v = \<lparr>px = Num a, py = Num b\<rparr>" by (auto simp add: finiteVec_iff)
  then have "v = toNum \<lparr>px = a, py = b\<rparr>" by (simp add: toNum_def)
  then show "\<exists>p. v = toNum p" ..
next
  assume "\<exists>p. v = toNum p"
  then show "finiteVec v" by (auto simp add: finiteVec_def)
qed

lemma distance_toNum: "distance (toNum p) (toNum q) = Num (distanceR p q)"
proof -
  have "\<not> (px q - px p) * (px q - px p) + (py q - py p) * (py q - py p) < 0"
    by (simp add: not_less)
  then show ?thesis
    by (simp add: distance_def distanceR_def nsub_def Let_def)
qed

lemma angle_toNum: "angle (toNum p) (toNum q) = Num (angleR p q)"
  by (simp add: angle_def angleR_def nsub_def)

lemma normalizeUp_Num: "normalizeUp (Num a) = Some (Num (normalizeUpR a))"
proof (induction a rule: normalizeUpR.induct)
  case (1 a)
  then show ?case
    by (subst normalizeUp.simps, subst normalizeUpR.simps) simp
qed

lemma normalizeDown_Num: "normalizeDown (Num a) = Some (Num (normalizeDownR a))"
proof (induction a rule: normalizeDownR.induct)
  case (1 a)
  then show ?case
    by (subst normalizeDown.simps, subst normalizeDownR.simps) (simp add: nge_def nsub_def)
qed

lemma normalizeAngle_Num: "normalizeAngle (Num a) = Some (Num (normalizeAngleR a))"
  by (simp add: normalizeAngle_def normalizeAngleR_def normalizeUp_Num normalizeDown_Num)

lemma normalizeAngle_NaN: "normalizeAngle NaN = Some NaN"
  by (simp add: normalizeAngle_def normalizeUp.simps normalizeDown.simps nge_def)

lemma notInfinite_cases: "notInfinite a \<longleftrightarrow> a = NaN \<or> (\<exists>r. a = Num r)"
  by (cases a) auto

lemma natan2_notInfinite: "notInfinite (natan2 y x)"
  by (cases y; cases x) auto

lemma angle_notInfinite: "notInfinite (angle p q)"
  by (simp add: angle_def natan2_notInfinite)

lemma nadd_notInfinite: "notInfinite a \<Longrightarrow> notInfinite (nadd a (Num b))"
  by (cases a) auto

lemma normalizeAngle_returns:
  assumes "notInfinite a"
  shows "\<exists>b. normalizeAngle a = Some b \<and> notInfinite b"
  using assms by (auto simp add: notInfinite_cases normalizeAngle_Num normalizeAngle_NaN)


subsection \<open>The path query returns\<close>

text \<open>
  \<open>isPathClear\<close> returns unless the number of its steps is infinite, which takes a
  coordinate that is.
\<close>

lemma pathLoop_Num: "\<exists>b. pathLoop blocked (Num s) i = Some b"
proof (induction "nat (\<lfloor>s\<rfloor> + 1) - i" arbitrary: i)
  case 0
  then have "\<not> real i \<le> s"
    by linarith
  then show ?case by (subst pathLoop.simps) auto
next
  case (Suc n)
  then have "n = nat (\<lfloor>s\<rfloor> + 1) - Suc i" by simp
  from Suc(1) [OF this] obtain b where "pathLoop blocked (Num s) (Suc i) = Some b" ..
  then show ?case by (subst pathLoop.simps) auto
qed

lemma pathLoop_returns:
  assumes "steps \<noteq> PInf"
  shows "\<exists>b. pathLoop blocked steps i = Some b"
proof (cases steps)
  case (Num s)
  then show ?thesis by (simp add: pathLoop_Num)
next
  case NaN
  then show ?thesis by (subst pathLoop.simps) auto
next
  case PInf
  with assms show ?thesis by simp
next
  case NInf
  then show ?thesis by (subst pathLoop.simps) auto
qed

lemma nsub_notInfinite: "notInfinite a \<Longrightarrow> notInfinite b \<Longrightarrow> notInfinite (nsub a b)"
  by (cases a; cases b) (auto simp add: nsub_def)

lemma nsquare_notInfinite: "notInfinite a \<Longrightarrow> notInfinite (nmul a a)"
  by (cases a) auto

lemma nadd_notInfinite2: "notInfinite a \<Longrightarrow> notInfinite b \<Longrightarrow> notInfinite (nadd a b)"
  by (cases a; cases b) auto

lemma nsqrt_notInfinite: "notInfinite a \<Longrightarrow> notInfinite (nsqrt a)"
  by (cases a) auto

lemma distance_notInfinite:
  assumes "notInfiniteVec p" "notInfiniteVec q"
  shows "notInfinite (distance p q)"
  using assms unfolding distance_def Let_def notInfiniteVec_def
  by (intro nsqrt_notInfinite nadd_notInfinite2 nsquare_notInfinite nsub_notInfinite) simp_all

lemma isPathClear_returns:
  assumes "notInfiniteVec s" "notInfiniteVec t"
  shows "\<exists>b. isPathClear e s t ex buf = Some b"
proof -
  have "notInfinite (distance s t)" using assms by (rule distance_notInfinite)
  then have "nceil (ndiv (distance s t) (Num 2)) \<noteq> PInf"
    by (cases "distance s t") auto
  then show ?thesis
    unfolding isPathClear_def Let_def by (rule pathLoop_returns)
qed

subsection \<open>Probabilities\<close>

text \<open>The clamp keeps every number within \<open>[0.05, 0.95]\<close> and passes \<open>NaN\<close> on.\<close>

lemma nmax_Num [simp]: "nmax (Num a) (Num b) = Num (max a b)"
  by (simp add: max_def)

lemma clamp_Num:
  "nmax (Num 0.05) (nmin (Num 0.95) (Num x)) = Num (max 0.05 (min 0.95 x))"
  by simp

lemma clamp_range: "0.05 \<le> max 0.05 (min 0.95 x) \<and> max 0.05 (min 0.95 x) \<le> (0.95 :: real)"
  by simp

lemma clamp_cases:
  "nmax (Num 0.05) (nmin (Num 0.95) x) = NaN \<or>
   (\<exists>r. nmax (Num 0.05) (nmin (Num 0.95) x) = Num r \<and> 0.05 \<le> r \<and> r \<le> 0.95)"
proof (cases x)
  case (Num a)
  show ?thesis unfolding Num clamp_Num using clamp_range [of a] by blast
next
  case NaN
  then show ?thesis by simp
next
  case PInf
  have "nmax (Num 0.05) (nmin (Num 0.95) PInf) = Num 0.95" by simp
  then show ?thesis unfolding PInf by (intro disjI2 exI [of _ "0.95"]) simp
next
  case NInf
  have "nmax (Num 0.05) (nmin (Num 0.95) NInf) = Num 0.05" by simp
  then show ?thesis unfolding NInf by (intro disjI2 exI [of _ "0.05"]) simp
qed

lemma calculateShotProbability_range:
  assumes "calculateShotProbability ai sp tp pp k gs = Some p"
  shows "p = NaN \<or> (\<exists>r. p = Num r \<and> 0.05 \<le> r \<and> r \<le> 0.95)"
proof -
  from assms obtain x where "p = nmax (Num 0.05) (nmin (Num 0.95) x)"
    unfolding calculateShotProbability_def Let_def
    by (auto split: bind_splits)
  then show ?thesis using clamp_cases [of x] by simp
qed

lemma calculateShotProbability_returns:
  assumes "notInfiniteVec sp" "notInfiniteVec tp"
  shows "\<exists>p. calculateShotProbability ai sp tp pp k gs = Some p"
proof -
  obtain n1 where n1: "normalizeAngle (nadd (angle tp pp) (Num pi)) = Some n1"
    using normalizeAngle_returns [OF nadd_notInfinite [OF angle_notInfinite]] by blast
  obtain n2 where n2: "normalizeAngle (angle sp tp) = Some n2"
    using normalizeAngle_returns [OF angle_notInfinite] by blast
  obtain b where b: "isPathClear (physicsEngine ai) sp tp [] (Num 2) = Some b"
    using isPathClear_returns [OF assms] by blast
  show ?thesis
    unfolding calculateShotProbability_def Let_def n1 n2 b by simp
qed

lemma calculateShotProbability_toNum:
  assumes b: "isPathClear (physicsEngine ai) (toNum s) (toNum t) [] (Num 2) = Some b"
    and m: "accuracyMultiplier ai = Num m"
    and d: "d = max 0.1 (1 - distanceR s t / 400)"
    and a: "a = max 0.1 (1 - \<bar>normalizeAngleR (angleR t q + pi) - normalizeAngleR (angleR s t)\<bar> / pi)"
  shows "calculateShotProbability ai (toNum s) (toNum t) (toNum q) k gs =
     Some (Num (max 0.05 (min 0.95
       (0.8 * d * a * (case k of Direct \<Rightarrow> 1.0 | Bank \<Rightarrow> 0.7 | Carom \<Rightarrow> 0.5 | Combination \<Rightarrow> 1) *
        (if b then 1 else 0.6) * m))))"
proof -
  have df: "nmax (Num 0.1) (nsub (Num 1) (ndiv (distance (toNum s) (toNum t)) (Num 400))) = Num d"
    by (simp add: distance_toNum nsub_def d)
  have n1: "normalizeAngle (nadd (angle (toNum t) (toNum q)) (Num pi)) =
      Some (Num (normalizeAngleR (angleR t q + pi)))"
    by (simp add: angle_toNum normalizeAngle_Num)
  have n2: "normalizeAngle (angle (toNum s) (toNum t)) = Some (Num (normalizeAngleR (angleR s t)))"
    by (simp add: angle_toNum normalizeAngle_Num)
  have af: "nmax (Num 0.1) (nsub (Num 1)
      (ndiv (nabs (nsub (Num (normalizeAngleR (angleR t q + pi))) (Num (normalizeAngleR (angleR s t)))))
         (Num pi))) = Num a"
    by (simp add: nsub_def a)
  show ?thesis
    unfolding calculateShotProbability_def Let_def n1 n2 b m df bind.bind_lunit af
    by (cases k; cases b)
      (simp_all only: nmul.simps nmin_Num nmax_Num ShotType.case if_True if_False
         not_True_eq_False not_False_eq_True mult_1_right mult_1)
qed

lemma calculateShotProbability_finite:
  assumes "finiteVec sp" "finiteVec tp" "finiteVec pp" "isFinite (accuracyMultiplier ai)"
  shows "\<exists>r. calculateShotProbability ai sp tp pp k gs = Some (Num r) \<and> 0.05 \<le> r \<and> r \<le> 0.95"
proof -
  obtain s t q where v: "sp = toNum s" "tp = toNum t" "pp = toNum q"
    using assms(1-3) by (auto simp add: finiteVec_toNum)
  obtain m where m: "accuracyMultiplier ai = Num m"
    using assms(4) by (auto simp add: isFinite_iff)
  have "notInfiniteVec (toNum s)" "notInfiniteVec (toNum t)"
    by (simp_all add: notInfiniteVec_def)
  then obtain b where b: "isPathClear (physicsEngine ai) (toNum s) (toNum t) [] (Num 2) = Some b"
    using isPathClear_returns by blast
  show ?thesis
    unfolding v calculateShotProbability_toNum [OF b m refl refl]
    using clamp_range by blast
qed


subsection \<open>Loops that collect\<close>

lemma collect_returns:
  "(\<And>x. x \<in> set xs \<Longrightarrow> \<exists>ys. f x = Some ys) \<Longrightarrow> \<exists>r. collect f xs = Some r"
proof (induction xs)
  case Nil
  then show ?case by simp
next
  case (Cons x xs)
  obtain ys where "f x = Some ys" using Cons.prems by force
  moreover obtain r where "collect f xs = Some r" using Cons by force
  ultimately show ?case by simp
qed

lemma collect_mem:
  "collect f xs = Some r \<Longrightarrow> s \<in> set r \<Longrightarrow> \<exists>x \<in> set xs. \<exists>ys. f x = Some ys \<and> s \<in> set ys"
proof (induction xs arbitrary: r)
  case Nil
  then show ?case by simp
next
  case (Cons x xs)
  from Cons.prems(1) obtain ys zs where p: "f x = Some ys" "collect f xs = Some zs" "r = ys @ zs"
    by (auto split: bind_splits)
  with Cons.prems(2) have "s \<in> set ys \<or> s \<in> set zs" by simp
  then show ?case
  proof
    assume "s \<in> set ys"
    with p(1) show ?thesis by auto
  next
    assume "s \<in> set zs"
    from Cons.IH [OF p(2) this] show ?thesis by auto
  qed
qed

lemma collect_sub:
  "collect f xs = Some r \<Longrightarrow> x \<in> set xs \<Longrightarrow> \<exists>ys. f x = Some ys \<and> set ys \<subseteq> set r"
proof (induction xs arbitrary: r)
  case Nil
  then show ?case by simp
next
  case (Cons y xs)
  from Cons.prems(1) obtain ys zs where p: "f y = Some ys" "collect f xs = Some zs" "r = ys @ zs"
    by (auto split: bind_splits)
  show ?case
  proof (cases "x = y")
    case True
    with p show ?thesis by auto
  next
    case False
    with Cons.prems(2) have "x \<in> set xs" by simp
    from Cons.IH [OF p(2) this] p(3) show ?thesis by auto
  qed
qed

subsection \<open>Candidates\<close>

lemma directShotAt_shot:
  assumes "directShotAt ai t p gs sp = Some r" "s \<in> set r"
  shows "shotType s = Direct \<and> targetCoin s = bid t \<and> targetPocket s = p \<and>
         strikerPosition s = sp \<and> shotAngle s = angle sp (position t) \<and>
         clearsTolerance (Num (pi / 6)) (angle sp (position t))
           (nadd (angle (position t) (pocketPosition p)) (Num pi)) \<and>
         calculateShotProbability ai sp (position t) (pocketPosition p) Direct gs =
           Some (successProbability s)"
  using assms
  by (auto simp add: directShotAt_def clearsTolerance_def Let_def split: bind_splits if_splits)

lemma bankShotAt_shot:
  assumes "bankShotAt ai t p gs sp w = Some r" "s \<in> set r"
  shows "\<exists>bp pr. calculateBankPoint ai (position t) (pocketPosition p) w = Some bp \<and>
         shotType s = Bank \<and> targetCoin s = bid t \<and> targetPocket s = p \<and>
         strikerPosition s = sp \<and> shotAngle s = angle sp bp \<and> bankPoints s = Some [bp] \<and>
         calculateShotProbability ai sp (position t) (pocketPosition p) Bank gs = Some pr \<and>
         successProbability s = nmul pr (Num 0.8)"
proof (cases "calculateBankPoint ai (position t) (pocketPosition p) w")
  case None
  with assms show ?thesis by (simp add: bankShotAt_def)
next
  case (Some bp)
  with assms show ?thesis
    by (intro exI [of _ bp]) (auto simp add: bankShotAt_def Let_def split: bind_splits)
qed

lemma caromShotAt_shot:
  assumes "caromShotAt ai t p gs sp c = Some r" "s \<in> set r"
  shows "\<exists>pr. shotType s = Carom \<and> targetCoin s = bid t \<and> targetPocket s = p \<and>
         strikerPosition s = sp \<and> shotAngle s = angle sp (position c) \<and>
         clearsTolerance (Num (pi / 4)) (angle (position c) (position t))
           (nadd (angle (position t) (pocketPosition p)) (Num pi)) \<and>
         calculateShotProbability ai sp (position t) (pocketPosition p) Carom gs = Some pr \<and>
         successProbability s = nmul pr (Num 0.6)"
  using assms
  by (auto simp add: caromShotAt_def clearsTolerance_def Let_def split: bind_splits if_splits)

subsection \<open>The start area\<close>

lemma strikerXs_Num: "strikerXs (Num x) (Num hi) = Some (map Num (strikerXsR x hi))"
proof (induction x hi rule: strikerXsR.induct)
  case (1 x hi)
  then show ?case
    by (subst strikerXs.simps, subst strikerXsR.simps) simp
qed

lemma strikerXsR_nonempty: "x \<le> hi \<Longrightarrow> strikerXsR x hi \<noteq> []"
  by (subst strikerXsR.simps) simp

lemma getStrikerStartArea_Num:
  assumes "aiBoardWidth ai = Num w" "aiBoardHeight ai = Num h"
  shows "getStrikerStartArea ai =
         Some (map (\<lambda>x. toNum \<lparr>px = x, py = h - 40\<rparr>) (strikerXsR (w / 2 - 60) (w / 2 + 60)))"
  by (simp add: getStrikerStartArea_def assms Let_def nsub_def strikerXs_Num toNum_def comp_def)

lemma getStrikerStartArea_finite:
  assumes "isFinite (aiBoardWidth ai)" "isFinite (aiBoardHeight ai)"
  shows "\<exists>area. getStrikerStartArea ai = Some area \<and> area \<noteq> [] \<and>
           (\<forall>sp \<in> set area. finiteVec sp)"
proof -
  obtain w h where d: "aiBoardWidth ai = Num w" "aiBoardHeight ai = Num h"
    using assms by (auto simp add: isFinite_iff)
  have "strikerXsR (w / 2 - 60) (w / 2 + 60) \<noteq> []"
    by (rule strikerXsR_nonempty) simp
  then show ?thesis
    unfolding getStrikerStartArea_Num [OF d] by (auto simp add: finiteVec_toNum)
qed

subsection \<open>Sorting and ranking\<close>

lemma set_insertBy: "set (insertBy cmp x ys) = insert x (set ys)"
  by (induction ys) auto

lemma length_insertBy: "length (insertBy cmp x ys) = Suc (length ys)"
  by (induction ys) auto

lemma set_sortBy: "set (sortBy cmp xs) = set xs"
  by (induction xs) (simp_all add: sortBy_def set_insertBy)

lemma length_sortBy: "length (sortBy cmp xs) = length xs"
  by (induction xs) (simp_all add: sortBy_def length_insertBy)

lemma set_rankShots: "set (rankShots shots gs) \<subseteq> set shots"
  unfolding rankShots_def using set_take_subset [of 10 "sortBy (compareShots gs) shots"]
  by (simp only: set_sortBy)

lemma length_rankShots: "length (rankShots shots gs) = min (length shots) 10"
  by (simp add: rankShots_def length_sortBy)

lemma rankShots_nonempty: "shots \<noteq> [] \<Longrightarrow> rankShots shots gs \<noteq> []"
  using length_rankShots [of shots gs] by (cases shots) auto

subsection \<open>Where a candidate comes from\<close>

lemma generated_cases:
  assumes "generateShots ai gs area = Some generated" "s \<in> set generated"
  shows "\<exists>t \<in> set (getTargetCoins ai gs). \<exists>p \<in> set (aiPockets ai). \<exists>sp \<in> set area.
           (\<exists>r. directShotAt ai t p gs sp = Some r \<and> s \<in> set r) \<or>
           (\<exists>w \<in> set (getBoardWalls ai). \<exists>r. bankShotAt ai t p gs sp w = Some r \<and> s \<in> set r) \<or>
           (\<exists>c \<in> set (playerCoins gs @ opponentCoins gs). bid c \<noteq> bid t \<and>
              (\<exists>r. caromShotAt ai t p gs sp c = Some r \<and> s \<in> set r))"
proof -
  from collect_mem [OF assms [unfolded generateShots_def]]
  obtain t r1 where t: "t \<in> set (getTargetCoins ai gs)"
    and r1: "collect (shotsFor ai gs area t) (aiPockets ai) = Some r1" "s \<in> set r1"
    by blast
  from collect_mem [OF r1] obtain p r2 where p: "p \<in> set (aiPockets ai)"
    and r2: "shotsFor ai gs area t p = Some r2" "s \<in> set r2"
    by blast
  from r2 obtain ds bs cs where
    ds: "calculateDirectShots ai t p area gs = Some ds"
    and bs: "calculateBankShots ai t p area gs = Some bs"
    and cs: "calculateCaromShots ai t p area gs = Some cs"
    and s: "s \<in> set ds \<or> s \<in> set bs \<or> s \<in> set cs"
    unfolding shotsFor_def by (auto split: bind_splits)
  from s show ?thesis
  proof (elim disjE)
    assume "s \<in> set ds"
    from collect_mem [OF ds [unfolded calculateDirectShots_def] this] t p
    show ?thesis by blast
  next
    assume "s \<in> set bs"
    from collect_mem [OF bs [unfolded calculateBankShots_def] this]
    obtain sp r3 where sp: "sp \<in> set area"
      and r3: "collect (bankShotAt ai t p gs sp) (getBoardWalls ai) = Some r3" "s \<in> set r3"
      by blast
    from collect_mem [OF r3] sp t p show ?thesis by blast
  next
    assume "s \<in> set cs"
    from collect_mem [OF cs [unfolded calculateCaromShots_def Let_def] this]
    obtain sp r3 where sp: "sp \<in> set area"
      and r3: "collect (caromShotAt ai t p gs sp)
                 (filter (\<lambda>coin. bid coin \<noteq> bid t \<and> \<not> isCoinPocketed ai coin)
                    (playerCoins gs @ opponentCoins gs)) = Some r3" "s \<in> set r3"
      by blast
    from collect_mem [OF r3] obtain c r4 where
      "c \<in> set (playerCoins gs @ opponentCoins gs)" "bid c \<noteq> bid t"
      "caromShotAt ai t p gs sp c = Some r4" "s \<in> set r4"
      by auto
    with sp t p show ?thesis by blast
  qed
qed

lemma generated_elim:
  assumes "generateShots ai gs area = Some generated" "s \<in> set generated"
  obtains (direct) t p sp r where "t \<in> set (getTargetCoins ai gs)" "p \<in> set (aiPockets ai)"
      "sp \<in> set area" "directShotAt ai t p gs sp = Some r" "s \<in> set r"
  | (bank) t p sp w r where "t \<in> set (getTargetCoins ai gs)" "p \<in> set (aiPockets ai)"
      "sp \<in> set area" "w \<in> set (getBoardWalls ai)" "bankShotAt ai t p gs sp w = Some r"
      "s \<in> set r"
  | (carom) t p sp c r where "t \<in> set (getTargetCoins ai gs)" "p \<in> set (aiPockets ai)"
      "sp \<in> set area" "c \<in> set (playerCoins gs @ opponentCoins gs)" "bid c \<noteq> bid t"
      "caromShotAt ai t p gs sp c = Some r" "s \<in> set r"
  using generated_cases [OF assms] by blast

lemma analyzeShot_Some:
  assumes "analyzeShot ai gs = Some shots"
  shows "\<exists>area generated. getStrikerStartArea ai = Some area \<and>
           generateShots ai gs area = Some generated \<and> shots = rankShots generated gs"
  using assms unfolding analyzeShot_def by (auto split: bind_splits)

lemma getBestShot_mem:
  assumes "getBestShot ai gs = Some (Some s)"
  shows "\<exists>shots. analyzeShot ai gs = Some shots \<and> s \<in> set shots"
proof (cases "analyzeShot ai gs")
  case None
  with assms show ?thesis by (simp add: getBestShot_def)
next
  case (Some shots)
  with assms show ?thesis by (cases shots) (simp_all add: getBestShot_def)
qed

lemma set_sliceTo: "set (sliceTo n xs) \<subseteq> set xs"
  by (cases n) (auto simp add: sliceTo_def Let_def dest: in_set_takeD)

lemma getShotOptions_mem:
  assumes "getShotOptions ai gs n = Some shots" "s \<in> set shots"
  shows "\<exists>ranked. analyzeShot ai gs = Some ranked \<and> s \<in> set ranked"
proof -
  from assms(1) obtain ranked where r: "analyzeShot ai gs = Some ranked" "shots = sliceTo n ranked"
    by (auto simp add: getShotOptions_def)
  with assms(2) set_sliceTo [of n ranked] show ?thesis by auto
qed

lemma returned_generated:
  assumes "(analyzeShot ai gs = Some shots \<and> s \<in> set shots) \<or> getBestShot ai gs = Some (Some s) \<or>
           (getShotOptions ai gs n = Some shots \<and> s \<in> set shots)"
  shows "\<exists>area generated. getStrikerStartArea ai = Some area \<and>
           generateShots ai gs area = Some generated \<and> s \<in> set generated"
proof -
  from assms obtain ranked where r: "analyzeShot ai gs = Some ranked" "s \<in> set ranked"
    using getBestShot_mem getShotOptions_mem by blast
  from analyzeShot_Some [OF r(1)] r(2) set_rankShots show ?thesis by blast
qed

subsection \<open>The range of a success probability\<close>

lemma getTargetCoins_subset:
  "set (getTargetCoins ai gs) \<subseteq> set (playerCoins gs @ opponentCoins gs)"
  by (auto simp add: getTargetCoins_def)

lemma scaled_range:
  assumes "p = NaN \<or> (\<exists>r. p = Num r \<and> 0.05 \<le> r \<and> r \<le> 0.95)" "0 \<le> f"
  shows "nmul p (Num f) = NaN \<or>
         (\<exists>r. nmul p (Num f) = Num r \<and> 0.05 * f \<le> r \<and> r \<le> 0.95 * f)"
proof (cases p)
  case (Num r)
  with assms(1) have r: "0.05 \<le> r" "r \<le> 0.95" by simp_all
  from mult_right_mono [OF r(1) assms(2)] mult_right_mono [OF r(2) assms(2)]
  show ?thesis unfolding Num nmul.simps by blast
qed (use assms in simp_all)

lemma generated_probability:
  assumes "generateShots ai gs area = Some generated" "s \<in> set generated"
  shows "(shotType s = Direct \<or> shotType s = Bank \<or> shotType s = Carom) \<and>
         (successProbability s = NaN \<or> probabilityInRange s)"
proof -
  from generated_cases [OF assms] obtain t p sp where
    c: "(\<exists>r. directShotAt ai t p gs sp = Some r \<and> s \<in> set r) \<or>
        (\<exists>w \<in> set (getBoardWalls ai). \<exists>r. bankShotAt ai t p gs sp w = Some r \<and> s \<in> set r) \<or>
        (\<exists>c \<in> set (playerCoins gs @ opponentCoins gs). bid c \<noteq> bid t \<and>
           (\<exists>r. caromShotAt ai t p gs sp c = Some r \<and> s \<in> set r))"
    by blast
  then show ?thesis
  proof (elim disjE exE bexE conjE)
    fix r
    assume "directShotAt ai t p gs sp = Some r" "s \<in> set r"
    from directShotAt_shot [OF this] have k: "shotType s = Direct"
      and pr: "calculateShotProbability ai sp (position t) (pocketPosition p) Direct gs =
                 Some (successProbability s)"
      by simp_all
    from calculateShotProbability_range [OF pr] k show ?thesis
      by (auto simp add: probabilityInRange_def)
  next
    fix w r
    assume "bankShotAt ai t p gs sp w = Some r" "s \<in> set r"
    from bankShotAt_shot [OF this] obtain pr where k: "shotType s = Bank"
      and pr: "calculateShotProbability ai sp (position t) (pocketPosition p) Bank gs = Some pr"
      and e: "successProbability s = nmul pr (Num 0.8)"
      by blast
    from scaled_range [OF calculateShotProbability_range [OF pr], of "0.8"] k show ?thesis
      unfolding e [symmetric] by (auto simp add: probabilityInRange_def)
  next
    fix c r
    assume "caromShotAt ai t p gs sp c = Some r" "s \<in> set r"
    from caromShotAt_shot [OF this] obtain pr where k: "shotType s = Carom"
      and pr: "calculateShotProbability ai sp (position t) (pocketPosition p) Carom gs = Some pr"
      and e: "successProbability s = nmul pr (Num 0.6)"
      by blast
    from scaled_range [OF calculateShotProbability_range [OF pr], of "0.6"] k show ?thesis
      unfolding e [symmetric] by (auto simp add: probabilityInRange_def)
  qed
qed

lemma generated_probability_finite:
  assumes "generateShots ai gs area = Some generated" "s \<in> set generated"
    and "getStrikerStartArea ai = Some area"
    and "finitePlanner ai" "finiteCoins gs"
  shows "successProbability s \<noteq> NaN"
proof -
  from generated_cases [OF assms(1,2)] obtain t p sp where
    t: "t \<in> set (getTargetCoins ai gs)" and p: "p \<in> set (aiPockets ai)" and sp: "sp \<in> set area"
    and c: "(\<exists>r. directShotAt ai t p gs sp = Some r \<and> s \<in> set r) \<or>
        (\<exists>w \<in> set (getBoardWalls ai). \<exists>r. bankShotAt ai t p gs sp w = Some r \<and> s \<in> set r) \<or>
        (\<exists>c \<in> set (playerCoins gs @ opponentCoins gs). bid c \<noteq> bid t \<and>
           (\<exists>r. caromShotAt ai t p gs sp c = Some r \<and> s \<in> set r))"
    by blast
  have ft: "finiteVec (position t)"
    using t getTargetCoins_subset [of ai gs] assms(5)
    by (auto simp add: finiteCoins_def list_all_iff)
  have fp: "finiteVec (pocketPosition p)"
    using p assms(4) by (auto simp add: finitePlanner_def list_all_iff)
  have fs: "finiteVec sp"
    using getStrikerStartArea_finite [of ai] assms(3,4) sp by (auto simp add: finitePlanner_def)
  have fm: "isFinite (accuracyMultiplier ai)"
    using assms(4) by (simp add: finitePlanner_def)
  note fin = calculateShotProbability_finite [OF fs ft fp fm]
  from c show ?thesis
  proof (elim disjE exE bexE conjE)
    fix r
    assume "directShotAt ai t p gs sp = Some r" "s \<in> set r"
    from directShotAt_shot [OF this] fin [of Direct gs] show ?thesis by auto
  next
    fix w r
    assume "bankShotAt ai t p gs sp w = Some r" "s \<in> set r"
    from bankShotAt_shot [OF this] fin [of Bank gs] show ?thesis by auto
  next
    fix c r
    assume "caromShotAt ai t p gs sp c = Some r" "s \<in> set r"
    from caromShotAt_shot [OF this] fin [of Carom gs] show ?thesis by auto
  qed
qed

text \<open>
  C3, as the code has it.  \<open>calculateShotProbability\<close> clamps its result to
  \<open>[0.05, 0.95]\<close> with \<open>Math.max\<close> and \<open>Math.min\<close>, which pass \<open>NaN\<close> on; a bank candidate
  carries \<open>0.8\<close> times that result and a carom candidate \<open>0.6\<close> times it.  So every
  candidate that \<open>analyzeShot\<close>, \<open>getBestShot\<close> or \<open>getShotOptions\<close> returns is direct, bank
  or carom, and its success probability is never a number outside the range of its kind:
  \<open>[0.05, 0.95]\<close> when it is direct, \<open>[0.04, 0.76]\<close> when it is a bank shot and
  \<open>[0.03, 0.57]\<close> when it is a carom shot.  It is a number in that range when the board,
  the pockets and the accuracy of the planner and the positions of the coins of the
  snapshot are finite.
\<close>

theorem candidate_probability_bounds:
  assumes "(analyzeShot ai gs = Some shots \<and> s \<in> set shots) \<or>
           getBestShot ai gs = Some (Some s) \<or>
           (getShotOptions ai gs n = Some shots \<and> s \<in> set shots)"
  shows "(shotType s = Direct \<or> shotType s = Bank \<or> shotType s = Carom) \<and>
         (successProbability s = NaN \<or> probabilityInRange s) \<and>
         (finitePlanner ai \<and> finiteCoins gs \<longrightarrow> probabilityInRange s)"
proof -
  from returned_generated [OF assms] obtain area generated where
    g: "getStrikerStartArea ai = Some area" "generateShots ai gs area = Some generated"
       "s \<in> set generated"
    by blast
  from generated_probability [OF g(2,3)] generated_probability_finite [OF g(2,3,1)]
  show ?thesis by blast
qed

subsection \<open>There is always a candidate\<close>

text \<open>
  Every part of \<open>analyzeShot\<close> returns when the start positions are finite and no live
  target has an infinite coordinate, and every wall has a bank point.
\<close>

lemma finite_notInfiniteVec: "finiteVec v \<Longrightarrow> notInfiniteVec v"
  by (auto simp add: finiteVec_iff notInfiniteVec_def)

lemma directShotAt_returns:
  assumes "notInfiniteVec sp" "notInfiniteVec (position t)"
  shows "\<exists>r. directShotAt ai t p gs sp = Some r"
proof -
  obtain n1 where n1: "normalizeAngle (angle sp (position t)) = Some n1"
    using normalizeAngle_returns [OF angle_notInfinite] by blast
  obtain n2 where n2: "normalizeAngle (nadd (angle (position t) (pocketPosition p)) (Num pi)) = Some n2"
    using normalizeAngle_returns [OF nadd_notInfinite [OF angle_notInfinite]] by blast
  obtain pr where pr: "calculateShotProbability ai sp (position t) (pocketPosition p) Direct gs = Some pr"
    using calculateShotProbability_returns [OF assms] by blast
  show ?thesis
    unfolding directShotAt_def Let_def n1 n2 pr by simp
qed

lemma caromShotAt_returns:
  assumes "notInfiniteVec sp" "notInfiniteVec (position t)"
  shows "\<exists>r. caromShotAt ai t p gs sp c = Some r"
proof -
  obtain n1 where n1: "normalizeAngle (angle (position c) (position t)) = Some n1"
    using normalizeAngle_returns [OF angle_notInfinite] by blast
  obtain n2 where n2: "normalizeAngle (nadd (angle (position t) (pocketPosition p)) (Num pi)) = Some n2"
    using normalizeAngle_returns [OF nadd_notInfinite [OF angle_notInfinite]] by blast
  obtain pr where pr: "calculateShotProbability ai sp (position t) (pocketPosition p) Carom gs = Some pr"
    using calculateShotProbability_returns [OF assms] by blast
  show ?thesis
    unfolding caromShotAt_def Let_def n1 n2 pr by simp
qed

lemma calculateBankPoint_wall:
  assumes "wl \<in> set (getBoardWalls ai)"
  shows "\<exists>bp. calculateBankPoint ai c q wl = Some bp"
  using assms by (auto simp add: getBoardWalls_def calculateBankPoint_def Let_def)

lemma bankShotAt_returns:
  assumes "notInfiniteVec sp" "notInfiniteVec (position t)" "wl \<in> set (getBoardWalls ai)"
  shows "\<exists>s. bankShotAt ai t p gs sp wl = Some [s]"
proof -
  obtain bp where bp: "calculateBankPoint ai (position t) (pocketPosition p) wl = Some bp"
    using calculateBankPoint_wall [OF assms(3)] by blast
  obtain pr where pr: "calculateShotProbability ai sp (position t) (pocketPosition p) Bank gs = Some pr"
    using calculateShotProbability_returns [OF assms(1,2)] by blast
  show ?thesis
    unfolding bankShotAt_def Let_def bp pr by simp
qed

lemma shotsFor_returns:
  assumes "\<And>sp. sp \<in> set area \<Longrightarrow> notInfiniteVec sp" "notInfiniteVec (position t)"
  shows "\<exists>r. shotsFor ai gs area t p = Some r"
proof -
  have "\<exists>r. calculateDirectShots ai t p area gs = Some r"
    unfolding calculateDirectShots_def
    by (rule collect_returns) (rule directShotAt_returns [OF assms(1) assms(2)])
  moreover have "\<exists>r. calculateBankShots ai t p area gs = Some r"
    unfolding calculateBankShots_def
  proof (rule collect_returns)
    fix sp
    assume "sp \<in> set area"
    then have "notInfiniteVec sp" by (rule assms(1))
    then show "\<exists>ys. collect (bankShotAt ai t p gs sp) (getBoardWalls ai) = Some ys"
      using bankShotAt_returns [OF _ assms(2)] by (intro collect_returns) blast
  qed
  moreover have "\<exists>r. calculateCaromShots ai t p area gs = Some r"
    unfolding calculateCaromShots_def Let_def
  proof (rule collect_returns)
    fix sp
    assume "sp \<in> set area"
    then have "notInfiniteVec sp" by (rule assms(1))
    then show "\<exists>ys. collect (caromShotAt ai t p gs sp)
        (filter (\<lambda>coin. bid coin \<noteq> bid t \<and> \<not> isCoinPocketed ai coin)
           (playerCoins gs @ opponentCoins gs)) = Some ys"
      using caromShotAt_returns [OF _ assms(2)] by (intro collect_returns) blast
  qed
  ultimately show ?thesis
    unfolding shotsFor_def by auto
qed

lemma generateShots_returns:
  assumes "\<And>sp. sp \<in> set area \<Longrightarrow> notInfiniteVec sp"
    and "\<And>t. t \<in> set (getTargetCoins ai gs) \<Longrightarrow> notInfiniteVec (position t)"
  shows "\<exists>r. generateShots ai gs area = Some r"
  unfolding generateShots_def
proof (rule collect_returns)
  fix t
  assume "t \<in> set (getTargetCoins ai gs)"
  then have "notInfiniteVec (position t)" by (rule assms(2))
  then show "\<exists>ys. collect (shotsFor ai gs area t) (aiPockets ai) = Some ys"
    using shotsFor_returns [OF assms(1)] by (intro collect_returns) blast
qed

lemma generated_bank:
  assumes "generateShots ai gs area = Some generated"
    and "t \<in> set (getTargetCoins ai gs)" "p \<in> set (aiPockets ai)" "sp \<in> set area"
    and "wl \<in> set (getBoardWalls ai)"
  shows "\<exists>r. bankShotAt ai t p gs sp wl = Some r \<and> set r \<subseteq> set generated"
proof -
  from collect_sub [OF assms(1) [unfolded generateShots_def] assms(2)]
  obtain r1 where r1: "collect (shotsFor ai gs area t) (aiPockets ai) = Some r1"
    "set r1 \<subseteq> set generated" by blast
  from collect_sub [OF r1(1) assms(3)]
  obtain r2 where r2: "shotsFor ai gs area t p = Some r2" "set r2 \<subseteq> set r1" by blast
  from r2(1) obtain ds bs cs where bs: "calculateBankShots ai t p area gs = Some bs"
    and "r2 = ds @ bs @ cs"
    unfolding shotsFor_def by (auto split: bind_splits)
  then have "set bs \<subseteq> set r2" by auto
  note bs = bs this
  from collect_sub [OF bs(1) [unfolded calculateBankShots_def] assms(4)]
  obtain r3 where r3: "collect (bankShotAt ai t p gs sp) (getBoardWalls ai) = Some r3"
    "set r3 \<subseteq> set bs" by blast
  from collect_sub [OF r3(1) assms(5)]
  obtain r4 where "bankShotAt ai t p gs sp wl = Some r4" "set r4 \<subseteq> set r3" by blast
  with r1(2) r2(2) bs(2) r3(2) show ?thesis by blast
qed


lemma analyzeShot_returns:
  assumes "aiBoardWidth ai = Num w" "aiBoardHeight ai = Num h"
    and "list_all (\<lambda>c. notInfiniteVec (position c)) (getTargetCoins ai gs)"
  shows "\<exists>area generated.
           getStrikerStartArea ai = Some area \<and> area \<noteq> [] \<and> (\<forall>sp \<in> set area. finiteVec sp) \<and>
           generateShots ai gs area = Some generated \<and>
           analyzeShot ai gs = Some (rankShots generated gs)"
proof -
  from getStrikerStartArea_finite [of ai] assms(1,2)
  obtain area where a: "getStrikerStartArea ai = Some area" "area \<noteq> []"
    "\<forall>sp \<in> set area. finiteVec sp"
    by auto
  have "\<exists>r. generateShots ai gs area = Some r"
  proof (rule generateShots_returns)
    fix sp
    assume "sp \<in> set area"
    with a(3) show "notInfiniteVec sp" by (simp add: finite_notInfiniteVec)
  next
    fix t
    assume "t \<in> set (getTargetCoins ai gs)"
    with assms(3) show "notInfiniteVec (position t)" by (simp add: list_all_iff)
  qed
  then obtain generated where g: "generateShots ai gs area = Some generated" ..
  have "analyzeShot ai gs = Some (rankShots generated gs)"
    by (simp add: analyzeShot_def a(1) g)
  with a g show ?thesis by blast
qed

lemma generated_bank_single:
  assumes "generateShots ai gs area = Some generated"
    and "t \<in> set (getTargetCoins ai gs)" "p \<in> set (aiPockets ai)" "sp \<in> set area"
    and "wl \<in> set (getBoardWalls ai)"
    and "notInfiniteVec sp" "notInfiniteVec (position t)"
  shows "\<exists>s \<in> set generated. bankShotAt ai t p gs sp wl = Some [s]"
proof -
  from bankShotAt_returns [OF assms(6,7,5)]
  obtain s where s: "bankShotAt ai t p gs sp wl = Some [s]" ..
  from generated_bank [OF assms(1-5)] s show ?thesis by auto
qed

lemma getBoardWalls_nonempty: "getBoardWalls ai \<noteq> []"
  by (simp add: getBoardWalls_def)

lemma getBestShot_hd:
  assumes "analyzeShot ai gs = Some shots" "shots \<noteq> []"
  shows "getBestShot ai gs = Some (Some (hd shots))"
  using assms by (cases shots) (simp_all add: getBestShot_def)

lemma newCarromAI_fields:
  "aiBoardWidth (newCarromAI e w h d) = w" "aiBoardHeight (newCarromAI e w h d) = h"
  "physicsEngine (newCarromAI e w h d) = e"
  "aiPockets (newCarromAI e w h d) \<noteq> []"
  by (simp_all add: newCarromAI_def Let_def)

lemma newCarromAI_finite: "finitePlanner (newCarromAI e (Num w) (Num h) d)"
  by (cases d) (simp_all add: finitePlanner_def newCarromAI_def Let_def finiteVec_def nsub_def)


subsection \<open>Angles\<close>

text \<open>
  The angle of \<open>atan2\<close> in polar form, and what \<open>normalizeAngle\<close> leaves of the difference of
  two angles: its cosine.
\<close>

lemma atan2_polar:
  "sqrt (x * x + y * y) * cos (atan2 y x) = x \<and> sqrt (x * x + y * y) * sin (atan2 y x) = y"
proof -
  have root: "sqrt (x * x + y * y) = \<bar>x\<bar> * sqrt (1 + (y / x)\<^sup>2)" if "x \<noteq> 0"
  proof -
    have "x * x + y * y = x\<^sup>2 * (1 + (y / x)\<^sup>2)"
      using that by (simp add: power2_eq_square field_simps)
    then show ?thesis by (simp add: real_sqrt_mult)
  qed
  have pos: "0 < sqrt (1 + (y / x)\<^sup>2)"
    by (simp add: add_pos_nonneg)
  consider "0 < x" | "x < 0" "0 \<le> y" | "x < 0" "y < 0" | "x = 0" "0 < y" | "x = 0" "y < 0"
    | "x = 0" "y = 0"
    by linarith
  then show ?thesis
  proof cases
    case 1
    then show ?thesis
      using pos by (simp add: atan2_def root cos_arctan sin_arctan)
  next
    case 2
    then show ?thesis
      using pos by (simp add: atan2_def root cos_arctan sin_arctan)
  next
    case 3
    then show ?thesis
      using pos by (simp add: atan2_def root cos_arctan sin_arctan)
  next
    case 4
    then show ?thesis by (simp add: atan2_def)
  next
    case 5
    then show ?thesis by (simp add: atan2_def)
  next
    case 6
    then show ?thesis by (simp add: atan2_def)
  qed
qed

lemma atan2_eq_cross:
  assumes "atan2 y1 x1 = atan2 y2 x2"
  shows "x1 * y2 - y1 * x2 = 0"
proof -
  define r1 where "r1 = sqrt (x1 * x1 + y1 * y1)"
  define r2 where "r2 = sqrt (x2 * x2 + y2 * y2)"
  define t where "t = atan2 y1 x1"
  have a: "x1 = r1 * cos t" "y1 = r1 * sin t"
    using atan2_polar [of x1 y1] by (simp_all add: r1_def t_def)
  have b: "x2 = r2 * cos t" "y2 = r2 * sin t"
    using atan2_polar [of x2 y2] by (simp_all add: r2_def t_def assms)
  show ?thesis
    by (subst a(1), subst a(2), subst b(1), subst b(2)) (simp add: algebra_simps)
qed

lemma atan2_dot:
  "sqrt (x1 * x1 + y1 * y1) * sqrt (x2 * x2 + y2 * y2) * cos (atan2 y1 x1 - atan2 y2 x2) =
   x1 * x2 + y1 * y2"
proof -
  define r1 where "r1 = sqrt (x1 * x1 + y1 * y1)"
  define r2 where "r2 = sqrt (x2 * x2 + y2 * y2)"
  define s where "s = atan2 y1 x1"
  define t where "t = atan2 y2 x2"
  have a: "x1 = r1 * cos s" "y1 = r1 * sin s"
    using atan2_polar [of x1 y1] by (simp_all add: r1_def s_def)
  have b: "x2 = r2 * cos t" "y2 = r2 * sin t"
    using atan2_polar [of x2 y2] by (simp_all add: r2_def t_def)
  have "r1 * r2 * cos (s - t) = (r1 * cos s) * (r2 * cos t) + (r1 * sin s) * (r2 * sin t)"
    by (simp add: cos_diff algebra_simps)
  then show ?thesis
    unfolding r1_def [symmetric] r2_def [symmetric] s_def [symmetric] t_def [symmetric]
    using a b by simp
qed

lemma normalizeUpR_shift: "\<exists>k::int. normalizeUpR a = a + 2 * pi * of_int k"
proof (induction a rule: normalizeUpR.induct)
  case (1 a)
  show ?case
  proof (cases "a < 0")
    case True
    with 1 obtain k :: int where "normalizeUpR (a + 2 * pi) = a + 2 * pi + 2 * pi * of_int k"
      by auto
    then have "normalizeUpR a = a + 2 * pi * of_int (k + 1)"
      using True by (subst normalizeUpR.simps) (simp add: algebra_simps)
    then show ?thesis by blast
  next
    case False
    then have "normalizeUpR a = a + 2 * pi * of_int 0"
      by (subst normalizeUpR.simps) simp
    then show ?thesis by blast
  qed
qed

lemma normalizeUpR_nonneg: "0 \<le> normalizeUpR a"
proof (induction a rule: normalizeUpR.induct)
  case (1 a)
  then show ?case by (subst normalizeUpR.simps) auto
qed

lemma normalizeDownR_shift: "\<exists>k::int. normalizeDownR a = a + 2 * pi * of_int k"
proof (induction a rule: normalizeDownR.induct)
  case (1 a)
  show ?case
  proof (cases "2 * pi \<le> a")
    case True
    with 1 obtain k :: int where "normalizeDownR (a - 2 * pi) = a - 2 * pi + 2 * pi * of_int k"
      by auto
    then have "normalizeDownR a = a + 2 * pi * of_int (k - 1)"
      using True by (subst normalizeDownR.simps) (simp add: algebra_simps)
    then show ?thesis by blast
  next
    case False
    then have "normalizeDownR a = a + 2 * pi * of_int 0"
      by (subst normalizeDownR.simps) simp
    then show ?thesis by blast
  qed
qed

lemma normalizeDownR_range: "0 \<le> a \<Longrightarrow> 0 \<le> normalizeDownR a \<and> normalizeDownR a < 2 * pi"
proof (induction a rule: normalizeDownR.induct)
  case (1 a)
  then show ?case by (subst normalizeDownR.simps, subst (2) normalizeDownR.simps) auto
qed

lemma normalizeAngleR_range: "0 \<le> normalizeAngleR a \<and> normalizeAngleR a < 2 * pi"
  unfolding normalizeAngleR_def by (rule normalizeDownR_range) (rule normalizeUpR_nonneg)

lemma normalizeAngleR_shift: "\<exists>k::int. normalizeAngleR a = a + 2 * pi * of_int k"
proof -
  obtain k :: int where k: "normalizeUpR a = a + 2 * pi * of_int k"
    using normalizeUpR_shift by blast
  obtain l :: int where l: "normalizeDownR (normalizeUpR a) = normalizeUpR a + 2 * pi * of_int l"
    using normalizeDownR_shift by blast
  have "normalizeAngleR a = a + 2 * pi * of_int (k + l)"
    by (simp only: normalizeAngleR_def l) (simp add: k algebra_simps)
  then show ?thesis by blast
qed

lemma cos_shift: "cos (x + 2 * pi * of_int k) = cos x"
  by (simp add: cos_add)

lemma cos_normalizeAngleR_diff: "cos (normalizeAngleR a - normalizeAngleR b) = cos (a - b)"
proof -
  obtain k :: int where k: "normalizeAngleR a = a + 2 * pi * of_int k"
    using normalizeAngleR_shift by blast
  obtain l :: int where l: "normalizeAngleR b = b + 2 * pi * of_int l"
    using normalizeAngleR_shift by blast
  have "normalizeAngleR a - normalizeAngleR b = (a - b) + 2 * pi * of_int (k - l)"
    by (simp add: k l algebra_simps)
  then show ?thesis by (simp only: cos_shift)
qed

text \<open>The tolerance test of a direct or carom shot, with the tolerance \<open>tol\<close>.\<close>

lemma tolerance_cos:
  assumes "0 \<le> tol" "tol \<le> pi"
    and "\<bar>normalizeAngleR a - normalizeAngleR b\<bar> \<le> tol \<or>
         2 * pi - \<bar>normalizeAngleR a - normalizeAngleR b\<bar> \<le> tol"
  shows "cos tol \<le> cos (a - b)"
proof -
  define d where "d = \<bar>normalizeAngleR a - normalizeAngleR b\<bar>"
  have r1: "0 \<le> d" unfolding d_def by (rule abs_ge_zero)
  have r2: "d < 2 * pi"
    using normalizeAngleR_range [of a] normalizeAngleR_range [of b] unfolding d_def by linarith
  have c: "cos d = cos (a - b)"
    unfolding d_def cos_abs_real by (rule cos_normalizeAngleR_diff)
  from assms(3) have "d \<le> tol \<or> 2 * pi - d \<le> tol" unfolding d_def .
  then show ?thesis
  proof
    assume "d \<le> tol"
    from cos_monotone_0_pi_le [OF r1 this assms(2)] show ?thesis
      unfolding c .
  next
    assume s: "2 * pi - d \<le> tol"
    have e: "2 * pi - d = - d + 2 * pi" by simp
    have "cos (2 * pi - d) = cos d"
      unfolding e cos_periodic cos_minus ..
    moreover have "0 \<le> 2 * pi - d" using r2 by simp
    from cos_monotone_0_pi_le [OF this s assms(2)] have "cos tol \<le> cos (2 * pi - d)" .
    ultimately show ?thesis unfolding c by simp
  qed
qed

lemma distanceR_ge_dy: "\<bar>py q - py p\<bar> \<le> distanceR p q"
proof -
  have "sqrt ((py q - py p) * (py q - py p)) \<le>
        sqrt ((px q - px p) * (px q - px p) + (py q - py p) * (py q - py p))"
    by (rule real_sqrt_le_mono) simp
  then show ?thesis by (simp add: distanceR_def Let_def)
qed

lemma farApart_cos:
  assumes "farApart \<lparr>px = ux, py = uy\<rparr> \<lparr>px = vx, py = vy\<rparr>"
  shows "- (sqrt 3 / 2) < cos (atan2 uy ux - atan2 vy vx)"
proof -
  define uu where "uu = ux * ux + uy * uy"
  define vv where "vv = vx * vx + vy * vy"
  define uv where "uv = ux * vx + uy * vy"
  define c where "c = cos (atan2 uy ux - atan2 vy vx)"
  from assms have pos: "0 < uu * vv" and far: "0 \<le> uv \<or> 4 * (uv * uv) < 3 * (uu * vv)"
    by (simp_all add: farApart_def uu_def vv_def uv_def Let_def)
  have nn: "0 \<le> uu" "0 \<le> vv" by (simp_all add: uu_def vv_def)
  define r where "r = sqrt uu * sqrt vv"
  have rr: "r * r = uu * vv"
    using nn by (simp add: r_def algebra_simps flip: real_sqrt_mult)
  have rpos: "0 < r"
    using pos nn unfolding r_def by (metis mult_pos_pos real_sqrt_gt_zero zero_less_mult_iff mult_zero_left mult_zero_right less_le)
  have d: "r * c = uv"
    unfolding r_def c_def uu_def vv_def uv_def by (rule atan2_dot)
  show ?thesis
  proof (rule ccontr)
    assume "\<not> - (sqrt 3 / 2) < cos (atan2 uy ux - atan2 vy vx)"
    then have le: "c \<le> - (sqrt 3 / 2)" by (simp add: c_def)
    have s3: "0 < sqrt 3 / 2" by simp
    have neg: "c < 0" using le s3 by linarith
    have "uv < 0" using rpos neg d by (metis mult_pos_neg)
    with far have lt: "4 * (uv * uv) < 3 * (uu * vv)" by simp
    have "(sqrt 3 / 2) * (sqrt 3 / 2) \<le> (- c) * (- c)"
      using le s3 neg by (intro mult_mono) simp_all
    moreover have "(sqrt 3 / 2) * (sqrt 3 / 2) = 3 / 4" by simp
    ultimately have cc: "3 / 4 \<le> c * c" by simp
    have "uv * uv = (uu * vv) * (c * c)"
      unfolding d [symmetric] rr [symmetric] by (simp add: algebra_simps)
    moreover have "(uu * vv) * (3 / 4) \<le> (uu * vv) * (c * c)"
      using pos cc by (intro mult_left_mono) simp_all
    ultimately have "3 * (uu * vv) \<le> 4 * (uv * uv)" by simp
    with lt show False by simp
  qed
qed

subsection \<open>A far target\<close>

text \<open>
  A bank shot at a target 360 or more away has the least probability at an accuracy up to
  \<open>0.85\<close>, and a direct shot is rejected when the way to the target and the way on to the
  pocket are far apart.
\<close>

lemma toNum_notInfinite: "notInfiniteVec (toNum p)"
  by (simp add: notInfiniteVec_def)

lemma clamp_low: "x \<le> 0.05 \<Longrightarrow> max 0.05 (min 0.95 x) = (0.05 :: real)"
  by simp

lemma far_bank_probability:
  assumes "360 \<le> distanceR s t" "accuracyMultiplier ai = Num m" "0 \<le> m" "m \<le> 0.85"
  shows "calculateShotProbability ai (toNum s) (toNum t) (toNum q) Bank gs = Some (Num 0.05)"
proof -
  obtain b where b: "isPathClear (physicsEngine ai) (toNum s) (toNum t) [] (Num 2) = Some b"
    using isPathClear_returns [OF toNum_notInfinite toNum_notInfinite] by blast
  define af where
    "af = max 0.1 (1 - \<bar>normalizeAngleR (angleR t q + pi) - normalizeAngleR (angleR s t)\<bar> / pi)"
  define pc where "pc = (if b then 1 else (0.6 :: real))"
  have df: "0.1 = max 0.1 (1 - distanceR s t / 400)"
    using assms(1) by (simp add: max_def)
  have af: "0 \<le> af" "af \<le> 1"
  proof -
    define z where
      "z = \<bar>normalizeAngleR (angleR t q + pi) - normalizeAngleR (angleR s t)\<bar> / pi"
    have "0 \<le> z" unfolding z_def by simp
    then have "0 \<le> max 0.1 (1 - z) \<and> max 0.1 (1 - z) \<le> 1" by (simp add: max_def)
    then show "0 \<le> af" "af \<le> 1" unfolding af_def z_def by simp_all
  qed
  have pc: "0 \<le> pc" "pc \<le> 1"
    unfolding pc_def by simp_all
  have e: "calculateShotProbability ai (toNum s) (toNum t) (toNum q) Bank gs =
      Some (Num (max 0.05 (min 0.95 (0.8 * 0.1 * af * 0.7 * pc * m))))"
    using calculateShotProbability_toNum [OF b assms(2) df af_def, of Bank gs]
    by (simp add: pc_def)
  have "af * pc \<le> 1 * 1"
    using af pc by (intro mult_mono) simp_all
  then have x: "af * pc * m \<le> 1 * 0.85"
    using assms(3,4) af pc by (intro mult_mono) simp_all
  define z where "z = af * pc * m"
  have y: "0.8 * 0.1 * af * 0.7 * pc * m = 56 / 1000 * z"
    by (simp add: z_def)
  have "z \<le> 85 / 100" using x by (simp add: z_def)
  then have "56 / 1000 * z \<le> 5 / 100" by linarith
  then have "0.8 * 0.1 * af * 0.7 * pc * m \<le> 0.05"
    unfolding y by simp
  then have "max 0.05 (min 0.95 (0.8 * 0.1 * af * 0.7 * pc * m)) = 0.05"
    by (rule clamp_low)
  then show ?thesis
    unfolding e by simp
qed

lemma directShotAt_rejected:
  assumes "position t = toNum tp" "pocketPosition p = toNum pp"
    and "farApart \<lparr>px = px tp - px s, py = py tp - py s\<rparr>
           \<lparr>px = px pp - px tp, py = py pp - py tp\<rparr>"
  shows "directShotAt ai t p gs (toNum s) = Some []"
proof -
  define a where "a = angleR s tp"
  define b where "b = angleR tp pp"
  have far: "- (sqrt 3 / 2) < cos (a - b)"
    unfolding a_def b_def angleR_def by (rule farApart_cos [OF assms(3)])
  have no: "\<not> (\<bar>normalizeAngleR a - normalizeAngleR (b + pi)\<bar> \<le> pi / 6 \<or>
           2 * pi - \<bar>normalizeAngleR a - normalizeAngleR (b + pi)\<bar> \<le> pi / 6)"
  proof
    assume "\<bar>normalizeAngleR a - normalizeAngleR (b + pi)\<bar> \<le> pi / 6 \<or>
            2 * pi - \<bar>normalizeAngleR a - normalizeAngleR (b + pi)\<bar> \<le> pi / 6"
    then have "cos (pi / 6) \<le> cos (a - (b + pi))"
      by (intro tolerance_cos) simp_all
    moreover have "cos (a - (b + pi)) = - cos (a - b)"
      by (simp add: cos_diff)
    ultimately have "cos (a - b) \<le> - (sqrt 3 / 2)"
      by (simp add: cos_30)
    with far show False by simp
  qed
  have n1: "normalizeAngle (angle (toNum s) (toNum tp)) = Some (Num (normalizeAngleR a))"
    by (simp add: angle_toNum normalizeAngle_Num a_def)
  have n2: "normalizeAngle (nadd (angle (toNum tp) (toNum pp)) (Num pi)) =
      Some (Num (normalizeAngleR (b + pi)))"
    by (simp add: angle_toNum normalizeAngle_Num b_def)
  have t: "\<not> (nle (nabs (nsub (Num (normalizeAngleR a)) (Num (normalizeAngleR (b + pi))))) (Num (pi / 6)) \<or>
      nle (nsub (Num (2 * pi)) (nabs (nsub (Num (normalizeAngleR a)) (Num (normalizeAngleR (b + pi))))))
        (Num (pi / 6)))"
    using no by (simp add: nsub_def)
  show ?thesis
    unfolding directShotAt_def Let_def assms(1,2) n1 n2 bind.bind_lunit
    by (simp only: t if_False)
qed

lemma endgame_pockets:
  "aiPockets endgamePlanner =
     [\<lparr>pocketPosition = toNum \<lparr>px = 30, py = 30\<rparr>, pocketRadius = Num 25\<rparr>,
      \<lparr>pocketPosition = toNum \<lparr>px = 770, py = 30\<rparr>, pocketRadius = Num 25\<rparr>,
      \<lparr>pocketPosition = toNum \<lparr>px = 30, py = 570\<rparr>, pocketRadius = Num 25\<rparr>,
      \<lparr>pocketPosition = toNum \<lparr>px = 770, py = 570\<rparr>, pocketRadius = Num 25\<rparr>]"
  by (simp add: endgamePlanner_def newCarromAI_def Let_def nsub_def toNum_def)

lemma endgame_fields:
  "aiBoardWidth endgamePlanner = Num 800" "aiBoardHeight endgamePlanner = Num 600"
  "accuracyMultiplier endgamePlanner = Num 0.85"
  by (simp_all add: endgamePlanner_def newCarromAI_def Let_def)

lemma endgame_area:
  "getStrikerStartArea endgamePlanner =
     Some (map (\<lambda>x. toNum \<lparr>px = x, py = 560\<rparr>)
       [340, 350, 360, 370, 380, 390, 400, 410, 420, 430, 440, 450, 460])"
  unfolding getStrikerStartArea_Num [OF endgame_fields(1,2)]
  by (simp add: strikerXsR.simps)

lemma farCoin_position: "position farCoin = toNum \<lparr>px = 400, py = 200\<rparr>"
  by (simp add: farCoin_def toNum_def)

lemma sqrt_le_iff_square: "0 \<le> c \<Longrightarrow> sqrt x \<le> c \<longleftrightarrow> x \<le> c * c"
  using real_sqrt_le_iff [of x "c * c"] by simp

lemma endgame_targets: "getTargetCoins endgamePlanner endgameSnapshot = [farCoin]"
  by (simp add: getTargetCoins_def endgameSnapshot_def isCoinPocketed_def endgame_pockets
      farCoin_position distance_toNum distanceR_def sqrt_le_iff_square)

lemma endgame_area': "getStrikerStartArea endgamePlanner = Some (map toNum endgameArea)"
  by (simp add: endgame_area endgameArea_def)

lemma angle_neq:
  assumes "(px b - px a) * (py c - py a) - (py b - py a) * (px c - px a) \<noteq> 0"
  shows "angle (toNum a) (toNum b) \<noteq> angle (toNum a) (toNum c)"
  using assms atan2_eq_cross [of "py b - py a" "px b - px a" "py c - py a" "px c - px a"]
  unfolding angle_toNum angleR_def by auto

lemma endgame_no_direct:
  assumes "p \<in> set (aiPockets endgamePlanner)" "s \<in> set endgameArea"
  shows "directShotAt endgamePlanner farCoin p endgameSnapshot (toNum s) = Some []"
proof -
  from assms(1) obtain pp where pp: "pocketPosition p = toNum pp"
    "pp \<in> {\<lparr>px = 30, py = 30\<rparr>, \<lparr>px = 770, py = 30\<rparr>, \<lparr>px = 30, py = 570\<rparr>, \<lparr>px = 770, py = 570\<rparr>}"
    unfolding endgame_pockets by auto
  have "farApart \<lparr>px = px \<lparr>px = 400, py = 200\<rparr> - px s, py = py \<lparr>px = 400, py = 200\<rparr> - py s\<rparr>
       \<lparr>px = px pp - px \<lparr>px = 400, py = 200 :: real\<rparr>, py = py pp - py \<lparr>px = 400, py = 200 :: real\<rparr>\<rparr>"
    using assms(2) pp(2) unfolding endgameArea_def
    by (auto simp add: farApart_def Let_def)
  from directShotAt_rejected [OF farCoin_position pp(1) this] show ?thesis .
qed

lemma endgame_far:
  assumes "s \<in> set endgameArea"
  shows "360 \<le> distanceR s \<lparr>px = 400, py = 200\<rparr>"
proof -
  from assms have "py s = 560" unfolding endgameArea_def by auto
  then have "\<bar>py \<lparr>px = 400, py = 200 :: real\<rparr> - py s\<bar> = 360" by simp
  with distanceR_ge_dy [of "\<lparr>px = 400, py = 200\<rparr>" s] show ?thesis by simp
qed

lemma endgame_bankPoint:
  assumes "p \<in> set (aiPockets endgamePlanner)" "w \<in> set (getBoardWalls endgamePlanner)"
    and "calculateBankPoint endgamePlanner (position farCoin) (pocketPosition p) w = Some bp"
  shows "bp \<in> toNum ` {\<lparr>px = 215, py = 20\<rparr>, \<lparr>px = 585, py = 20\<rparr>, \<lparr>px = 215, py = 580\<rparr>,
              \<lparr>px = 585, py = 580\<rparr>, \<lparr>px = 20, py = 115\<rparr>, \<lparr>px = 20, py = 385\<rparr>,
              \<lparr>px = 780, py = 115\<rparr>, \<lparr>px = 780, py = 385\<rparr>}"
  using assms unfolding endgame_pockets getBoardWalls_def
  by (auto simp add: calculateBankPoint_def endgame_fields farCoin_def Let_def toNum_def nsub_def)

lemma endgame_bank_not_straight:
  assumes "s \<in> set endgameArea"
    and "bp \<in> {\<lparr>px = 215, py = 20\<rparr>, \<lparr>px = 585, py = 20\<rparr>, \<lparr>px = 215, py = 580\<rparr>,
              \<lparr>px = 585, py = 580\<rparr>, \<lparr>px = 20, py = 115\<rparr>, \<lparr>px = 20, py = 385\<rparr>,
              \<lparr>px = 780, py = 115\<rparr>, \<lparr>px = 780, py = 385\<rparr>}"
  shows "angle (toNum s) (toNum bp) \<noteq> angle (toNum s) (position farCoin)"
  unfolding farCoin_position
proof (rule angle_neq)
  from assms(1) have y: "py s = 560" and x: "340 \<le> px s" "px s \<le> 460"
    unfolding endgameArea_def by auto
  from assms(2) show "(px bp - px s) * (py \<lparr>px = 400, py = 200 :: real\<rparr> - py s) -
      (py bp - py s) * (px \<lparr>px = 400, py = 200 :: real\<rparr> - px s) \<noteq> 0"
    using x unfolding y by (auto simp add: algebra_simps)
qed

lemma endgame_generated:
  assumes "generateShots endgamePlanner endgameSnapshot (map toNum endgameArea) = Some generated"
    and "s \<in> set generated"
  shows "shotType s = Bank \<and> successProbability s = Num 0.04 \<and>
         shotAngle s \<noteq> angle (strikerPosition s) (position farCoin)"
proof -
  from generated_cases [OF assms] obtain t p spn where
    t: "t \<in> set (getTargetCoins endgamePlanner endgameSnapshot)"
    and p: "p \<in> set (aiPockets endgamePlanner)" and spn: "spn \<in> set (map toNum endgameArea)"
    and c0: "(\<exists>r. directShotAt endgamePlanner t p endgameSnapshot spn = Some r \<and> s \<in> set r) \<or>
        (\<exists>w \<in> set (getBoardWalls endgamePlanner).
           \<exists>r. bankShotAt endgamePlanner t p endgameSnapshot spn w = Some r \<and> s \<in> set r) \<or>
        (\<exists>c \<in> set (playerCoins endgameSnapshot @ opponentCoins endgameSnapshot).
           bid c \<noteq> bid t \<and>
           (\<exists>r. caromShotAt endgamePlanner t p endgameSnapshot spn c = Some r \<and> s \<in> set r))"
    by blast
  from t have t': "t = farCoin" by (simp add: endgame_targets)
  from spn obtain sp where sp: "sp \<in> set endgameArea" and sp': "spn = toNum sp" by auto
  note c = c0 [unfolded t' sp']
  from p obtain pp where pp: "pocketPosition p = toNum pp"
    unfolding endgame_pockets by auto
  from c show ?thesis
  proof (elim disjE exE bexE conjE)
    fix r
    assume "directShotAt endgamePlanner farCoin p endgameSnapshot (toNum sp) = Some r" "s \<in> set r"
    with endgame_no_direct [OF p sp] show ?thesis by simp
  next
    fix w r
    assume w: "w \<in> set (getBoardWalls endgamePlanner)"
      and "bankShotAt endgamePlanner farCoin p endgameSnapshot (toNum sp) w = Some r" "s \<in> set r"
    from bankShotAt_shot [OF this(2,3)] obtain bp pr where
      bp: "calculateBankPoint endgamePlanner (position farCoin) (pocketPosition p) w = Some bp"
      and f: "shotType s = Bank" "strikerPosition s = toNum sp" "shotAngle s = angle (toNum sp) bp"
      and pr: "calculateShotProbability endgamePlanner (toNum sp) (position farCoin)
                 (pocketPosition p) Bank endgameSnapshot = Some pr"
        "successProbability s = nmul pr (Num 0.8)"
      by blast
    have "calculateShotProbability endgamePlanner (toNum sp) (position farCoin)
            (pocketPosition p) Bank endgameSnapshot = Some (Num 0.05)"
      unfolding farCoin_position pp
      by (rule far_bank_probability [OF endgame_far [OF sp] endgame_fields(3)]) simp_all
    with pr have "pr = Num 0.05" by simp
    with pr(2) have "successProbability s = Num 0.04" by simp
    moreover from endgame_bankPoint [OF p w bp] obtain b where "bp = toNum b"
      "b \<in> {\<lparr>px = 215, py = 20\<rparr>, \<lparr>px = 585, py = 20\<rparr>, \<lparr>px = 215, py = 580\<rparr>,
              \<lparr>px = 585, py = 580\<rparr>, \<lparr>px = 20, py = 115\<rparr>, \<lparr>px = 20, py = 385\<rparr>,
              \<lparr>px = 780, py = 115\<rparr>, \<lparr>px = 780, py = 385\<rparr>}"
      by blast
    with endgame_bank_not_straight [OF sp this(2)]
    have "angle (toNum sp) bp \<noteq> angle (toNum sp) (position farCoin)" by simp
    ultimately show ?thesis using f by simp
  next
    fix c r
    assume "c \<in> set (playerCoins endgameSnapshot @ opponentCoins endgameSnapshot)"
      "bid c \<noteq> bid farCoin"
    then show ?thesis by (simp add: endgameSnapshot_def)
  qed
qed

lemma endgame_returns:
  "\<exists>generated. generateShots endgamePlanner endgameSnapshot (map toNum endgameArea) = Some generated \<and>
     generated \<noteq> [] \<and>
     analyzeShot endgamePlanner endgameSnapshot = Some (rankShots generated endgameSnapshot)"
proof -
  have "list_all (\<lambda>c. notInfiniteVec (position c)) (getTargetCoins endgamePlanner endgameSnapshot)"
    unfolding endgame_targets by (simp add: farCoin_position toNum_notInfinite)
  from analyzeShot_returns [OF endgame_fields(1,2) this] obtain generated where
    g: "generateShots endgamePlanner endgameSnapshot (map toNum endgameArea) = Some generated"
    and r: "analyzeShot endgamePlanner endgameSnapshot = Some (rankShots generated endgameSnapshot)"
    unfolding endgame_area' by auto
  have "\<exists>s \<in> set generated.
      bankShotAt endgamePlanner farCoin (hd (aiPockets endgamePlanner)) endgameSnapshot
        (toNum (hd endgameArea)) (hd (getBoardWalls endgamePlanner)) = Some [s]"
    by (rule generated_bank_single [OF g])
      (simp_all add: endgame_targets endgame_pockets endgameArea_def getBoardWalls_def
        toNum_notInfinite farCoin_position)
  then have "generated \<noteq> []" by auto
  with g r show ?thesis by blast
qed

subsection \<open>Coins at no place\<close>

text \<open>A target whose position is \<open>(NaN, NaN)\<close> is live, and every shot at it has the probability \<open>NaN\<close>.\<close>

lemma NaN_absorbs [simp]:
  "nadd a NaN = NaN" "nadd NaN a = NaN" "nsub a NaN = NaN" "nsub NaN a = NaN"
  "nmul a NaN = NaN" "nmul NaN a = NaN" "ndiv a NaN = NaN" "ndiv NaN a = NaN"
  "nmax a NaN = NaN" "nmax NaN a = NaN" "nmin a NaN = NaN" "nmin NaN a = NaN"
  "natan2 a NaN = NaN" "natan2 NaN a = NaN"
  by (cases a; simp add: nsub_def)+

lemma distance_NaN: "distance p \<lparr>px = NaN, py = NaN\<rparr> = NaN"
  by (simp add: distance_def nsub_def Let_def)

lemma distance_NaN_left: "distance \<lparr>px = NaN, py = NaN\<rparr> p = NaN"
  by (simp add: distance_def nsub_def Let_def)

lemma angle_NaN: "angle p \<lparr>px = NaN, py = NaN\<rparr> = NaN" "angle \<lparr>px = NaN, py = NaN\<rparr> p = NaN"
  by (simp_all add: angle_def nsub_def)

lemma isPathClear_NaN: "isPathClear e s \<lparr>px = NaN, py = NaN\<rparr> ex buf = Some True"
  unfolding isPathClear_def Let_def distance_NaN
  by (subst pathLoop.simps) simp

lemma nan_target_probability:
  "calculateShotProbability ai sp \<lparr>px = NaN, py = NaN\<rparr> pp k gs = Some NaN"
  unfolding calculateShotProbability_def Let_def distance_NaN angle_NaN isPathClear_NaN
  by (cases k) (simp_all add: normalizeAngle_NaN)

lemma lost_targets: "getTargetCoins lostPlanner lostSnapshot = [lostCoin]"
  by (simp add: getTargetCoins_def lostSnapshot_def isCoinPocketed_def lostCoin_def
      distance_NaN_left list_ex_iff)

text \<open>The coins of the snapshot are the bodies of the planner's engine.\<close>

lemma lost_registry:
  "map snd (bodies (physicsEngine lostPlanner)) = playerCoins lostSnapshot @ opponentCoins lostSnapshot"
  by (simp add: lostPlanner_def newCarromAI_fields step_coincidentScenario lostSnapshot_def
      lostCoin_def)

lemma lost_candidates:
  "\<exists>shots. analyzeShot lostPlanner lostSnapshot = Some shots \<and> shots \<noteq> [] \<and>
     getBestShot lostPlanner lostSnapshot = Some (Some (hd shots)) \<and>
     \<not> (\<exists>s \<in> set shots. successProbability s \<noteq> NaN)"
proof -
  have d: "aiBoardWidth lostPlanner = Num 800" "aiBoardHeight lostPlanner = Num 600"
    by (simp_all add: lostPlanner_def newCarromAI_fields)
  have ni: "notInfiniteVec (position lostCoin)"
    by (simp add: lostCoin_def notInfiniteVec_def)
  then have "list_all (\<lambda>c. notInfiniteVec (position c)) (getTargetCoins lostPlanner lostSnapshot)"
    by (simp add: lost_targets)
  from analyzeShot_returns [OF d this] obtain area generated where
    a: "getStrikerStartArea lostPlanner = Some area" "area \<noteq> []" "\<forall>sp \<in> set area. finiteVec sp"
    and g: "generateShots lostPlanner lostSnapshot area = Some generated"
    and r: "analyzeShot lostPlanner lostSnapshot = Some (rankShots generated lostSnapshot)"
    by blast
  have "\<exists>s \<in> set generated.
      bankShotAt lostPlanner lostCoin (hd (aiPockets lostPlanner)) lostSnapshot
        (hd area) (hd (getBoardWalls lostPlanner)) = Some [s]"
  proof (rule generated_bank_single [OF g _ _ _ _ _ ni])
    show "hd area \<in> set area" using a(2) by simp
    then show "notInfiniteVec (hd area)" using a(3) by (simp add: finite_notInfiniteVec)
    show "lostCoin \<in> set (getTargetCoins lostPlanner lostSnapshot)"
      by (simp add: lost_targets)
    show "hd (aiPockets lostPlanner) \<in> set (aiPockets lostPlanner)"
      by (simp add: lostPlanner_def newCarromAI_fields)
    show "hd (getBoardWalls lostPlanner) \<in> set (getBoardWalls lostPlanner)"
      by (simp add: getBoardWalls_nonempty)
  qed
  then have "generated \<noteq> []" by auto
  then have ne: "rankShots generated lostSnapshot \<noteq> []" by (rule rankShots_nonempty)
  have p: "position lostCoin = \<lparr>px = NaN, py = NaN\<rparr>" by (simp add: lostCoin_def)
  have "successProbability s = NaN" if "s \<in> set generated" for s
  proof -
    from g that show ?thesis
    proof (cases rule: generated_elim)
      case (direct t pk sp r)
      from direct(1) have t: "t = lostCoin" by (simp add: lost_targets)
      from directShotAt_shot [OF direct(4,5)] show ?thesis
        unfolding t p nan_target_probability by simp
    next
      case (bank t pk sp w r)
      from bank(1) have t: "t = lostCoin" by (simp add: lost_targets)
      from bankShotAt_shot [OF bank(5,6)] show ?thesis
        unfolding t p nan_target_probability by auto
    next
      case (carom t pk sp c r)
      from carom(1) have t: "t = lostCoin" by (simp add: lost_targets)
      from caromShotAt_shot [OF carom(6,7)] show ?thesis
        unfolding t p nan_target_probability by auto
    qed
  qed
  then have "\<not> (\<exists>s \<in> set (rankShots generated lostSnapshot). successProbability s \<noteq> NaN)"
    using set_rankShots [of generated lostSnapshot] by blast
  with r ne getBestShot_hd [OF r ne] show ?thesis by blast
qed

subsection \<open>The claims on the two snapshots\<close>

lemma endgame_finite: "finitePlanner endgamePlanner \<and> finiteCoins endgameSnapshot"
  unfolding endgamePlanner_def
  by (simp add: newCarromAI_finite finiteCoins_def endgameSnapshot_def farCoin_def finiteVec_def)


lemma endgame_best_shot:
  "\<exists>s. getBestShot endgamePlanner endgameSnapshot = Some (Some s) \<and> shotType s = Bank \<and>
       successProbability s = Num 0.04"
proof -
  from endgame_returns obtain generated where
    g: "generateShots endgamePlanner endgameSnapshot (map toNum endgameArea) = Some generated"
    and ne: "generated \<noteq> []"
    and r: "analyzeShot endgamePlanner endgameSnapshot = Some (rankShots generated endgameSnapshot)"
    by blast
  let ?shots = "rankShots generated endgameSnapshot"
  have ne': "?shots \<noteq> []" using ne by (rule rankShots_nonempty)
  then have "hd ?shots \<in> set generated" using set_rankShots [of generated endgameSnapshot] by auto
  from endgame_generated [OF g this] getBestShot_hd [OF r ne'] show ?thesis
    by (intro exI [of _ "hd ?shots"]) simp
qed

text \<open>
  C3.  The claim: the success probability of every candidate returned lies in
  \<open>[0.05, 0.95]\<close>.  In the endgame snapshot the best shot is a bank shot with the clamped
  probability \<open>0.05\<close> times \<open>0.8\<close>, which is \<open>0.04\<close>.  In the snapshot of the two discs that
  \<open>step\<close> left at no place, the success probability of the best shot is \<open>NaN\<close>.
\<close>

theorem candidates_outside_interval:
  "(\<exists>s. getBestShot endgamePlanner endgameSnapshot = Some (Some s) \<and> shotType s = Bank \<and>
        successProbability s = Num 0.04 \<and>
        \<not> (nle (Num 0.05) (successProbability s) \<and> nle (successProbability s) (Num 0.95))) \<and>
   (\<exists>s. getBestShot lostPlanner lostSnapshot = Some (Some s) \<and> successProbability s = NaN \<and>
        \<not> (nle (Num 0.05) (successProbability s) \<and> nle (successProbability s) (Num 0.95)))"
proof -
  from endgame_best_shot obtain s where
    "getBestShot endgamePlanner endgameSnapshot = Some (Some s)" "shotType s = Bank"
    "successProbability s = Num 0.04"
    by blast
  then have "\<exists>s. getBestShot endgamePlanner endgameSnapshot = Some (Some s) \<and> shotType s = Bank \<and>
        successProbability s = Num 0.04 \<and>
        \<not> (nle (Num 0.05) (successProbability s) \<and> nle (successProbability s) (Num 0.95))"
    by (intro exI [of _ s]) simp
  moreover from lost_candidates obtain shots where
    l: "shots \<noteq> []" "getBestShot lostPlanner lostSnapshot = Some (Some (hd shots))"
    "\<not> (\<exists>s \<in> set shots. successProbability s \<noteq> NaN)"
    by blast
  then have "successProbability (hd shots) = NaN" by auto
  with l(2) have "\<exists>s. getBestShot lostPlanner lostSnapshot = Some (Some s) \<and>
        successProbability s = NaN \<and>
        \<not> (nle (Num 0.05) (successProbability s) \<and> nle (successProbability s) (Num 0.95))"
    by (intro exI [of _ "hd shots"]) simp
  ultimately show ?thesis by blast
qed


theorem candidate_probability_bounds_witness:
  "\<exists>s. getBestShot endgamePlanner endgameSnapshot = Some (Some s) \<and>
       finitePlanner endgamePlanner \<and> finiteCoins endgameSnapshot \<and>
       shotType s = Bank \<and> successProbability s = Num 0.04 \<and> probabilityInRange s"
proof -
  from endgame_returns obtain generated where
    g: "generateShots endgamePlanner endgameSnapshot (map toNum endgameArea) = Some generated"
    and ne: "generated \<noteq> []"
    and r: "analyzeShot endgamePlanner endgameSnapshot = Some (rankShots generated endgameSnapshot)"
    by blast
  let ?shots = "rankShots generated endgameSnapshot"
  have ne': "?shots \<noteq> []" using ne by (rule rankShots_nonempty)
  then have m: "hd ?shots \<in> set generated"
    using set_rankShots [of generated endgameSnapshot] by auto
  have b: "getBestShot endgamePlanner endgameSnapshot = Some (Some (hd ?shots))"
    by (rule getBestShot_hd [OF r ne'])
  from candidate_probability_bounds [of endgamePlanner endgameSnapshot "[]" "hd ?shots" "Num 5"] b
    endgame_finite
  have "probabilityInRange (hd ?shots)" by blast
  with endgame_generated [OF g m] b endgame_finite show ?thesis
    by (intro exI [of _ "hd ?shots"]) simp
qed
end
